(* ===== verification/Prelude.thy ===== *)
theory Prelude
  imports Main "HOL-Library.Word" "HOL-Library.List_Lexorder" "HOL-Library.Monad_Syntax"
begin

unbundle bit_operations_syntax

text \<open>
  The vocabulary of the whole development: names for the machine integers of the C and C++
  sources, the collections of facts the component theories share, signed 64-bit arithmetic whose
  overflow is undefined, the value of a byte string read in big-endian order, and writing a run of
  bytes into a fixed buffer (\<open>memcpy\<close>). An operation of type \<open>'a option\<close> returns \<^const>\<open>None\<close> exactly
  where the C++ program has no defined behaviour, unless its own text says otherwise.
\<close>

type_synonym u8 = "8 word"
type_synonym u32 = "32 word"
type_synonym i32 = "32 word"
type_synonym u64 = "64 word"
type_synonym i64 = "64 word"

named_theorems byte_simps "lengths and elements of byte arrays"
named_theorems host_simps "the operations of a Host, unfolded"
named_theorems heap_simps "the operations on the C heap, unfolded"

section \<open>Lists\<close>

lemma list_eq_take_drop: "(xs = ys) \<longleftrightarrow> (take n xs = take n ys \<and> drop n xs = drop n ys)"
  by (metis append_take_drop_id)

lemma length_8_conv: "length xs = 8 \<longleftrightarrow> (\<exists>a b c d e f g h. xs = [a, b, c, d, e, f, g, h])"
  by (auto simp: numeral_eq_Suc length_Suc_conv)

lemma length_4_conv: "length xs = 4 \<longleftrightarrow> (\<exists>a b c d. xs = [a, b, c, d])"
  by (auto simp: numeral_eq_Suc length_Suc_conv)

lemma ran_fresh_update: "m x = None \<Longrightarrow> ran (m(x := v)) = ran m \<union> set_option v"
  by (cases v) (simp_all add: fun_upd_idem)

lemma ran_remove:
  assumes "\<And>y r. m x = Some r \<Longrightarrow> m y = Some r \<Longrightarrow> x = y"
  shows "ran (m(x := None)) = ran m - set_option (m x)"
proof -
  have "(\<exists>z. z \<noteq> x \<and> m z = Some r) \<longleftrightarrow> (\<exists>z. m z = Some r) \<and> m x \<noteq> Some r" for r
    using assms by metis
  then show ?thesis by (auto simp: ran_def)
qed

lemma ran_move: "x \<noteq> y \<Longrightarrow> ran (m(x := m y, y := None)) = ran (m(x := None))"
proof -
  assume "x \<noteq> y"
  then have "(\<exists>z. (m(x := m y, y := None)) z = Some r) \<longleftrightarrow> (\<exists>z. (m(x := None)) z = Some r)" for r
    by (metis fun_upd_apply option.distinct(1))
  then show ?thesis by (simp only: ran_def)
qed

text \<open>Two lists of one length compare first by their first \<open>n\<close> elements, then by the rest.\<close>

lemma list_less_take_drop:
  fixes xs ys :: "'a::linorder list"
  assumes "length xs = length ys"
  shows "xs < ys \<longleftrightarrow> take n xs < take n ys \<or> take n xs = take n ys \<and> drop n xs < drop n ys"
  using assms
proof (induction xs ys arbitrary: n rule: list_induct2)
  case Nil
  then show ?case by simp
next
  case (Cons x xs y ys)
  then show ?case by (cases n) auto
qed

text \<open>\<^verbatim>\<open>std::memcpy(&buf[off], src, src_size)\<close> for a run that lies inside the buffer.\<close>

definition patch :: "'a list \<Rightarrow> nat \<Rightarrow> 'a list \<Rightarrow> 'a list" where
  "patch buf off src = take off buf @ src @ drop (off + length src) buf"

lemma length_patch [byte_simps]:
  "off + length src \<le> length buf \<Longrightarrow> length (patch buf off src) = length buf"
  by (simp add: patch_def)

lemma patch_nil [simp]: "patch buf off [] = buf"
  by (simp add: patch_def)

lemma patch_read:
  "off + length src \<le> length buf \<Longrightarrow> take (length src) (drop off (patch buf off src)) = src"
  by (simp add: patch_def)

lemma patch_outside:
  assumes "off + length src \<le> length buf" and "i < off \<or> off + length src \<le> i" and "i < length buf"
  shows "patch buf off src ! i = buf ! i"
  using assms by (auto simp: patch_def nth_append min_def)

text \<open>The write itself, undefined when the run does not lie inside the buffer.\<close>

definition copy_into :: "'a list \<Rightarrow> nat \<Rightarrow> 'a list \<Rightarrow> 'a list option" where
  "copy_into buf off src = (if off + length src \<le> length buf then Some (patch buf off src) else None)"

lemma copy_into_length: "copy_into buf off src = Some buf' \<Longrightarrow> length buf' = length buf"
  by (auto simp: copy_into_def length_patch split: if_splits)

text \<open>The bytes of the region \<open>[off, off + n)\<close>, undefined when it runs past the end.\<close>

definition region :: "nat \<Rightarrow> nat \<Rightarrow> 'a list \<Rightarrow> 'a list option" where
  "region off n xs = (if off + n \<le> length xs then Some (take n (drop off xs)) else None)"

lemma region_length: "region off n xs = Some ys \<Longrightarrow> length ys = n"
  by (auto simp: region_def split: if_splits)

lemma region_None_iff: "region off n xs = None \<longleftrightarrow> length xs < off + n"
  by (auto simp: region_def)

section \<open>Signed 64-bit integers\<close>

text \<open>
  \<^verbatim>\<open>int64_t\<close> is a 64-bit word read by \<^const>\<open>sint\<close>. Signed overflow is undefined in C++, so the
  subtraction is partial.
\<close>

definition i64_range :: "int \<Rightarrow> bool" where
  "i64_range z \<longleftrightarrow> - (2 ^ 63) \<le> z \<and> z < 2 ^ 63"

definition i64_sub :: "i64 \<Rightarrow> i64 \<Rightarrow> i64 option" where
  "i64_sub a b = (if i64_range (sint a - sint b) then Some (a - b) else None)"

lemma sint_i64_range: "i64_range (sint (a :: i64))"
  using sint_range_size [of a] by (simp add: i64_range_def word_size)

lemma sint_of_int_i64: "i64_range z \<Longrightarrow> sint (word_of_int z :: i64) = z"
  by (simp add: i64_range_def sint_sbintrunc' signed_take_bit_int_eq_self)

lemma i64_sub_Some: "i64_sub a b = Some c \<Longrightarrow> sint c = sint a - sint b"
proof -
  assume sub: "i64_sub a b = Some c"
  then have "c = word_of_int (sint a - sint b)" and r: "i64_range (sint a - sint b)"
    by (auto simp: i64_sub_def split: if_splits)
  then show ?thesis using sint_of_int_i64 [OF r] by simp
qed

section \<open>Big-endian values\<close>

fun be_val :: "u8 list \<Rightarrow> nat" where
  "be_val [] = 0"
| "be_val (b # bs) = unat b * 256 ^ length bs + be_val bs"

lemma unat_drop_bit: "unat (drop_bit k v) = unat v div 2 ^ k"
  by (simp only: unat_drop_bit_eq drop_bit_eq_div [of k "unat v"])

lemma unat_ucast_mod: "unat (ucast v :: 'b::len word) = unat v mod 2 ^ LENGTH('b)"
  by (simp only: unsigned_ucast_eq take_bit_eq_mod)

lemma unat_ucast_u32_u64: "unat (ucast (x :: u32) :: u64) = unat x"
  using unsigned_less [of x, where ?'a = nat] by (simp add: unat_ucast_mod)

lemma ucast_u32_u64_inject: "(ucast x :: u64) = ucast y \<longleftrightarrow> x = (y :: u32)"
  by (simp only: word_unat_eq_iff unat_ucast_u32_u64)

lemma unat_u8_less: "unat (b :: u8) < 256"
  using unsigned_less [of b] by simp

lemma be_val_less: "be_val bs < 256 ^ length bs"
proof (induction bs)
  case Nil
  then show ?case by simp
next
  case (Cons b bs)
  have "unat b * 256 ^ length bs + be_val bs < unat b * 256 ^ length bs + 256 ^ length bs"
    using Cons by simp
  also have "\<dots> = (unat b + 1) * 256 ^ length bs" by simp
  also have "\<dots> \<le> 256 * 256 ^ length bs"
    using unat_u8_less [of b] by (intro mult_right_mono) auto
  finally show ?case by simp
qed

lemma be_val_append: "be_val (xs @ ys) = be_val xs * 256 ^ length ys + be_val ys"
  by (induction xs) (simp_all add: algebra_simps power_add)

lemma be_val_replicate_zero [simp]: "be_val (replicate n 0) = 0"
  by (induction n) simp_all

text \<open>Comparing two byte strings of one length byte by byte compares their values.\<close>

lemma be_val_digit_less:
  assumes "(x :: nat) < a" and "p < q" and "r < q"
  shows "x * q + p < a * q + r"
proof -
  have "x * q + p < (x + 1) * q" using assms by simp
  also have "\<dots> \<le> a * q" using assms by (intro mult_right_mono) auto
  finally show ?thesis by simp
qed

lemma be_val_less_iff: "length xs = length ys \<Longrightarrow> be_val xs < be_val ys \<longleftrightarrow> xs < ys"
proof (induction xs ys rule: list_induct2)
  case Nil
  then show ?case by simp
next
  case (Cons x xs y ys)
  have b: "be_val xs < 256 ^ length ys" "be_val ys < 256 ^ length ys"
    using be_val_less [of xs] be_val_less [of ys] Cons.hyps by simp_all
  consider "x < y" | "x = y" | "y < x" by fastforce
  then show ?case
  proof cases
    case 1
    then have "unat x < unat y" by (simp add: word_less_nat_alt)
    from be_val_digit_less [OF this b] show ?thesis using 1 Cons.hyps by simp
  next
    case 2
    then show ?thesis using Cons by simp
  next
    case 3
    then have "unat y < unat x" by (simp add: word_less_nat_alt)
    from be_val_digit_less [OF this b(2) b(1)] show ?thesis using 3 Cons.hyps by auto
  qed
qed

lemma be_val_inject: "length xs = length ys \<Longrightarrow> be_val xs = be_val ys \<longleftrightarrow> xs = ys"
  using be_val_less_iff [of xs ys] be_val_less_iff [of ys xs] by (metis linorder_less_linear nat_neq_iff)

text \<open>The \<open>k\<close> bytes of a number, most significant first, and back.\<close>

fun be_digits :: "nat \<Rightarrow> nat \<Rightarrow> u8 list" where
  "be_digits 0 n = []"
| "be_digits (Suc k) n = of_nat (n div 256 ^ k) # be_digits k n"

lemma length_be_digits [simp]: "length (be_digits k n) = k"
  by (induction k) simp_all

lemma be_digits_numeral [simp]:
  "be_digits (numeral k) n = of_nat (n div 256 ^ pred_numeral k) # be_digits (pred_numeral k) n"
  by (simp add: numeral_eq_Suc)

lemma be_val_be_digits: "be_val (be_digits k n) = n mod 256 ^ k"
proof (induction k)
  case 0
  then show ?case by simp
next
  case (Suc k)
  have "be_val (be_digits (Suc k) n) = (n div 256 ^ k mod 256) * 256 ^ k + n mod 256 ^ k"
    using Suc by (simp add: unat_of_nat)
  also have "\<dots> = n mod (256 ^ k * 256)"
    by (simp only: mod_mult2_eq mult.commute [of _ "256 ^ k"])
  finally show ?case by (simp add: mult.commute)
qed

end
