(* ===== verification/Bytes.thy ===== *)
theory Bytes
  imports Prelude
begin

text \<open>
  The fixed-size byte arrays of \<^verbatim>\<open>qrvmc.h\<close> and the operators \<^verbatim>\<open>qrvmc.hpp\<close> defines on them. A C struct
  whose only member is \<^verbatim>\<open>uint8_t bytes[N]\<close> is the type \<open>'n barray\<close> of byte lists of length
  \<open>LENGTH('n)\<close>, so \<open>20 barray\<close> is \<^verbatim>\<open>qrvmc_address\<close> and \<open>32 barray\<close> is \<^verbatim>\<open>qrvmc_bytes32\<close>, and the
  C++ templates over such types are polymorphic in \<open>'n\<close>. The comparisons of the code work on
  64-bit loads; the theory proves that they are equality and the byte-by-byte order, which is what
  makes the unordered and ordered maps of the Hosts partial functions of the key.
\<close>

section \<open>Arrays of bytes\<close>

typedef (overloaded) ('n::len) barray = "{bs :: u8 list. length bs = LENGTH('n)}"
  morphisms bytes mk_barray
  by (rule exI [of _ "replicate LENGTH('n) 0"]) simp

type_synonym address = "20 barray"
type_synonym bytes32 = "32 barray"
type_synonym uint256be = "32 barray"

text \<open>Aggregate initialisation \<^verbatim>\<open>T{{b0, b1, ...}}\<close>: the elements not given are zero.\<close>

definition barray_init :: "u8 list \<Rightarrow> ('n::len) barray" where
  "barray_init bs = mk_barray (take LENGTH('n) (bs @ replicate LENGTH('n) 0))"

lemma bytes_init: "bytes (barray_init bs :: ('n::len) barray) = take LENGTH('n) (bs @ replicate LENGTH('n) 0)"
  by (simp add: barray_init_def mk_barray_inverse)

lemma length_bytes [simp]: "length (bytes (a :: ('n::len) barray)) = LENGTH('n)"
  using bytes [of a] by simp

lemma bytes_init_full: "length bs = LENGTH('n::len) \<Longrightarrow> bytes (barray_init bs :: 'n barray) = bs"
  by (simp add: bytes_init)

lemma barray_init_bytes [simp]: "barray_init (bytes a) = a"
  by (metis bytes_inject bytes_init_full length_bytes)

lemma barray_eqI: "bytes a = bytes b \<Longrightarrow> a = b"
  by (simp add: bytes_inject)

lemma barray_eq_iff: "a = b \<longleftrightarrow> bytes a = bytes b"
  by (simp add: bytes_inject)

text \<open>The all-zero array \<^verbatim>\<open>T{}\<close>, equality and the byte-by-byte order.\<close>

instantiation barray :: (len) zero
begin

definition zero_barray :: "'a barray" where
  "zero_barray = barray_init []"

instance ..

end

instantiation barray :: (len) equal
begin

definition equal_barray :: "'a barray \<Rightarrow> 'a barray \<Rightarrow> bool" where
  "equal_barray a b \<longleftrightarrow> bytes a = bytes b"

instance
  by standard (simp add: equal_barray_def bytes_inject)

end

instantiation barray :: (len) linorder
begin

definition less_eq_barray :: "'a barray \<Rightarrow> 'a barray \<Rightarrow> bool" where
  "a \<le> b \<longleftrightarrow> bytes a \<le> bytes b"

definition less_barray :: "'a barray \<Rightarrow> 'a barray \<Rightarrow> bool" where
  "a < b \<longleftrightarrow> bytes a < bytes b"

instance
  by standard (auto simp: less_eq_barray_def less_barray_def bytes_inject less_le)

end

lemma bytes_zero [simp]: "bytes (0 :: ('n::len) barray) = replicate LENGTH('n) 0"
  by (simp add: zero_barray_def bytes_init)

lemma barray_init_trailing_zeros:
  "barray_init (xs @ replicate m 0) = (barray_init xs :: ('n::len) barray)"
proof -
  have "take LENGTH('n) ((xs @ replicate m 0) @ replicate LENGTH('n) 0) =
      take LENGTH('n) (xs @ replicate LENGTH('n) (0 :: u8))"
    by (simp add: replicate_add [symmetric] min_def)
  then show ?thesis by (simp add: barray_init_def)
qed

lemma be_val_bytes_less: "be_val (bytes (a :: ('n::len) barray)) < 256 ^ LENGTH('n)"
  using be_val_less [of "bytes a"] by simp

text \<open>\<open>uint_of\<close> reads an array as the big-endian number the header says it holds.\<close>

definition uint_of :: "('n::len) barray \<Rightarrow> nat" where
  "uint_of a = be_val (bytes a)"

lemma uint_of_inject: "uint_of a = uint_of b \<longleftrightarrow> a = b"
  by (simp add: uint_of_def be_val_inject bytes_inject)

lemma uint_of_eq_0_iff: "uint_of a = 0 \<longleftrightarrow> a = 0"
  using uint_of_inject [of a 0] by (simp add: uint_of_def)

lemma uint_of_less_iff: "uint_of a < uint_of b \<longleftrightarrow> a < b"
  by (simp add: uint_of_def less_barray_def be_val_less_iff)

lemma uint_of_le_iff: "uint_of a \<le> uint_of b \<longleftrightarrow> a \<le> b"
  by (simp only: not_less [symmetric] uint_of_less_iff)

section \<open>Loads\<close>

text \<open>The argument is the array from the pointer on; the loads read its first 8 or 4 bytes.\<close>

definition load64be :: "u8 list \<Rightarrow> u64" where
  "load64be data =
     push_bit 56 (ucast (data ! 0)) OR push_bit 48 (ucast (data ! 1)) OR
     push_bit 40 (ucast (data ! 2)) OR push_bit 32 (ucast (data ! 3)) OR
     push_bit 24 (ucast (data ! 4)) OR push_bit 16 (ucast (data ! 5)) OR
     push_bit 8 (ucast (data ! 6)) OR ucast (data ! 7)"

definition load64le :: "u8 list \<Rightarrow> u64" where
  "load64le data =
     ucast (data ! 0) OR push_bit 8 (ucast (data ! 1)) OR
     push_bit 16 (ucast (data ! 2)) OR push_bit 24 (ucast (data ! 3)) OR
     push_bit 32 (ucast (data ! 4)) OR push_bit 40 (ucast (data ! 5)) OR
     push_bit 48 (ucast (data ! 6)) OR push_bit 56 (ucast (data ! 7))"

definition load32be :: "u8 list \<Rightarrow> u32" where
  "load32be data =
     push_bit 24 (ucast (data ! 0)) OR push_bit 16 (ucast (data ! 1)) OR
     push_bit 8 (ucast (data ! 2)) OR ucast (data ! 3)"

definition load32le :: "u8 list \<Rightarrow> u32" where
  "load32le data =
     ucast (data ! 0) OR push_bit 8 (ucast (data ! 1)) OR
     push_bit 16 (ucast (data ! 2)) OR push_bit 24 (ucast (data ! 3))"

text \<open>The loads are big-endian values: shifting in one byte is a step of Horner's scheme.\<close>

lemma unat_shift_in:
  fixes acc :: "'a::len word" and b :: u8
  assumes small: "unat acc * 256 + 255 < 2 ^ LENGTH('a)" and wide: "8 \<le> LENGTH('a)"
  shows "unat (push_bit 8 acc OR ucast b) = unat acc * 256 + unat b"
proof -
  have b: "unat b < 256" by (rule unat_u8_less)
  have "push_bit 8 acc AND ucast b = 0"
    by (rule bit_eqI) (auto simp: bit_and_iff bit_push_bit_iff bit_ucast_iff dest: bit_imp_le_length)
  then have "push_bit 8 acc OR ucast b = push_bit 8 acc + ucast b"
    using word_plus_and_or [of "push_bit 8 acc" "ucast b"] by simp
  also have "\<dots> = of_nat (unat acc * 256 + unat b)"
    by (simp add: push_bit_eq_mult unsigned_ucast_eq)
  finally have "unat (push_bit 8 acc OR ucast b) = (unat acc * 256 + unat b) mod 2 ^ LENGTH('a)"
    by (simp only: unat_of_nat)
  then show ?thesis using small b by simp
qed

fun shift_in :: "'a::len word \<Rightarrow> u8 list \<Rightarrow> 'a word" where
  "shift_in acc [] = acc"
| "shift_in acc (b # bs) = shift_in (push_bit 8 acc OR ucast b) bs"

lemma unat_shift_in_list:
  fixes acc :: "'a::len word"
  assumes "(unat acc + 1) * 256 ^ length bs \<le> 2 ^ LENGTH('a)" and "8 \<le> LENGTH('a)"
  shows "unat (shift_in acc bs) = unat acc * 256 ^ length bs + be_val bs"
  using assms
proof (induction bs arbitrary: acc)
  case Nil
  then show ?case by simp
next
  case (Cons b bs)
  have le: "(unat acc + 1) * 256 * 256 ^ length bs \<le> 2 ^ LENGTH('a)"
    using Cons.prems(1) by (simp add: algebra_simps)
  have "(unat acc + 1) * 256 * 1 \<le> (unat acc + 1) * 256 * 256 ^ length bs"
    by (rule mult_le_mono2) simp
  from this le have "(unat acc + 1) * 256 * 1 \<le> 2 ^ LENGTH('a)" by (rule order_trans)
  then have "unat acc * 256 + 255 < 2 ^ LENGTH('a)" by simp
  then have step: "unat (push_bit 8 acc OR ucast b) = unat acc * 256 + unat b"
    using Cons.prems(2) by (rule unat_shift_in)
  have "(unat acc * 256 + unat b + 1) * 256 ^ length bs \<le> (unat acc + 1) * 256 * 256 ^ length bs"
    using unat_u8_less [of b] by (intro mult_right_mono) auto
  with le have "(unat (push_bit 8 acc OR ucast b) + 1) * 256 ^ length bs \<le> 2 ^ LENGTH('a)"
    unfolding step by simp
  from Cons.IH [OF this Cons.prems(2)] show ?case
    by (simp add: step algebra_simps)
qed

lemma load64be_shift_in: "load64be [a, b, c, d, e, f, g, h] = shift_in 0 [a, b, c, d, e, f, g, h]"
  by (simp add: load64be_def push_bit_or or.assoc)

lemma load32be_shift_in: "load32be [a, b, c, d] = shift_in 0 [a, b, c, d]"
  by (simp add: load32be_def push_bit_or or.assoc)

lemma unat_load64be: "8 \<le> length data \<Longrightarrow> unat (load64be data) = be_val (take 8 data)"
proof -
  assume len: "8 \<le> length data"
  then have l: "length (take 8 data) = 8" by simp
  then obtain a b c d e f g h where t: "take 8 data = [a, b, c, d, e, f, g, h]"
    using length_8_conv [THEN iffD1, OF l] by blast
  have "load64be data = load64be (take 8 data)"
    using len by (simp add: load64be_def)
  also have "\<dots> = shift_in 0 (take 8 data)"
    unfolding t by (rule load64be_shift_in)
  finally show ?thesis
    using unat_shift_in_list [of "0 :: u64" "take 8 data"] l by simp
qed

lemma unat_load32be: "4 \<le> length data \<Longrightarrow> unat (load32be data) = be_val (take 4 data)"
proof -
  assume len: "4 \<le> length data"
  then have l: "length (take 4 data) = 4" by simp
  then obtain a b c d where t: "take 4 data = [a, b, c, d]"
    using length_4_conv [THEN iffD1, OF l] by blast
  have "load32be data = load32be (take 4 data)"
    using len by (simp add: load32be_def)
  also have "\<dots> = shift_in 0 (take 4 data)"
    unfolding t by (rule load32be_shift_in)
  finally show ?thesis
    using unat_shift_in_list [of "0 :: u32" "take 4 data"] l by simp
qed

text \<open>A little-endian load is the big-endian load of the reversed bytes.\<close>

lemma load64le_rev: "8 \<le> length data \<Longrightarrow> load64le data = load64be (rev (take 8 data))"
proof -
  assume len: "8 \<le> length data"
  then have l: "length (take 8 data) = 8" by simp
  then obtain a b c d e f g h where t: "take 8 data = [a, b, c, d, e, f, g, h]"
    using length_8_conv [THEN iffD1, OF l] by blast
  have "load64le data = load64le (take 8 data)"
    using len by (simp add: load64le_def)
  then show ?thesis by (simp add: t load64le_def load64be_def or.commute or.left_commute)
qed

lemma load32le_rev: "4 \<le> length data \<Longrightarrow> load32le data = load32be (rev (take 4 data))"
proof -
  assume len: "4 \<le> length data"
  then have l: "length (take 4 data) = 4" by simp
  then obtain a b c d where t: "take 4 data = [a, b, c, d]"
    using length_4_conv [THEN iffD1, OF l] by blast
  have "load32le data = load32le (take 4 data)"
    using len by (simp add: load32le_def)
  then show ?thesis by (simp add: t load32le_def load32be_def or.commute or.left_commute)
qed

lemma load64le_eq_iff:
  "8 \<le> length xs \<Longrightarrow> 8 \<le> length ys \<Longrightarrow> load64le xs = load64le ys \<longleftrightarrow> take 8 xs = take 8 ys"
  by (auto simp: load64le_rev unat_load64be be_val_inject word_unat_eq_iff)

lemma load32le_eq_iff:
  "4 \<le> length xs \<Longrightarrow> 4 \<le> length ys \<Longrightarrow> load32le xs = load32le ys \<longleftrightarrow> take 4 xs = take 4 ys"
  by (auto simp: load32le_rev unat_load32be be_val_inject word_unat_eq_iff)

lemma load64be_eq_iff:
  "8 \<le> length xs \<Longrightarrow> 8 \<le> length ys \<Longrightarrow> load64be xs = load64be ys \<longleftrightarrow> take 8 xs = take 8 ys"
  by (auto simp: unat_load64be be_val_inject word_unat_eq_iff)

lemma load64be_less_iff:
  "8 \<le> length xs \<Longrightarrow> 8 \<le> length ys \<Longrightarrow> load64be xs < load64be ys \<longleftrightarrow> take 8 xs < take 8 ys"
  by (simp add: unat_load64be be_val_less_iff word_less_nat_alt)

lemma load32be_less_iff:
  "4 \<le> length xs \<Longrightarrow> 4 \<le> length ys \<Longrightarrow> load32be xs < load32be ys \<longleftrightarrow> take 4 xs < take 4 ys"
  by (simp add: unat_load32be be_val_less_iff word_less_nat_alt)

lemmas load_iffs = load64le_eq_iff load32le_eq_iff load64be_eq_iff load64be_less_iff load32be_less_iff

end
