(* ===== verification/Operators.thy ===== *)
theory Operators
  imports Bytes
begin

text \<open>
  The constructors, comparison operators, zero tests and hashes that \<^verbatim>\<open>include/qrvmc/qrvmc.hpp\<close> gives
  \<^verbatim>\<open>qrvmc::address\<close> and \<^verbatim>\<open>qrvmc::bytes32\<close>, one definition per function, and the proofs that they
  are equality, the byte-by-byte order, the zero test and a hash that separates arrays which differ
  in one 64-bit part.
\<close>

section \<open>Construction from an unsigned integer\<close>

text \<open>The last eight bytes of both constructors, in the order the code lists them.\<close>

definition u64_bytes :: "u64 \<Rightarrow> u8 list" where
  "u64_bytes v =
     [ucast (drop_bit 56 v), ucast (drop_bit 48 v), ucast (drop_bit 40 v), ucast (drop_bit 32 v),
      ucast (drop_bit 24 v), ucast (drop_bit 16 v), ucast (drop_bit 8 v), ucast (drop_bit 0 v)]"

definition address_of_u64 :: "u64 \<Rightarrow> address" where
  "address_of_u64 v = barray_init (replicate 12 0 @ u64_bytes v)"

definition bytes32_of_u64 :: "u64 \<Rightarrow> bytes32" where
  "bytes32_of_u64 v = barray_init (replicate 24 0 @ u64_bytes v)"

lemma length_u64_bytes [simp]: "length (u64_bytes v) = 8"
  by (simp add: u64_bytes_def)

lemma bytes_address_of_u64: "bytes (address_of_u64 v) = replicate 12 0 @ u64_bytes v"
  by (simp add: address_of_u64_def bytes_init_full)

lemma bytes_bytes32_of_u64: "bytes (bytes32_of_u64 v) = replicate 24 0 @ u64_bytes v"
  by (simp add: bytes32_of_u64_def bytes_init_full)

lemma ucast_drop_bit: "ucast (drop_bit k v) = (of_nat (unat v div 2 ^ k) :: u8)"
  by (simp only: word_unat_eq_iff unat_ucast_mod unat_drop_bit unat_of_nat)

lemma u64_bytes_digits: "u64_bytes v = be_digits 8 (unat v)"
  by (simp only: u64_bytes_def ucast_drop_bit) simp

lemma be_val_u64_bytes: "be_val (u64_bytes v) = unat v"
  using unsigned_less [of v, where ?'a = nat] be_val_be_digits [of 8 "unat v"]
  by (simp add: u64_bytes_digits del: be_digits_numeral)

lemma load64be_u64_bytes: "load64be (u64_bytes v) = v"
  by (simp add: word_unat_eq_iff unat_load64be be_val_u64_bytes)

section \<open>Comparison\<close>

definition address_eq :: "address \<Rightarrow> address \<Rightarrow> bool" where
  "address_eq a b \<longleftrightarrow>
     load64le (drop 0 (bytes a)) = load64le (drop 0 (bytes b)) \<and>
     load64le (drop 8 (bytes a)) = load64le (drop 8 (bytes b)) \<and>
     load32le (drop 16 (bytes a)) = load32le (drop 16 (bytes b))"

definition address_ne :: "address \<Rightarrow> address \<Rightarrow> bool" where
  "address_ne a b \<longleftrightarrow> \<not> address_eq a b"

definition address_lt :: "address \<Rightarrow> address \<Rightarrow> bool" where
  "address_lt a b \<longleftrightarrow>
     load64be (drop 0 (bytes a)) < load64be (drop 0 (bytes b)) \<or>
     (load64be (drop 0 (bytes a)) = load64be (drop 0 (bytes b)) \<and>
      (load64be (drop 8 (bytes a)) < load64be (drop 8 (bytes b)) \<or>
       (load64be (drop 8 (bytes a)) = load64be (drop 8 (bytes b)) \<and>
        load32be (drop 16 (bytes a)) < load32be (drop 16 (bytes b)))))"

definition address_gt :: "address \<Rightarrow> address \<Rightarrow> bool" where
  "address_gt a b \<longleftrightarrow> address_lt b a"

definition address_le :: "address \<Rightarrow> address \<Rightarrow> bool" where
  "address_le a b \<longleftrightarrow> \<not> address_lt b a"

definition address_ge :: "address \<Rightarrow> address \<Rightarrow> bool" where
  "address_ge a b \<longleftrightarrow> \<not> address_lt a b"

definition bytes32_eq :: "bytes32 \<Rightarrow> bytes32 \<Rightarrow> bool" where
  "bytes32_eq a b \<longleftrightarrow>
     load64le (drop 0 (bytes a)) = load64le (drop 0 (bytes b)) \<and>
     load64le (drop 8 (bytes a)) = load64le (drop 8 (bytes b)) \<and>
     load64le (drop 16 (bytes a)) = load64le (drop 16 (bytes b)) \<and>
     load64le (drop 24 (bytes a)) = load64le (drop 24 (bytes b))"

definition bytes32_ne :: "bytes32 \<Rightarrow> bytes32 \<Rightarrow> bool" where
  "bytes32_ne a b \<longleftrightarrow> \<not> bytes32_eq a b"

definition bytes32_lt :: "bytes32 \<Rightarrow> bytes32 \<Rightarrow> bool" where
  "bytes32_lt a b \<longleftrightarrow>
     load64be (drop 0 (bytes a)) < load64be (drop 0 (bytes b)) \<or>
     (load64be (drop 0 (bytes a)) = load64be (drop 0 (bytes b)) \<and>
      (load64be (drop 8 (bytes a)) < load64be (drop 8 (bytes b)) \<or>
       (load64be (drop 8 (bytes a)) = load64be (drop 8 (bytes b)) \<and>
        (load64be (drop 16 (bytes a)) < load64be (drop 16 (bytes b)) \<or>
         (load64be (drop 16 (bytes a)) = load64be (drop 16 (bytes b)) \<and>
          load64be (drop 24 (bytes a)) < load64be (drop 24 (bytes b)))))))"

definition bytes32_gt :: "bytes32 \<Rightarrow> bytes32 \<Rightarrow> bool" where
  "bytes32_gt a b \<longleftrightarrow> bytes32_lt b a"

definition bytes32_le :: "bytes32 \<Rightarrow> bytes32 \<Rightarrow> bool" where
  "bytes32_le a b \<longleftrightarrow> \<not> bytes32_lt b a"

definition bytes32_ge :: "bytes32 \<Rightarrow> bytes32 \<Rightarrow> bool" where
  "bytes32_ge a b \<longleftrightarrow> \<not> bytes32_lt a b"

definition address_is_zero :: "address \<Rightarrow> bool" where
  "address_is_zero a \<longleftrightarrow> address_eq a 0"

definition address_to_bool :: "address \<Rightarrow> bool" where
  "address_to_bool a \<longleftrightarrow> \<not> address_is_zero a"

definition bytes32_is_zero :: "bytes32 \<Rightarrow> bool" where
  "bytes32_is_zero a \<longleftrightarrow> bytes32_eq a 0"

definition bytes32_to_bool :: "bytes32 \<Rightarrow> bool" where
  "bytes32_to_bool a \<longleftrightarrow> \<not> bytes32_is_zero a"

text \<open>The arrays split into the parts the operators load.\<close>

lemma address_parts:
  "bytes (a :: address) = bytes (b :: address) \<longleftrightarrow>
     take 8 (bytes a) = take 8 (bytes b) \<and>
     take 8 (drop 8 (bytes a)) = take 8 (drop 8 (bytes b)) \<and>
     take 4 (drop 16 (bytes a)) = take 4 (drop 16 (bytes b))"
  by (simp add: list_eq_take_drop [of "bytes a" _ 8] list_eq_take_drop [of "drop 8 (bytes a)" _ 8])

lemma bytes32_parts:
  "bytes (a :: bytes32) = bytes (b :: bytes32) \<longleftrightarrow>
     take 8 (bytes a) = take 8 (bytes b) \<and>
     take 8 (drop 8 (bytes a)) = take 8 (drop 8 (bytes b)) \<and>
     take 8 (drop 16 (bytes a)) = take 8 (drop 16 (bytes b)) \<and>
     take 8 (drop 24 (bytes a)) = take 8 (drop 24 (bytes b))"
  by (simp add: list_eq_take_drop [of "bytes a" _ 8] list_eq_take_drop [of "drop 8 (bytes a)" _ 8]
      list_eq_take_drop [of "drop 16 (bytes a)" _ 8])

lemma address_eq_iff [simp]: "address_eq a b \<longleftrightarrow> a = b"
  by (simp add: address_eq_def load_iffs barray_eq_iff address_parts)

lemma bytes32_eq_iff [simp]: "bytes32_eq a b \<longleftrightarrow> a = b"
  by (simp add: bytes32_eq_def load_iffs barray_eq_iff bytes32_parts)

lemma address_lt_iff [simp]: "address_lt a b \<longleftrightarrow> a < b"
  by (simp add: address_lt_def load_iffs less_barray_def
      list_less_take_drop [of "bytes a" "bytes b" 8]
      list_less_take_drop [of "drop 8 (bytes a)" "drop 8 (bytes b)" 8])

lemma bytes32_lt_iff [simp]: "bytes32_lt a b \<longleftrightarrow> a < b"
  by (simp add: bytes32_lt_def load_iffs less_barray_def
      list_less_take_drop [of "bytes a" "bytes b" 8]
      list_less_take_drop [of "drop 8 (bytes a)" "drop 8 (bytes b)" 8]
      list_less_take_drop [of "drop 16 (bytes a)" "drop 16 (bytes b)" 8])

lemma zero_test_iff [simp]:
  "address_is_zero a \<longleftrightarrow> a = 0" "bytes32_is_zero b \<longleftrightarrow> b = 0"
  by (simp_all add: address_is_zero_def bytes32_is_zero_def)

section \<open>Hashing\<close>

definition fnv_prime :: u64 where
  "fnv_prime = 0x100000001b3"

definition fnv_offset_basis :: u64 where
  "fnv_offset_basis = 0xcbf29ce484222325"

definition fnv1a_by64 :: "u64 \<Rightarrow> u64 \<Rightarrow> u64" where
  "fnv1a_by64 h x = (h XOR x) * fnv_prime"

definition hash_address :: "address \<Rightarrow> u64" where
  "hash_address s =
     fnv1a_by64
       (fnv1a_by64 (fnv1a_by64 fnv_offset_basis (load64le (drop 0 (bytes s))))
         (load64le (drop 8 (bytes s))))
       (ucast (load32le (drop 16 (bytes s))))"

definition hash_bytes32 :: "bytes32 \<Rightarrow> u64" where
  "hash_bytes32 s =
     fnv1a_by64
       (fnv1a_by64
         (fnv1a_by64 (fnv1a_by64 fnv_offset_basis (load64le (drop 0 (bytes s))))
           (load64le (drop 8 (bytes s))))
         (load64le (drop 16 (bytes s))))
       (load64le (drop 24 (bytes s)))"

text \<open>The FNV prime is odd, so multiplying by it is a bijection on 64-bit words.\<close>

lemma fnv_prime_inverse: "x * fnv_prime * 14886173955864302971 = x"
proof -
  have "fnv_prime * 14886173955864302971 = 1"
    by (simp add: fnv_prime_def)
  then show ?thesis by (simp only: mult.assoc mult_1_right)
qed

lemma xor_inject:
  fixes h k x y :: u64
  shows "h XOR x = h XOR y \<longleftrightarrow> x = y" and "h XOR x = k XOR x \<longleftrightarrow> h = k"
proof -
  have "h XOR (h XOR z) = z" for z
    by (simp add: xor.assoc [symmetric])
  then show "h XOR x = h XOR y \<longleftrightarrow> x = y" by metis
  have "(z XOR x) XOR x = z" for z
    by (simp add: xor.assoc)
  then show "h XOR x = k XOR x \<longleftrightarrow> h = k" by metis
qed

lemma fnv1a_by64_inject:
  "fnv1a_by64 h x = fnv1a_by64 h y \<longleftrightarrow> x = y"
  "fnv1a_by64 h x = fnv1a_by64 k x \<longleftrightarrow> h = k"
proof -
  have m: "a * fnv_prime = b * fnv_prime \<longleftrightarrow> a = b" for a b
    using fnv_prime_inverse [of a] fnv_prime_inverse [of b] by metis
  show "fnv1a_by64 h x = fnv1a_by64 h y \<longleftrightarrow> x = y"
    by (simp only: fnv1a_by64_def m xor_inject)
  show "fnv1a_by64 h x = fnv1a_by64 k x \<longleftrightarrow> h = k"
    by (simp only: fnv1a_by64_def m xor_inject)
qed

section \<open>Properties\<close>

text \<open>
  C14: the six comparison operators of \<^verbatim>\<open>qrvmc::address\<close>, which compare 64-bit and 32-bit loads, are
  equality and the order of the 160-bit big-endian integers the arrays hold; the zero test and the
  conversion to \<^verbatim>\<open>bool\<close> test for the integer 0.
\<close>

theorem address_operators:
  "(address_eq a b \<longleftrightarrow> a = b) \<and> (address_ne a b \<longleftrightarrow> a \<noteq> b) \<and>
   (address_lt a b \<longleftrightarrow> uint_of a < uint_of b) \<and> (address_gt a b \<longleftrightarrow> uint_of b < uint_of a) \<and>
   (address_le a b \<longleftrightarrow> uint_of a \<le> uint_of b) \<and> (address_ge a b \<longleftrightarrow> uint_of b \<le> uint_of a) \<and>
   (address_is_zero a \<longleftrightarrow> uint_of a = 0) \<and> (address_to_bool a \<longleftrightarrow> 0 < uint_of a)"
  by (auto simp: address_ne_def address_gt_def address_le_def address_ge_def address_to_bool_def
      uint_of_less_iff uint_of_le_iff uint_of_eq_0_iff simp flip: neq0_conv)

text \<open>
  C15: the same for \<^verbatim>\<open>qrvmc::bytes32\<close> and the 256-bit integers its arrays hold.
\<close>

theorem bytes32_operators:
  "(bytes32_eq a b \<longleftrightarrow> a = b) \<and> (bytes32_ne a b \<longleftrightarrow> a \<noteq> b) \<and>
   (bytes32_lt a b \<longleftrightarrow> uint_of a < uint_of b) \<and> (bytes32_gt a b \<longleftrightarrow> uint_of b < uint_of a) \<and>
   (bytes32_le a b \<longleftrightarrow> uint_of a \<le> uint_of b) \<and> (bytes32_ge a b \<longleftrightarrow> uint_of b \<le> uint_of a) \<and>
   (bytes32_is_zero a \<longleftrightarrow> uint_of a = 0) \<and> (bytes32_to_bool a \<longleftrightarrow> 0 < uint_of a)"
  by (auto simp: bytes32_ne_def bytes32_gt_def bytes32_le_def bytes32_ge_def bytes32_to_bool_def
      uint_of_less_iff uint_of_le_iff uint_of_eq_0_iff simp flip: neq0_conv)

text \<open>
  The constructors from an unsigned integer store its value: read as a big-endian integer the
  array is the argument, and the big-endian load of the last eight bytes gives it back.
\<close>

theorem construct_from_u64:
  "uint_of (address_of_u64 v) = unat v \<and> load64be (drop 12 (bytes (address_of_u64 v))) = v \<and>
   uint_of (bytes32_of_u64 v) = unat v \<and> load64be (drop 24 (bytes (bytes32_of_u64 v))) = v"
  by (simp add: uint_of_def bytes_address_of_u64 bytes_bytes32_of_u64 be_val_append be_val_u64_bytes
      load64be_u64_bytes)

text \<open>The \<open>i\<close>-th part of an array that the hash loads.\<close>

definition part :: "('n::len) barray \<Rightarrow> nat \<Rightarrow> u8 list" where
  "part a i = take 8 (drop (8 * i) (bytes a))"

lemma part_loads:
  fixes a b :: bytes32 and c d :: address
  shows "load64le (drop 0 (bytes a)) = load64le (drop 0 (bytes b)) \<longleftrightarrow> part a 0 = part b 0"
    and "load64le (drop 8 (bytes a)) = load64le (drop 8 (bytes b)) \<longleftrightarrow> part a 1 = part b 1"
    and "load64le (drop 16 (bytes a)) = load64le (drop 16 (bytes b)) \<longleftrightarrow> part a 2 = part b 2"
    and "load64le (drop 24 (bytes a)) = load64le (drop 24 (bytes b)) \<longleftrightarrow> part a 3 = part b 3"
    and "load64le (drop 0 (bytes c)) = load64le (drop 0 (bytes d)) \<longleftrightarrow> part c 0 = part d 0"
    and "load64le (drop 8 (bytes c)) = load64le (drop 8 (bytes d)) \<longleftrightarrow> part c 1 = part d 1"
    and "ucast (load32le (drop 16 (bytes c))) = (ucast (load32le (drop 16 (bytes d))) :: u64)
         \<longleftrightarrow> part c 2 = part d 2"
  by (simp_all add: part_def load_iffs ucast_u32_u64_inject)

lemma bytes32_eq_parts:
  "a = b \<longleftrightarrow> part a 0 = part b 0 \<and> part a 1 = part b 1 \<and> part a 2 = part b 2 \<and> part a 3 = part b 3"
  for a b :: bytes32
  by (simp add: barray_eq_iff bytes32_parts part_def)

lemma address_eq_parts:
  "a = b \<longleftrightarrow> part a 0 = part b 0 \<and> part a 1 = part b 1 \<and> part a 2 = part b 2"
  for a b :: address
  by (simp add: barray_eq_iff address_parts part_def)

lemma fnv_chain:
  assumes "length (filter Not [p = p', q = q', r = r', t = t']) \<le> 1"
  shows "fnv1a_by64 (fnv1a_by64 (fnv1a_by64 (fnv1a_by64 h p) q) r) t =
           fnv1a_by64 (fnv1a_by64 (fnv1a_by64 (fnv1a_by64 h p') q') r') t' \<longleftrightarrow>
         p = p' \<and> q = q' \<and> r = r' \<and> t = t'"
  using assms by (auto simp: fnv1a_by64_inject split: if_splits)

text \<open>
  C16: the FNV-based hashes separate keys that differ in one of the parts they load: when two keys
  agree in all parts but at most one, their hashes are equal only if the keys are.
\<close>

theorem hash_separates_one_part:
  fixes a b :: bytes32 and c d :: address
  assumes "length (filter (\<lambda>i. part a i \<noteq> part b i) [0, 1, 2, 3]) \<le> 1"
    and "length (filter (\<lambda>i. part c i \<noteq> part d i) [0, 1, 2]) \<le> 1"
  shows "(hash_bytes32 a = hash_bytes32 b \<longleftrightarrow> a = b) \<and> (hash_address c = hash_address d \<longleftrightarrow> c = d)"
proof
  show "hash_bytes32 a = hash_bytes32 b \<longleftrightarrow> a = b"
    unfolding hash_bytes32_def bytes32_eq_parts part_loads [symmetric]
    by (rule fnv_chain) (use assms(1) in \<open>auto simp: part_loads simp del: drop0 split: if_splits\<close>)
  have "hash_address c = hash_address d \<longleftrightarrow>
      fnv1a_by64 (hash_address c) 0 = fnv1a_by64 (hash_address d) 0"
    by (simp only: fnv1a_by64_inject)
  also have "\<dots> \<longleftrightarrow> part c 0 = part d 0 \<and> part c 1 = part d 1 \<and> part c 2 = part d 2 \<and> (0 :: u64) = 0"
    unfolding hash_address_def part_loads [symmetric]
    by (rule fnv_chain) (use assms(2) in \<open>auto simp: part_loads simp del: drop0 split: if_splits\<close>)
  finally show "hash_address c = hash_address d \<longleftrightarrow> c = d"
    by (simp only: address_eq_parts simp_thms)
qed

theorem hash_separates_one_part_witness:
  "(hash_bytes32 (bytes32_of_u64 1) = hash_bytes32 (bytes32_of_u64 2) \<longleftrightarrow>
      bytes32_of_u64 1 = bytes32_of_u64 2) \<and>
   (hash_address (address_of_u64 1) = hash_address (address_of_u64 2) \<longleftrightarrow>
      address_of_u64 1 = address_of_u64 2)"
  by (rule hash_separates_one_part)
    (simp_all add: part_def bytes_bytes32_of_u64 bytes_address_of_u64 u64_bytes_def)

end
