(* ===== verification/Qrvmc.thy ===== *)
theory Qrvmc
  imports Operators
begin

text \<open>
  The data of \<^verbatim>\<open>qrvmc.h\<close>: the enums as datatypes with the header's enumerators, the structs as
  records, and the memory their pointers refer to. A C enum object may hold a number that is no
  enumerator where the code looks at it with a \<^verbatim>\<open>switch\<close> that has a default; those enums get a
  constructor for the other numbers. \<open>size_t\<close> is \<^typ>\<open>nat\<close>; the theories that need its width say so.
  Fields carry a prefix (\<open>msg_\<close>, \<open>res_\<close>, ...), since a record field is a global constant.
\<close>

section \<open>Memory\<close>

text \<open>
  A pointer is null or an offset into a block. A block remembers who has to give it back:
  \<^verbatim>\<open>malloc\<close> blocks go to \<^verbatim>\<open>free\<close>, \<^verbatim>\<open>new[]\<close> blocks to \<^verbatim>\<open>delete[]\<close>, and the storage of an object (a
  \<^verbatim>\<open>std::string\<close>, an array of the caller) to neither. \<open>granted k n\<close> is the allocator's answer to the
  \<open>k\<close>-th request, for \<open>n\<close> bytes, and \<open>junk\<close> the content of memory nobody has written yet; both are
  arbitrary.
\<close>

datatype ptr = Null | Ptr nat nat

datatype alloc_kind = Malloc | New_array | Object

record heap =
  blocks :: "nat \<Rightarrow> (alloc_kind \<times> u8 list) option"
  fresh :: nat
  granted :: "nat \<Rightarrow> nat \<Rightarrow> bool"
  junk :: u8

definition heap_wf :: "heap \<Rightarrow> bool" where
  "heap_wf h \<longleftrightarrow> (\<forall>b. blocks h b \<noteq> None \<longrightarrow> b < fresh h)"

definition allocate :: "alloc_kind \<Rightarrow> u8 list \<Rightarrow> heap \<Rightarrow> ptr \<times> heap" where
  "allocate k bs h =
     (Ptr (fresh h) 0, h\<lparr>blocks := (blocks h)(fresh h \<mapsto> (k, bs)), fresh := Suc (fresh h)\<rparr>)"

text \<open>\<^verbatim>\<open>malloc\<close> may fail; then it returns a null pointer.\<close>

definition malloc :: "nat \<Rightarrow> heap \<Rightarrow> ptr \<times> heap" where
  "malloc n h =
     (if granted h (fresh h) n then allocate Malloc (replicate n (junk h)) h
      else (Null, h\<lparr>fresh := Suc (fresh h)\<rparr>))"

text \<open>\<^verbatim>\<open>free\<close> and \<^verbatim>\<open>delete[]\<close>: a null pointer is ignored, anything but the start of a live block of the
  right kind is undefined.\<close>

definition deallocate :: "alloc_kind \<Rightarrow> ptr \<Rightarrow> heap \<Rightarrow> heap option" where
  "deallocate k p h =
     (case p of
        Null \<Rightarrow> Some h
      | Ptr b off \<Rightarrow>
          (case blocks h b of
             None \<Rightarrow> None
           | Some (k', bs) \<Rightarrow>
               if k' = k \<and> off = 0 then Some (h\<lparr>blocks := (blocks h)(b := None)\<rparr>) else None))"

text \<open>\<^verbatim>\<open>n\<close> bytes from a pointer on, and a write of bytes there; no access at all for zero bytes.\<close>

definition mem_read :: "heap \<Rightarrow> ptr \<Rightarrow> nat \<Rightarrow> u8 list option" where
  "mem_read h p n =
     (if n = 0 then Some []
      else case p of
        Null \<Rightarrow> None
      | Ptr b off \<Rightarrow> Option.bind (blocks h b) (\<lambda>(k, bs). region off n bs))"

definition mem_write :: "heap \<Rightarrow> ptr \<Rightarrow> u8 list \<Rightarrow> heap option" where
  "mem_write h p src =
     (if src = [] then Some h
      else case p of
        Null \<Rightarrow> None
      | Ptr b off \<Rightarrow>
          Option.bind (blocks h b) (\<lambda>(k, bs). Option.bind (copy_into bs off src)
            (\<lambda>bs'. Some (h\<lparr>blocks := (blocks h)(b \<mapsto> (k, bs'))\<rparr>))))"

lemma heap_wf_fresh: "heap_wf h \<Longrightarrow> blocks h (fresh h) = None"
  unfolding heap_wf_def by (metis less_irrefl)

lemma heap_wf_allocate: "heap_wf h \<Longrightarrow> heap_wf (snd (allocate k bs h))"
  by (auto simp: heap_wf_def allocate_def less_Suc_eq)

lemma heap_wf_malloc: "heap_wf h \<Longrightarrow> heap_wf (snd (malloc n h))"
  using heap_wf_allocate [of h] by (auto simp: heap_wf_def malloc_def less_Suc_eq)

lemma heap_wf_deallocate: "heap_wf h \<Longrightarrow> deallocate k p h = Some h' \<Longrightarrow> heap_wf h'"
  by (auto simp: heap_wf_def deallocate_def split: ptr.splits option.splits if_splits)

lemma mem_read_length: "mem_read h p n = Some bs \<Longrightarrow> length bs = n"
  by (auto simp: mem_read_def split: if_splits ptr.splits bind_splits dest: region_length)

lemma mem_read_allocate:
  "mem_read (snd (allocate k bs h)) (fst (allocate k bs h)) (length bs) = Some bs"
  by (simp add: mem_read_def allocate_def region_def)

text \<open>Another block is not touched by an allocation, a deallocation or a write.\<close>

lemma mem_read_cong:
  "(\<And>b. blocks h b \<noteq> None \<Longrightarrow> blocks h' b = blocks h b) \<Longrightarrow> mem_read h p n = Some bs \<Longrightarrow>
    mem_read h' p n = Some bs"
  by (cases p) (auto simp: mem_read_def split: if_splits bind_splits)

lemma mem_read_allocate_other:
  assumes "heap_wf h" and "mem_read h p n = Some bs"
  shows "mem_read (snd (allocate k cs h)) p n = Some bs"
proof (rule mem_read_cong [OF _ assms(2)])
  fix b
  assume "blocks h b \<noteq> None"
  with heap_wf_fresh [OF assms(1)] have "b \<noteq> fresh h" by auto
  then show "blocks (snd (allocate k cs h)) b = blocks h b" by (simp add: allocate_def)
qed

lemma mem_read_malloc_other:
  assumes "heap_wf h" and "mem_read h p n = Some bs"
  shows "mem_read (snd (malloc m h)) p n = Some bs"
proof (cases "granted h (fresh h) m")
  case True
  then show ?thesis using mem_read_allocate_other [OF assms] by (simp add: malloc_def)
next
  case False
  then show ?thesis using assms(2) by (auto intro: mem_read_cong simp: malloc_def)
qed

section \<open>Enums\<close>

datatype qrvmc_call_kind = QRVMC_CALL | QRVMC_DELEGATECALL | QRVMC_CREATE | QRVMC_CREATE2

fun call_kind_value :: "qrvmc_call_kind \<Rightarrow> int" where
  "call_kind_value QRVMC_CALL = 0"
| "call_kind_value QRVMC_DELEGATECALL = 1"
| "call_kind_value QRVMC_CREATE = 3"
| "call_kind_value QRVMC_CREATE2 = 4"

definition QRVMC_STATIC :: u32 where
  "QRVMC_STATIC = 1"

definition QRVMC_ABI_VERSION :: int where
  "QRVMC_ABI_VERSION = 1"

datatype qrvmc_status_code =
    QRVMC_SUCCESS | QRVMC_FAILURE | QRVMC_REVERT | QRVMC_OUT_OF_GAS | QRVMC_INVALID_INSTRUCTION
  | QRVMC_UNDEFINED_INSTRUCTION | QRVMC_STACK_OVERFLOW | QRVMC_STACK_UNDERFLOW
  | QRVMC_BAD_JUMP_DESTINATION | QRVMC_INVALID_MEMORY_ACCESS | QRVMC_CALL_DEPTH_EXCEEDED
  | QRVMC_STATIC_MODE_VIOLATION | QRVMC_PRECOMPILE_FAILURE | QRVMC_CONTRACT_VALIDATION_FAILURE
  | QRVMC_ARGUMENT_OUT_OF_RANGE | QRVMC_WASM_UNREACHABLE_INSTRUCTION | QRVMC_WASM_TRAP
  | QRVMC_INSUFFICIENT_BALANCE | QRVMC_INTERNAL_ERROR | QRVMC_REJECTED | QRVMC_OUT_OF_MEMORY
  | Other_status int

fun status_value :: "qrvmc_status_code \<Rightarrow> int" where
  "status_value QRVMC_SUCCESS = 0"
| "status_value QRVMC_FAILURE = 1"
| "status_value QRVMC_REVERT = 2"
| "status_value QRVMC_OUT_OF_GAS = 3"
| "status_value QRVMC_INVALID_INSTRUCTION = 4"
| "status_value QRVMC_UNDEFINED_INSTRUCTION = 5"
| "status_value QRVMC_STACK_OVERFLOW = 6"
| "status_value QRVMC_STACK_UNDERFLOW = 7"
| "status_value QRVMC_BAD_JUMP_DESTINATION = 8"
| "status_value QRVMC_INVALID_MEMORY_ACCESS = 9"
| "status_value QRVMC_CALL_DEPTH_EXCEEDED = 10"
| "status_value QRVMC_STATIC_MODE_VIOLATION = 11"
| "status_value QRVMC_PRECOMPILE_FAILURE = 12"
| "status_value QRVMC_CONTRACT_VALIDATION_FAILURE = 13"
| "status_value QRVMC_ARGUMENT_OUT_OF_RANGE = 14"
| "status_value QRVMC_WASM_UNREACHABLE_INSTRUCTION = 15"
| "status_value QRVMC_WASM_TRAP = 16"
| "status_value QRVMC_INSUFFICIENT_BALANCE = 17"
| "status_value QRVMC_INTERNAL_ERROR = -1"
| "status_value QRVMC_REJECTED = -2"
| "status_value QRVMC_OUT_OF_MEMORY = -3"
| "status_value (Other_status n) = n"

datatype qrvmc_storage_status =
    QRVMC_STORAGE_ASSIGNED | QRVMC_STORAGE_ADDED | QRVMC_STORAGE_DELETED | QRVMC_STORAGE_MODIFIED
  | QRVMC_STORAGE_DELETED_ADDED | QRVMC_STORAGE_MODIFIED_DELETED | QRVMC_STORAGE_DELETED_RESTORED
  | QRVMC_STORAGE_ADDED_DELETED | QRVMC_STORAGE_MODIFIED_RESTORED

fun storage_status_value :: "qrvmc_storage_status \<Rightarrow> nat" where
  "storage_status_value QRVMC_STORAGE_ASSIGNED = 0"
| "storage_status_value QRVMC_STORAGE_ADDED = 1"
| "storage_status_value QRVMC_STORAGE_DELETED = 2"
| "storage_status_value QRVMC_STORAGE_MODIFIED = 3"
| "storage_status_value QRVMC_STORAGE_DELETED_ADDED = 4"
| "storage_status_value QRVMC_STORAGE_MODIFIED_DELETED = 5"
| "storage_status_value QRVMC_STORAGE_DELETED_RESTORED = 6"
| "storage_status_value QRVMC_STORAGE_ADDED_DELETED = 7"
| "storage_status_value QRVMC_STORAGE_MODIFIED_RESTORED = 8"

datatype qrvmc_access_status = QRVMC_ACCESS_COLD | QRVMC_ACCESS_WARM

datatype qrvmc_set_option_result =
  QRVMC_SET_OPTION_SUCCESS | QRVMC_SET_OPTION_INVALID_NAME | QRVMC_SET_OPTION_INVALID_VALUE

datatype qrvmc_revision = QRVMC_SHANGHAI | Other_revision int

definition QRVMC_MAX_REVISION :: qrvmc_revision where
  "QRVMC_MAX_REVISION = QRVMC_SHANGHAI"

definition QRVMC_LATEST_STABLE_REVISION :: qrvmc_revision where
  "QRVMC_LATEST_STABLE_REVISION = QRVMC_SHANGHAI"

definition QRVMC_CAPABILITY_QRVM1 :: u32 where
  "QRVMC_CAPABILITY_QRVM1 = push_bit 0 1"

definition QRVMC_CAPABILITY_PRECOMPILES :: u32 where
  "QRVMC_CAPABILITY_PRECOMPILES = push_bit 2 1"

section \<open>Structs\<close>

record qrvmc_message =
  msg_kind :: qrvmc_call_kind
  msg_flags :: u32
  msg_depth :: i32
  msg_gas :: i64
  msg_recipient :: address
  msg_sender :: address
  msg_input_data :: ptr
  msg_input_size :: nat
  msg_value :: uint256be
  msg_create2_salt :: bytes32
  msg_code_address :: address

record qrvmc_tx_context =
  tx_gas_price :: uint256be
  tx_origin :: address
  block_coinbase :: address
  block_number :: i64
  block_timestamp :: i64
  block_gas_limit :: i64
  block_prev_randao :: uint256be
  chain_id :: uint256be
  block_base_fee :: uint256be

text \<open>
  \<^verbatim>\<open>release\<close> may be any function in C. Here it is one of the release functions that occur in the sources:
  \<open>Free_result_memory\<close> is \<^verbatim>\<open>qrvmc_free_result_memory\<close>, \<open>Delete_output\<close> the lambda of the precompiles VM;
  \<open>No_release\<close> is the null function pointer.
\<close>

datatype release_fn = No_release | Free_result_memory | Delete_output

record qrvmc_result =
  res_status_code :: qrvmc_status_code
  res_gas_left :: i64
  res_gas_refund :: i64
  res_output_data :: ptr
  res_output_size :: nat
  res_release :: release_fn
  res_create_address :: address
  res_padding :: "4 barray"

text \<open>The zero-initialised structs \<^verbatim>\<open>qrvmc_message{}\<close>, \<^verbatim>\<open>qrvmc_tx_context{}\<close> and \<^verbatim>\<open>qrvmc_result{}\<close>.\<close>

definition zero_message :: qrvmc_message where
  "zero_message = \<lparr>msg_kind = QRVMC_CALL, msg_flags = 0, msg_depth = 0, msg_gas = 0,
     msg_recipient = 0, msg_sender = 0, msg_input_data = Null, msg_input_size = 0, msg_value = 0,
     msg_create2_salt = 0, msg_code_address = 0\<rparr>"

definition zero_tx_context :: qrvmc_tx_context where
  "zero_tx_context = \<lparr>tx_gas_price = 0, tx_origin = 0, block_coinbase = 0, block_number = 0,
     block_timestamp = 0, block_gas_limit = 0, block_prev_randao = 0, chain_id = 0,
     block_base_fee = 0\<rparr>"

definition zero_result :: qrvmc_result where
  "zero_result = \<lparr>res_status_code = QRVMC_SUCCESS, res_gas_left = 0, res_gas_refund = 0,
     res_output_data = Null, res_output_size = 0, res_release = No_release,
     res_create_address = 0, res_padding = 0\<rparr>"

text \<open>The callbacks of a Host. The type \<open>'s\<close> stands for what the opaque context pointer refers to; a
  callback takes it and returns it changed. The callbacks that can be undefined or abort return an
  option. A pointer into an array, in \<^verbatim>\<open>copy_code\<close> and \<^verbatim>\<open>emit_log\<close>, is the list of the elements from it to the end
  of the array; the number of elements that comes with it is an argument of its own, and may be wrong. In
  messages and results, where ownership matters, the pointer is kept.\<close>

type_synonym 's qrvmc_get_tx_context_fn = "'s \<Rightarrow> qrvmc_tx_context \<times> 's"
type_synonym 's qrvmc_get_block_hash_fn = "'s \<Rightarrow> i64 \<Rightarrow> bytes32 \<times> 's"
type_synonym 's qrvmc_account_exists_fn = "'s \<Rightarrow> address \<Rightarrow> bool \<times> 's"
type_synonym 's qrvmc_get_storage_fn = "'s \<Rightarrow> address \<Rightarrow> bytes32 \<Rightarrow> bytes32 \<times> 's"
type_synonym 's qrvmc_set_storage_fn =
  "'s \<Rightarrow> address \<Rightarrow> bytes32 \<Rightarrow> bytes32 \<Rightarrow> (qrvmc_storage_status \<times> 's) option"
type_synonym 's qrvmc_get_balance_fn = "'s \<Rightarrow> address \<Rightarrow> uint256be \<times> 's"
type_synonym 's qrvmc_get_code_size_fn = "'s \<Rightarrow> address \<Rightarrow> nat \<times> 's"
type_synonym 's qrvmc_get_code_hash_fn = "'s \<Rightarrow> address \<Rightarrow> bytes32 \<times> 's"
type_synonym 's qrvmc_copy_code_fn = "'s \<Rightarrow> address \<Rightarrow> nat \<Rightarrow> u8 list \<Rightarrow> nat \<Rightarrow> (nat \<times> u8 list \<times> 's) option"
type_synonym 's qrvmc_emit_log_fn = "'s \<Rightarrow> address \<Rightarrow> u8 list \<Rightarrow> nat \<Rightarrow> bytes32 list \<Rightarrow> nat \<Rightarrow> 's option"
type_synonym 's qrvmc_access_account_fn = "'s \<Rightarrow> address \<Rightarrow> qrvmc_access_status \<times> 's"
type_synonym 's qrvmc_access_storage_fn = "'s \<Rightarrow> address \<Rightarrow> bytes32 \<Rightarrow> qrvmc_access_status \<times> 's"
type_synonym 's qrvmc_call_fn = "'s \<Rightarrow> heap \<Rightarrow> qrvmc_message \<Rightarrow> (qrvmc_result \<times> 's \<times> heap) option"

text \<open>The function table a Host hands to a VM.\<close>

record 's qrvmc_host_interface =
  account_exists :: "'s qrvmc_account_exists_fn"
  get_storage :: "'s qrvmc_get_storage_fn"
  set_storage :: "'s qrvmc_set_storage_fn"
  get_balance :: "'s qrvmc_get_balance_fn"
  get_code_size :: "'s qrvmc_get_code_size_fn"
  get_code_hash :: "'s qrvmc_get_code_hash_fn"
  copy_code :: "'s qrvmc_copy_code_fn"
  call :: "'s qrvmc_call_fn"
  get_tx_context :: "'s qrvmc_get_tx_context_fn"
  get_block_hash :: "'s qrvmc_get_block_hash_fn"
  emit_log :: "'s qrvmc_emit_log_fn"
  access_account :: "'s qrvmc_access_account_fn"
  access_storage :: "'s qrvmc_access_storage_fn"

text \<open>
  A VM instance. \<open>'v\<close> is the instance's own data behind the struct and \<open>'s\<close> the Host context.
  The destroy functions of the sources delete the instance (example VM) or do nothing (the
  precompiles VM is a static object). \<open>vm_set_option\<close> may be a null function pointer, and the value given to it a null string; the Host
  interface given to \<open>vm_execute\<close> may be null for a precompiles VM.
\<close>

datatype destroy_fn = Delete_instance | Destroy_nothing

type_synonym 'v qrvmc_set_option_fn =
  "'v \<Rightarrow> string \<Rightarrow> string option \<Rightarrow> qrvmc_set_option_result \<times> 'v"
type_synonym ('v, 's) qrvmc_execute_fn =
  "'v \<Rightarrow> 's qrvmc_host_interface option \<Rightarrow> 's \<Rightarrow> heap \<Rightarrow> qrvmc_revision \<Rightarrow> qrvmc_message \<Rightarrow> u8 list \<Rightarrow>
   (qrvmc_result \<times> 'v \<times> 's \<times> heap) option"
type_synonym qrvmc_capabilities_flagset = u32
type_synonym 'v qrvmc_get_capabilities_fn = "'v \<Rightarrow> qrvmc_capabilities_flagset"

record ('v, 's) qrvmc_vm =
  abi_version :: int
  vm_name :: string
  vm_version :: string
  vm_destroy :: destroy_fn
  vm_execute :: "('v, 's) qrvmc_execute_fn"
  vm_get_capabilities :: "'v qrvmc_get_capabilities_fn"
  vm_set_option :: "'v qrvmc_set_option_fn option"

end
