(* ===== verification/Helpers.thy ===== *)
theory Helpers
  imports Qrvmc
begin

text \<open>
  \<^verbatim>\<open>helpers.h\<close>: the wrappers that call through a VM instance, the results whose output lives in
  \<^verbatim>\<open>malloc\<close> memory, the optional storage inside a result, and the names of the enums. The memory
  lemmas say that a result made by \<^verbatim>\<open>qrvmc_make_result\<close> owns one fresh block, and that releasing it
  gives exactly that block back.
\<close>

section \<open>Calls through the VM instance\<close>

definition qrvmc_is_abi_compatible :: "('v, 's) qrvmc_vm \<Rightarrow> bool" where
  "qrvmc_is_abi_compatible vm \<longleftrightarrow> abi_version vm = QRVMC_ABI_VERSION"

definition qrvmc_vm_name :: "('v, 's) qrvmc_vm \<Rightarrow> string" where
  "qrvmc_vm_name vm = vm_name vm"

definition qrvmc_vm_version :: "('v, 's) qrvmc_vm \<Rightarrow> string" where
  "qrvmc_vm_version vm = vm_version vm"

definition qrvmc_vm_has_capability :: "('v, 's) qrvmc_vm \<Rightarrow> 'v \<Rightarrow> u32 \<Rightarrow> bool" where
  "qrvmc_vm_has_capability vm v capability \<longleftrightarrow> (vm_get_capabilities vm v AND capability) \<noteq> 0"

definition qrvmc_set_option ::
  "('v, 's) qrvmc_vm \<Rightarrow> 'v \<Rightarrow> string \<Rightarrow> string option \<Rightarrow> qrvmc_set_option_result \<times> 'v" where
  "qrvmc_set_option vm v name val =
     (case vm_set_option vm of
        Some f \<Rightarrow> f v name val
      | None \<Rightarrow> (QRVMC_SET_OPTION_INVALID_NAME, v))"

definition qrvmc_execute ::
  "('v, 's) qrvmc_vm \<Rightarrow> 'v \<Rightarrow> 's qrvmc_host_interface option \<Rightarrow> 's \<Rightarrow> heap \<Rightarrow> qrvmc_revision \<Rightarrow>
   qrvmc_message \<Rightarrow> u8 list \<Rightarrow> (qrvmc_result \<times> 'v \<times> 's \<times> heap) option" where
  "qrvmc_execute vm v host ctx h revision msg code = vm_execute vm v host ctx h revision msg code"

section \<open>Results\<close>

definition qrvmc_free_result_memory :: "qrvmc_result \<Rightarrow> heap \<Rightarrow> heap option" where
  "qrvmc_free_result_memory result h = deallocate Malloc (res_output_data result) h"

text \<open>A call through the release pointer of a result; \<^verbatim>\<open>delete[]\<close> is the precompiles VM's lambda.\<close>

definition call_release :: "qrvmc_result \<Rightarrow> heap \<Rightarrow> heap option" where
  "call_release result h =
     (case res_release result of
        No_release \<Rightarrow> None
      | Free_result_memory \<Rightarrow> qrvmc_free_result_memory result h
      | Delete_output \<Rightarrow> deallocate New_array (res_output_data result) h)"

definition qrvmc_make_result ::
  "qrvmc_status_code \<Rightarrow> i64 \<Rightarrow> i64 \<Rightarrow> ptr \<Rightarrow> nat \<Rightarrow> heap \<Rightarrow> (qrvmc_result \<times> heap) option" where
  "qrvmc_make_result status_code gas_left gas_refund output_data output_size h =
     (if output_size \<noteq> 0 then
        let (buffer, h1) = malloc output_size h in
        if buffer = Null then
          Some (zero_result\<lparr>res_status_code := QRVMC_OUT_OF_MEMORY\<rparr>, h1)
        else do {
          src \<leftarrow> mem_read h1 output_data output_size;
          h2 \<leftarrow> mem_write h1 buffer src;
          Some (zero_result\<lparr>res_output_data := buffer, res_output_size := output_size,
                  res_release := Free_result_memory, res_status_code := status_code,
                  res_gas_left := gas_left, res_gas_refund := gas_refund\<rparr>, h2)
        }
      else
        Some (zero_result\<lparr>res_status_code := status_code, res_gas_left := gas_left,
                res_gas_refund := gas_refund\<rparr>, h))"

definition qrvmc_release_result :: "qrvmc_result \<Rightarrow> heap \<Rightarrow> heap option" where
  "qrvmc_release_result result h =
     (if res_release result \<noteq> No_release then call_release result h else Some h)"

text \<open>The 24 bytes of optional storage overlay \<^verbatim>\<open>create_address\<close> and the padding behind it.\<close>

definition qrvmc_get_const_optional_storage :: "qrvmc_result \<Rightarrow> u8 list" where
  "qrvmc_get_const_optional_storage result =
     bytes (res_create_address result) @ bytes (res_padding result)"

definition qrvmc_get_optional_storage :: "u8 list \<Rightarrow> qrvmc_result \<Rightarrow> qrvmc_result" where
  "qrvmc_get_optional_storage stored result =
     result\<lparr>res_create_address := barray_init (take 20 stored),
            res_padding := barray_init (take 4 (drop 20 stored))\<rparr>"

lemma optional_storage_read_write:
  assumes "length stored = 24"
  shows "qrvmc_get_const_optional_storage (qrvmc_get_optional_storage stored r) = stored"
proof -
  have "bytes (barray_init (take 20 stored) :: 20 barray) = take 20 stored"
    and "bytes (barray_init (take 4 (drop 20 stored)) :: 4 barray) = take 4 (drop 20 stored)"
    using assms by (simp_all add: bytes_init_full)
  then show ?thesis
    using assms append_take_drop_id [of 20 stored]
    by (simp add: qrvmc_get_const_optional_storage_def qrvmc_get_optional_storage_def)
qed

section \<open>Names\<close>

fun qrvmc_status_code_to_string :: "qrvmc_status_code \<Rightarrow> string" where
  "qrvmc_status_code_to_string QRVMC_SUCCESS = ''success''"
| "qrvmc_status_code_to_string QRVMC_FAILURE = ''failure''"
| "qrvmc_status_code_to_string QRVMC_REVERT = ''revert''"
| "qrvmc_status_code_to_string QRVMC_OUT_OF_GAS = ''out of gas''"
| "qrvmc_status_code_to_string QRVMC_INVALID_INSTRUCTION = ''invalid instruction''"
| "qrvmc_status_code_to_string QRVMC_UNDEFINED_INSTRUCTION = ''undefined instruction''"
| "qrvmc_status_code_to_string QRVMC_STACK_OVERFLOW = ''stack overflow''"
| "qrvmc_status_code_to_string QRVMC_STACK_UNDERFLOW = ''stack underflow''"
| "qrvmc_status_code_to_string QRVMC_BAD_JUMP_DESTINATION = ''bad jump destination''"
| "qrvmc_status_code_to_string QRVMC_INVALID_MEMORY_ACCESS = ''invalid memory access''"
| "qrvmc_status_code_to_string QRVMC_CALL_DEPTH_EXCEEDED = ''call depth exceeded''"
| "qrvmc_status_code_to_string QRVMC_STATIC_MODE_VIOLATION = ''static mode violation''"
| "qrvmc_status_code_to_string QRVMC_PRECOMPILE_FAILURE = ''precompile failure''"
| "qrvmc_status_code_to_string QRVMC_CONTRACT_VALIDATION_FAILURE = ''contract validation failure''"
| "qrvmc_status_code_to_string QRVMC_ARGUMENT_OUT_OF_RANGE = ''argument out of range''"
| "qrvmc_status_code_to_string QRVMC_WASM_UNREACHABLE_INSTRUCTION = ''wasm unreachable instruction''"
| "qrvmc_status_code_to_string QRVMC_WASM_TRAP = ''wasm trap''"
| "qrvmc_status_code_to_string QRVMC_INSUFFICIENT_BALANCE = ''insufficient balance''"
| "qrvmc_status_code_to_string QRVMC_INTERNAL_ERROR = ''internal error''"
| "qrvmc_status_code_to_string QRVMC_REJECTED = ''rejected''"
| "qrvmc_status_code_to_string QRVMC_OUT_OF_MEMORY = ''out of memory''"
| "qrvmc_status_code_to_string (Other_status n) = ''<unknown>''"

fun qrvmc_revision_to_string :: "qrvmc_revision \<Rightarrow> string" where
  "qrvmc_revision_to_string QRVMC_SHANGHAI = ''Shanghai''"
| "qrvmc_revision_to_string (Other_revision n) = ''<unknown>''"

text \<open>The enum object that holds a given number.\<close>

definition named_statuses :: "qrvmc_status_code list" where
  "named_statuses =
     [QRVMC_SUCCESS, QRVMC_FAILURE, QRVMC_REVERT, QRVMC_OUT_OF_GAS, QRVMC_INVALID_INSTRUCTION,
      QRVMC_UNDEFINED_INSTRUCTION, QRVMC_STACK_OVERFLOW, QRVMC_STACK_UNDERFLOW,
      QRVMC_BAD_JUMP_DESTINATION, QRVMC_INVALID_MEMORY_ACCESS, QRVMC_CALL_DEPTH_EXCEEDED,
      QRVMC_STATIC_MODE_VIOLATION, QRVMC_PRECOMPILE_FAILURE, QRVMC_CONTRACT_VALIDATION_FAILURE,
      QRVMC_ARGUMENT_OUT_OF_RANGE, QRVMC_WASM_UNREACHABLE_INSTRUCTION, QRVMC_WASM_TRAP,
      QRVMC_INSUFFICIENT_BALANCE, QRVMC_INTERNAL_ERROR, QRVMC_REJECTED, QRVMC_OUT_OF_MEMORY]"

definition status_of_int :: "int \<Rightarrow> qrvmc_status_code" where
  "status_of_int n =
     (case List.find (\<lambda>s. status_value s = n) named_statuses of
        Some s \<Rightarrow> s
      | None \<Rightarrow> Other_status n)"

lemma find_named:
  "List.find P xs = Some s \<Longrightarrow> s \<in> set xs \<and> P s"
  by (induction xs) (auto split: if_splits)

lemma named_status_values: "set (map status_value named_statuses) = {-3..17}"
  by code_simp

lemma status_of_int_cases:
  "status_of_int n \<in> set named_statuses \<and> status_value (status_of_int n) = n \<and> -3 \<le> n \<and> n \<le> 17 \<or>
   status_of_int n = Other_status n \<and> (n < -3 \<or> 17 < n)"
proof (cases "List.find (\<lambda>s. status_value s = n) named_statuses")
  case None
  then have "n \<notin> set (map status_value named_statuses)"
    by (auto simp: find_None_iff)
  then show ?thesis
    unfolding named_status_values using None by (auto simp: status_of_int_def)
next
  case (Some s)
  then have s: "s \<in> set named_statuses" "status_value s = n"
    by (auto dest: find_named)
  then have "n \<in> set (map status_value named_statuses)" by auto
  then show ?thesis
    unfolding named_status_values using Some s by (simp add: status_of_int_def)
qed

lemma status_names_distinct: "distinct (map qrvmc_status_code_to_string named_statuses)"
  by code_simp

lemma status_names_known: "s \<in> set named_statuses \<Longrightarrow> qrvmc_status_code_to_string s \<noteq> ''<unknown>''"
  by (auto simp: named_statuses_def)

text \<open>The text of a status code identifies it. Two numbers held by a \<^verbatim>\<open>qrvmc_status_code\<close>
  object get the same text exactly when they are the same number or when neither is an enumerator
  of the header, and then the text is \<^verbatim>\<open>"<unknown>"\<close>.\<close>

theorem status_text_identifies:
  "qrvmc_status_code_to_string (status_of_int m) = qrvmc_status_code_to_string (status_of_int n) \<longleftrightarrow>
     m = n \<or> (m < -3 \<or> 17 < m) \<and> (n < -3 \<or> 17 < n)"
proof -
  have inj: "s = t" if "s \<in> set named_statuses" "t \<in> set named_statuses"
    "qrvmc_status_code_to_string s = qrvmc_status_code_to_string t" for s t
    using status_names_distinct that by (auto simp: distinct_map dest: inj_onD)
  from status_of_int_cases [of m] status_of_int_cases [of n] show ?thesis
    by (metis inj status_names_known qrvmc_status_code_to_string.simps(22) not_le)
qed

section \<open>Results own one block\<close>

text \<open>
  The block a result owns: where its release function will free, when there is one. Two heaps
  agree outside a set of blocks when every other block is the same in both.
\<close>

fun ptr_block :: "ptr \<Rightarrow> nat option" where
  "ptr_block Null = None"
| "ptr_block (Ptr b off) = Some b"

definition owned_block :: "qrvmc_result \<Rightarrow> nat option" where
  "owned_block r = (if res_release r = No_release then None else ptr_block (res_output_data r))"

definition release_kind :: "release_fn \<Rightarrow> alloc_kind" where
  "release_kind f = (if f = Delete_output then New_array else Malloc)"

text \<open>A result is releasable in a heap: its pointer is the start of a live block of the right kind.\<close>

definition releasable :: "qrvmc_result \<Rightarrow> heap \<Rightarrow> bool" where
  "releasable r h \<longleftrightarrow>
     (case res_output_data r of
        Null \<Rightarrow> True
      | Ptr b off \<Rightarrow>
          res_release r = No_release \<or>
          off = 0 \<and> (\<exists>bs. blocks h b = Some (release_kind (res_release r), bs)))"

definition forget :: "nat option \<Rightarrow> heap \<Rightarrow> heap" where
  "forget bo h = (case bo of None \<Rightarrow> h | Some b \<Rightarrow> h\<lparr>blocks := (blocks h)(b := None)\<rparr>)"

lemma release_result_Some [heap_simps]:
  "releasable r h \<Longrightarrow> qrvmc_release_result r h = Some (forget (owned_block r) h)"
  by (cases "res_release r"; cases "res_output_data r")
    (auto simp: releasable_def qrvmc_release_result_def call_release_def forget_def
      qrvmc_free_result_memory_def deallocate_def owned_block_def release_kind_def)

lemma release_result_None:
  "\<not> releasable r h \<Longrightarrow> qrvmc_release_result r h = None"
  by (cases "res_release r"; cases "res_output_data r")
    (auto simp: releasable_def qrvmc_release_result_def call_release_def
      qrvmc_free_result_memory_def deallocate_def release_kind_def split: option.splits)

lemma make_result_no_output:
  "qrvmc_make_result st g rf p 0 h =
     Some (zero_result\<lparr>res_status_code := st, res_gas_left := g, res_gas_refund := rf\<rparr>, h)"
  by (simp add: qrvmc_make_result_def)

lemma make_result_failed:
  "n \<noteq> 0 \<Longrightarrow> \<not> granted h (fresh h) n \<Longrightarrow>
   qrvmc_make_result st g rf p n h =
     Some (zero_result\<lparr>res_status_code := QRVMC_OUT_OF_MEMORY\<rparr>, h\<lparr>fresh := Suc (fresh h)\<rparr>)"
  by (simp add: qrvmc_make_result_def malloc_def)

lemma make_result_output:
  assumes "heap_wf h" and n: "n \<noteq> 0" and g: "granted h (fresh h) n" and r: "mem_read h p n = Some bs"
  shows "qrvmc_make_result st g' rf p n h =
     Some (zero_result\<lparr>res_output_data := Ptr (fresh h) 0, res_output_size := n,
             res_release := Free_result_memory, res_status_code := st, res_gas_left := g',
             res_gas_refund := rf\<rparr>,
           snd (allocate Malloc bs h))"
proof -
  have len: "length bs = n" using r by (rule mem_read_length)
  have "mem_read (snd (malloc n h)) p n = Some bs"
    using mem_read_malloc_other [OF assms(1) r] .
  moreover have "bs \<noteq> []" using len n by auto
  ultimately show ?thesis
    using n g len
    by (auto simp: qrvmc_make_result_def malloc_def allocate_def mem_write_def copy_into_def
        patch_def intro!: heap.equality)
qed

text \<open>C10: \<^verbatim>\<open>qrvmc_make_result\<close> never reads or writes outside its arguments and never fails. Without
  output it allocates nothing. With output it either returns the zeroed result with
  \<^verbatim>\<open>QRVMC_OUT_OF_MEMORY\<close>, when \<^verbatim>\<open>malloc\<close> refused, or a result with the given fields whose output
  is a copy of the given bytes in a block of its own. All other memory is unchanged, and
  \<^verbatim>\<open>qrvmc_release_result\<close> on the result then gives back exactly what was allocated.\<close>

theorem make_release_result:
  assumes "heap_wf h" and "mem_read h p n = Some bs"
  shows "\<exists>r h' h''. qrvmc_make_result st g rf p n h = Some (r, h') \<and> heap_wf h' \<and>
     (\<forall>b. blocks h b \<noteq> None \<longrightarrow> blocks h' b = blocks h b) \<and>
     (if n \<noteq> 0 \<and> \<not> granted h (fresh h) n
      then r = zero_result\<lparr>res_status_code := QRVMC_OUT_OF_MEMORY\<rparr>
      else res_status_code r = st \<and> res_gas_left r = g \<and> res_gas_refund r = rf \<and>
           res_output_size r = n \<and> mem_read h' (res_output_data r) n = Some bs \<and>
           res_create_address r = 0) \<and>
     qrvmc_release_result r h' = Some h'' \<and> blocks h'' = blocks h"
proof -
  have fr: "blocks h (fresh h) = None" using assms(1) by (rule heap_wf_fresh)
  consider "n = 0" | "n \<noteq> 0" "\<not> granted h (fresh h) n" | "n \<noteq> 0" "granted h (fresh h) n" by blast
  then show ?thesis
  proof cases
    case 1
    then show ?thesis using assms
      by (auto simp: make_result_no_output zero_result_def qrvmc_release_result_def mem_read_def)
  next
    case 2
    then show ?thesis using assms(1)
      by (auto simp: make_result_failed zero_result_def qrvmc_release_result_def heap_wf_def less_Suc_eq)
  next
    case 3
    have "length bs = n" using assms(2) by (rule mem_read_length)
    then show ?thesis
      using make_result_output [OF assms(1) 3 assms(2)] heap_wf_allocate [OF assms(1)] 3 fr
      by (auto simp: allocate_def zero_result_def release_result_Some releasable_def release_kind_def
          owned_block_def forget_def mem_read_def region_def)
  qed
qed

definition sample_heap :: heap where
  "sample_heap = \<lparr>blocks = [0 \<mapsto> (Object, [7, 8, 9])], fresh = 1, granted = (\<lambda>k n. True), junk = 0\<rparr>"

theorem make_release_result_witness:
  "\<exists>r h' h''. qrvmc_make_result QRVMC_REVERT 5 0 (Ptr 0 1) 2 sample_heap = Some (r, h') \<and>
     mem_read h' (res_output_data r) 2 = Some [8, 9] \<and>
     qrvmc_release_result r h' = Some h'' \<and> blocks h'' = blocks sample_heap"
proof -
  have "heap_wf sample_heap" by (simp add: heap_wf_def sample_heap_def)
  moreover have "mem_read sample_heap (Ptr 0 1) 2 = Some [8, 9]"
    by (simp add: mem_read_def sample_heap_def region_def)
  ultimately show ?thesis
    using make_release_result [of sample_heap "Ptr 0 1" 2 "[8, 9]" QRVMC_REVERT 5 0]
    by (fastforce simp: sample_heap_def)
qed

end
