(* ===== verification/Ownership.thy ===== *)
theory Ownership
  imports Prelude
begin

text \<open>
  The machine behind the RAII classes of \<^verbatim>\<open>qrvmc.hpp\<close>. A program names objects by numbers and runs
  commands on them: construct, adopt a raw C value, move-construct (also \<^verbatim>\<open>release_raw\<close>, into a raw C
  struct), move-assign, destroy. The class supplies the methods; the locale \<open>raii\<close> states what the
  methods promise about the resources objects own, and proves that then no command sequence
  releases a resource twice, uses a released one or loses one. The interpretations are in the
  theories of the classes.
\<close>

record ('o, 'h, 'k) raii_class =
  ctor :: "'k \<Rightarrow> 'h \<Rightarrow> ('o \<times> 'h) option"
  ctor_pre :: "'k \<Rightarrow> 'h \<Rightarrow> bool"
  dtor :: "'o \<Rightarrow> 'h \<Rightarrow> 'h option"
  move_ctor :: "'o \<Rightarrow> 'o \<times> 'o"
  move_assign :: "'o \<Rightarrow> 'o \<Rightarrow> 'h \<Rightarrow> ('o \<times> 'o \<times> 'h) option"

datatype 'k raii_cmd =
    Construct nat 'k
  | Adopt nat nat
  | Move_construct nat nat
  | Move_assign nat nat
  | Destroy nat

record ('o, 'h) raii_state =
  objs :: "nat \<Rightarrow> 'o option"
  store :: 'h

text \<open>
  What the language and the class comments ask of the program: a new object gets a name that is
  not in use and arguments the constructor can take, the other names are those of live objects,
  and \<^verbatim>\<open>x = std::move(x)\<close> never happens. Adopting a raw value ends the life of the raw name, since the
  new object \<^verbatim>\<open>takes ownership\<close>.
\<close>

fun enabled :: "('o, 'h, 'k) raii_class \<Rightarrow> 'k raii_cmd \<Rightarrow> ('o, 'h) raii_state \<Rightarrow> bool" where
  "enabled cls (Construct x k) s \<longleftrightarrow> objs s x = None \<and> ctor_pre cls k (store s)"
| "enabled cls (Adopt x y) s \<longleftrightarrow> objs s x = None \<and> objs s y \<noteq> None"
| "enabled cls (Move_construct x y) s \<longleftrightarrow> objs s x = None \<and> objs s y \<noteq> None"
| "enabled cls (Move_assign x y) s \<longleftrightarrow> x \<noteq> y \<and> objs s x \<noteq> None \<and> objs s y \<noteq> None"
| "enabled cls (Destroy x) s \<longleftrightarrow> objs s x \<noteq> None"

text \<open>One command; the value is undefined where the C++ program is.\<close>

fun exec :: "('o, 'h, 'k) raii_class \<Rightarrow> 'k raii_cmd \<Rightarrow> ('o, 'h) raii_state \<Rightarrow>
             ('o, 'h) raii_state option" where
  "exec cls (Construct x k) s =
     Option.bind (ctor cls k (store s)) (\<lambda>(a, h). Some (s\<lparr>objs := (objs s)(x \<mapsto> a), store := h\<rparr>))"
| "exec cls (Adopt x y) s =
     Option.bind (objs s y) (\<lambda>a. Some (s\<lparr>objs := (objs s)(x \<mapsto> a, y := None)\<rparr>))"
| "exec cls (Move_construct x y) s =
     Option.bind (objs s y) (\<lambda>a. case move_ctor cls a of
       (new, old) \<Rightarrow> Some (s\<lparr>objs := (objs s)(x \<mapsto> new, y \<mapsto> old)\<rparr>))"
| "exec cls (Move_assign x y) s =
     Option.bind (objs s x) (\<lambda>a. Option.bind (objs s y) (\<lambda>b.
       Option.bind (move_assign cls a b (store s)) (\<lambda>(new, old, h).
         Some (s\<lparr>objs := (objs s)(x \<mapsto> new, y \<mapsto> old), store := h\<rparr>))))"
| "exec cls (Destroy x) s =
     Option.bind (objs s x) (\<lambda>a. Option.bind (dtor cls a (store s)) (\<lambda>h.
       Some (s\<lparr>objs := (objs s)(x := None), store := h\<rparr>)))"

text \<open>A program run: every command was enabled, and none was undefined.\<close>

inductive runs :: "('o, 'h, 'k) raii_class \<Rightarrow> ('o, 'h) raii_state \<Rightarrow> 'k raii_cmd list \<Rightarrow>
                   ('o, 'h) raii_state \<Rightarrow> bool"
  for cls where
  runs_nil: "runs cls s [] s"
| runs_cons: "enabled cls c s \<Longrightarrow> exec cls c s = Some s' \<Longrightarrow> runs cls s' cs s'' \<Longrightarrow> runs cls s (c # cs) s''"

inductive_cases runs_consE: "runs cls s (c # cs) s''"
inductive_cases runs_nilE: "runs cls s [] s'"

inductive_simps runs_nil_iff [simp]: "runs cls s [] s'"
inductive_simps runs_cons_iff: "runs cls s (c # cs) s''"

lemma runs_append: "runs cls s (cs @ ds) s'' \<longleftrightarrow> (\<exists>s'. runs cls s cs s' \<and> runs cls s' ds s'')"
  by (induction cs arbitrary: s) (auto simp: runs_cons_iff)

text \<open>Making an object is lawful in a store when what it makes is usable and owns only what is new.\<close>

definition lawful_at ::
  "('h \<Rightarrow> 'o \<Rightarrow> nat option) \<Rightarrow> ('h \<Rightarrow> 'o \<Rightarrow> bool) \<Rightarrow> ('h \<Rightarrow> nat set) \<Rightarrow> ('h \<Rightarrow> bool) \<Rightarrow>
   'h \<Rightarrow> ('o \<times> 'h) option \<Rightarrow> bool" where
  "lawful_at owned usable held sane h result \<longleftrightarrow>
     (\<exists>a h'. result = Some (a, h') \<and> sane h' \<and> usable h' a \<and>
        set_option (owned h' a) \<inter> held h = {} \<and> held h' = held h \<union> set_option (owned h' a) \<and>
        (\<forall>p. usable h p \<longrightarrow> usable h' p \<and> owned h' p = owned h p))"

section \<open>The promises of a class\<close>

locale raii =
  fixes cls :: "('o, 'h, 'k) raii_class"
    and owned :: "'h \<Rightarrow> 'o \<Rightarrow> nat option"
    and usable :: "'h \<Rightarrow> 'o \<Rightarrow> bool"
    and held :: "'h \<Rightarrow> nat set"
    and sane :: "'h \<Rightarrow> bool"
  assumes ctor_lawful:
      "sane h \<Longrightarrow> ctor_pre cls k h \<Longrightarrow> lawful_at owned usable held sane h (ctor cls k h)"
    and owned_held: "usable h a \<Longrightarrow> owned h a = Some r \<Longrightarrow> r \<in> held h"
    and move_owned: "move_ctor cls a = (new, old) \<Longrightarrow> owned h new = owned h a \<and> owned h old = None"
    and move_usable: "move_ctor cls a = (new, old) \<Longrightarrow> usable h a \<Longrightarrow> usable h new \<and> usable h old"
    and assign_def:
      "move_assign cls a b h =
         Option.bind (dtor cls a h) (\<lambda>h'. case move_ctor cls b of (new, old) \<Rightarrow> Some (new, old, h'))"
    and dtor_defined:
      "sane h \<Longrightarrow> usable h a \<Longrightarrow>
         \<exists>h'. dtor cls a h = Some h' \<and> sane h' \<and> held h' = held h - set_option (owned h a)"
    and dtor_frame:
      "dtor cls a h = Some h' \<Longrightarrow> usable h p \<Longrightarrow> owned h p = None \<or> owned h p \<noteq> owned h a \<Longrightarrow>
         usable h' p \<and> owned h' p = owned h p"
begin

text \<open>
  \<open>own s x\<close> is what the object named \<open>x\<close> owns. The invariant, for resources \<open>base\<close> nobody owns:
  every object is usable, no two names own the same resource, and what is held is \<open>base\<close> and what
  the objects own.
\<close>

definition own :: "('o, 'h) raii_state \<Rightarrow> nat \<Rightarrow> nat option" where
  "own s x = Option.bind (objs s x) (owned (store s))"

definition unique :: "nat set \<Rightarrow> ('o, 'h) raii_state \<Rightarrow> bool" where
  "unique base s \<longleftrightarrow>
     sane (store s) \<and> (\<forall>x a. objs s x = Some a \<longrightarrow> usable (store s) a) \<and>
     inj_on (own s) (dom (own s)) \<and> base \<inter> ran (own s) = {} \<and> held (store s) = base \<union> ran (own s)"

lemma unique_start: "sane h \<Longrightarrow> unique (held h) \<lparr>objs = Map.empty, store = h\<rparr>"
proof -
  have "own \<lparr>objs = Map.empty, store = h\<rparr> = Map.empty" by (simp add: own_def fun_eq_iff)
  then show "sane h \<Longrightarrow> ?thesis" by (simp add: unique_def)
qed

lemma unique_ownD: "unique base s \<Longrightarrow> own s x = Some r \<Longrightarrow> own s y = Some r \<Longrightarrow> x = y"
  unfolding unique_def by (metis domI inj_onD)

lemma uniqueI:
  assumes "sane (store s)" and "\<And>x a. objs s x = Some a \<Longrightarrow> usable (store s) a"
    and "\<And>x y r. own s x = Some r \<Longrightarrow> own s y = Some r \<Longrightarrow> x = y"
    and "\<And>r. r \<in> ran (own s) \<Longrightarrow> r \<notin> base" and "held (store s) = base \<union> ran (own s)"
  shows "unique base s"
  using assms by (auto simp: unique_def inj_on_def dom_def)

lemma construct_step:
  assumes u: "unique base s" and x: "objs s x = None" and pre: "ctor_pre cls k (store s)"
  shows "\<exists>s'. exec cls (Construct x k) s = Some s' \<and> unique base s'"
proof -
  have "lawful_at owned usable held sane (store s) (ctor cls k (store s))"
    using u pre ctor_lawful by (simp add: unique_def)
  then obtain a h' where c: "ctor cls k (store s) = Some (a, h')" "sane h'" "usable h' a"
    "set_option (owned h' a) \<inter> held (store s) = {}"
    "held h' = held (store s) \<union> set_option (owned h' a)"
    "\<And>p. usable (store s) p \<Longrightarrow> usable h' p \<and> owned h' p = owned (store s) p"
    by (auto simp: lawful_at_def)
  let ?s = "s\<lparr>objs := (objs s)(x \<mapsto> a), store := h'\<rparr>"
  have us: "usable (store s) b" if "objs s y = Some b" for y b
    using that u by (auto simp: unique_def)
  have own: "own ?s y = (if y = x then owned h' a else own s y)" for y
    using us c(6) by (cases "objs s y") (auto simp: own_def)
  have x0: "own s x = None" using x by (simp add: own_def)
  have h: "held (store s) = base \<union> ran (own s)" using u by (simp add: unique_def)
  have "own ?s = (own s)(x := owned h' a)" using own by auto
  then have r: "ran (own ?s) = ran (own s) \<union> set_option (owned h' a)"
    using ran_fresh_update [of "own s" x] x0 by simp
  have "unique base ?s"
  proof (rule uniqueI)
    show "z = y" if "own ?s z = Some r" "own ?s y = Some r" for z y r
      using that unique_ownD [OF u] c(4) h by (auto simp: own ran_def split: if_splits)
  qed (use c us u h r in \<open>auto simp: unique_def split: if_splits\<close>)
  then show ?thesis using c(1) by simp
qed

text \<open>Moving hands the resource over; nothing changes for the other names.\<close>

lemma own_moved:
  assumes "move_ctor cls a = (new, old)" and "objs s y = Some a" and "objs s' = (objs s)(x \<mapsto> new, y \<mapsto> old)"
    and "x \<noteq> y"
    and "\<And>z b. z \<noteq> x \<Longrightarrow> objs s z = Some b \<Longrightarrow> owned (store s') b = owned (store s) b"
  shows "own s' = (own s)(x := own s y, y := None)"
proof
  fix z
  show "own s' z = ((own s)(x := own s y, y := None)) z"
    using assms move_owned [OF assms(1), of "store s'"] assms(5) [OF assms(4) [symmetric] assms(2)]
    by (cases "objs s z") (auto simp: own_def)
qed

lemma moved_inj:
  assumes "unique base s" and "own s' = (own s)(x := own s y, y := None)"
    and "own s' z = Some r" and "own s' w = Some r"
  shows "z = w"
  using assms unique_ownD [OF assms(1)] by (auto split: if_splits)

lemma move_construct_step:
  assumes u: "unique base s" and e: "enabled cls (Move_construct x y) s"
  shows "\<exists>s'. exec cls (Move_construct x y) s = Some s' \<and> unique base s'"
proof -
  obtain a where a: "objs s y = Some a" using e by auto
  obtain new old where m: "move_ctor cls a = (new, old)" by (cases "move_ctor cls a")
  let ?s = "s\<lparr>objs := (objs s)(x \<mapsto> new, y \<mapsto> old)\<rparr>"
  have xy: "x \<noteq> y" and x0: "own s x = None" using e a by (auto simp: own_def)
  have own: "own ?s = (own s)(x := own s y, y := None)"
    using m a xy by (intro own_moved [of a new old s y ?s x]) auto
  have r: "ran (own ?s) = ran (own s)"
    unfolding own using x0 xy by (simp add: ran_move fun_upd_idem)
  have "unique base ?s"
  proof (rule uniqueI)
    show "z = w" if "own ?s z = Some q" "own ?s w = Some q" for z w q
      using moved_inj [OF u own that] .
  qed (use u r move_usable [OF m] a in \<open>auto simp: unique_def split: if_splits\<close>)
  then show ?thesis using a m by simp
qed

lemma adopt_step:
  assumes u: "unique base s" and e: "enabled cls (Adopt x y) s"
  shows "\<exists>s'. exec cls (Adopt x y) s = Some s' \<and> unique base s'"
proof -
  obtain a where a: "objs s y = Some a" using e by auto
  let ?s = "s\<lparr>objs := (objs s)(x \<mapsto> a, y := None)\<rparr>"
  have xy: "x \<noteq> y" and x0: "own s x = None" using e a by (auto simp: own_def)
  have own: "own ?s = (own s)(x := own s y, y := None)"
    using a xy by (auto simp: own_def fun_eq_iff)
  have r: "ran (own ?s) = ran (own s)"
    unfolding own using x0 xy by (simp add: ran_move fun_upd_idem)
  have "unique base ?s"
  proof (rule uniqueI)
    show "z = w" if "own ?s z = Some q" "own ?s w = Some q" for z w q
      using moved_inj [OF u own that] .
  qed (use u r a in \<open>auto simp: unique_def split: if_splits\<close>)
  then show ?thesis using a by simp
qed

lemma dtor_step:
  assumes u: "unique base s" and x: "objs s x = Some a"
  obtains h' where "dtor cls a (store s) = Some h'" and "sane h'"
    and "held h' = base \<union> (ran (own s) - set_option (own s x))"
    and "\<And>z b. z \<noteq> x \<Longrightarrow> objs s z = Some b \<Longrightarrow> usable h' b \<and> owned h' b = owned (store s) b"
proof -
  have ox: "own s x = owned (store s) a" using x by (simp add: own_def)
  obtain h' where h: "dtor cls a (store s) = Some h'" "sane h'"
    "held h' = held (store s) - set_option (owned (store s) a)"
    using dtor_defined [of "store s" a] u x by (auto simp: unique_def)
  have "held h' = base \<union> (ran (own s) - set_option (own s x))"
  proof -
    have "set_option (own s x) \<subseteq> ran (own s)" by (auto intro: ranI)
    then show ?thesis using h(3) u ox by (auto simp: unique_def)
  qed
  moreover have "usable h' b \<and> owned h' b = owned (store s) b" if "z \<noteq> x" "objs s z = Some b" for z b
  proof (rule dtor_frame [OF h(1)])
    show "usable (store s) b" using u that by (auto simp: unique_def)
    show "owned (store s) b = None \<or> owned (store s) b \<noteq> owned (store s) a"
      using unique_ownD [OF u, of x _ z] that x
      by (cases "owned (store s) b") (fastforce simp: own_def)+
  qed
  ultimately show thesis using that h(1,2) by blast
qed

lemma destroy_step:
  assumes u: "unique base s" and x: "objs s x = Some a"
  shows "\<exists>s'. exec cls (Destroy x) s = Some s' \<and> unique base s'"
proof -
  from dtor_step [OF u x] obtain h' where h: "dtor cls a (store s) = Some h'" "sane h'"
    "held h' = base \<union> (ran (own s) - set_option (own s x))"
    and fr: "\<And>z b. z \<noteq> x \<Longrightarrow> objs s z = Some b \<Longrightarrow> usable h' b \<and> owned h' b = owned (store s) b"
    by blast
  let ?s = "s\<lparr>objs := (objs s)(x := None), store := h'\<rparr>"
  have own: "own ?s z = (if z = x then None else own s z)" for z
    using fr by (cases "objs s z") (auto simp: own_def)
  have r: "ran (own ?s) = ran (own s) - set_option (own s x)"
  proof -
    have "own ?s = (own s)(x := None)" using own by auto
    then show ?thesis using ran_remove [of "own s" x] unique_ownD [OF u] by simp
  qed
  have "unique base ?s"
    by (rule uniqueI) (use u h fr r own unique_ownD [OF u] in \<open>auto simp: unique_def split: if_splits\<close>)
  then show ?thesis using x h(1) by simp
qed

lemma move_assign_step:
  assumes u: "unique base s" and e: "enabled cls (Move_assign x y) s"
  shows "\<exists>s'. exec cls (Move_assign x y) s = Some s' \<and> unique base s'"
proof -
  from e obtain a b where xy: "x \<noteq> y" and a: "objs s x = Some a" and b: "objs s y = Some b" by auto
  obtain new old where m: "move_ctor cls b = (new, old)" by (cases "move_ctor cls b")
  from dtor_step [OF u a] obtain h' where h: "dtor cls a (store s) = Some h'" "sane h'"
    "held h' = base \<union> (ran (own s) - set_option (own s x))"
    and fr: "\<And>z b. z \<noteq> x \<Longrightarrow> objs s z = Some b \<Longrightarrow> usable h' b \<and> owned h' b = owned (store s) b"
    by blast
  let ?s = "s\<lparr>objs := (objs s)(x \<mapsto> new, y \<mapsto> old), store := h'\<rparr>"
  have own: "own ?s = (own s)(x := own s y, y := None)"
    using m b xy fr by (intro own_moved [of b new old s y ?s x]) auto
  have r: "ran (own ?s) = ran (own s) - set_option (own s x)"
    unfolding own ran_move [OF xy] using unique_ownD [OF u] by (intro ran_remove) metis
  have "unique base ?s"
  proof (rule uniqueI)
    show "z = w" if "own ?s z = Some q" "own ?s w = Some q" for z w q
      using moved_inj [OF u own that] .
    show "usable (store ?s) c" if "objs ?s z = Some c" for z c
      using that fr move_usable [OF m, of h'] fr [OF xy [symmetric] b] by (auto split: if_splits)
  qed (use u h r in \<open>auto simp: unique_def\<close>)
  then show ?thesis using a b m h(1) by (simp add: assign_def)
qed

text \<open>Every enabled command is defined and keeps the invariant.\<close>

theorem exec_safe:
  assumes "unique base s" and "enabled cls c s"
  shows "\<exists>s'. exec cls c s = Some s' \<and> unique base s'"
  using assms construct_step adopt_step move_construct_step move_assign_step destroy_step
  by (cases c) fastforce+

lemma runs_unique: "runs cls s cs s' \<Longrightarrow> unique base s \<Longrightarrow> unique base s'"
proof (induction rule: runs.induct)
  case (runs_cons c s s' cs s'')
  then show ?case using exec_safe [of base s c] by auto
qed

text \<open>No resource is lost: when every object is gone, what is held is what was held.\<close>

lemma no_leak: "unique base s \<Longrightarrow> objs s = Map.empty \<Longrightarrow> held (store s) = base"
  by (auto simp: unique_def own_def ran_def)

lemma runs_safe:
  assumes "sane h" and "runs cls \<lparr>objs = Map.empty, store = h\<rparr> cs s"
  shows "enabled cls c s \<Longrightarrow> exec cls c s \<noteq> None"
    and "objs s = Map.empty \<Longrightarrow> held (store s) = held h"
    and "objs s x = Some a \<Longrightarrow> objs s y = Some b \<Longrightarrow> x \<noteq> y \<Longrightarrow>
           owned (store s) a = Some r \<Longrightarrow> owned (store s) b \<noteq> Some r"
proof -
  have u: "unique (held h) s"
    using runs_unique [OF assms(2) unique_start [OF assms(1)]] .
  show "enabled cls c s \<Longrightarrow> exec cls c s \<noteq> None" using exec_safe [OF u] by blast
  show "objs s = Map.empty \<Longrightarrow> held (store s) = held h" using no_leak [OF u] .
  show "objs s x = Some a \<Longrightarrow> objs s y = Some b \<Longrightarrow> x \<noteq> y \<Longrightarrow>
      owned (store s) a = Some r \<Longrightarrow> owned (store s) b \<noteq> Some r"
    using unique_ownD [OF u, of x r y] by (auto simp: own_def)
qed

end

end
