(* ===== verification/Results.thy ===== *)
theory Results
  imports Helpers Ownership
begin

text \<open>
  The class \<^verbatim>\<open>Result\<close> of \<^verbatim>\<open>qrvmc.hpp\<close>, the RAII wrapper of \<^verbatim>\<open>qrvmc_result\<close>. Its objects have the fields
  of the struct. The theory interprets \<open>raii\<close> on the methods of the class, so that a program made
  of constructions, moves, assignments, \<^verbatim>\<open>release_raw\<close> and destructions, with raw C results among
  them, never frees twice and never leaks.
\<close>

section \<open>The methods\<close>

text \<open>The constructors. The last one is a raw result a VM or Host callback hands out.\<close>

datatype result_args =
    With_output qrvmc_status_code i64 i64 ptr nat
  | With_status qrvmc_status_code i64 i64
  | With_create_address qrvmc_status_code i64 i64 address
  | From_callback "heap \<Rightarrow> (qrvmc_result \<times> heap) option"

fun result_ctor :: "result_args \<Rightarrow> heap \<Rightarrow> (qrvmc_result \<times> heap) option" where
  "result_ctor (With_output st g rf p n) h = qrvmc_make_result st g rf p n h"
| "result_ctor (With_status st g rf) h = qrvmc_make_result st g rf Null 0 h"
| "result_ctor (With_create_address st g rf a) h = do {
     (r, h) \<leftarrow> qrvmc_make_result st g rf Null 0 h;
     Some (r\<lparr>res_create_address := a\<rparr>, h)
   }"
| "result_ctor (From_callback f) h = f h"

text \<open>\<^verbatim>\<open>Result()\<close>: the default arguments.\<close>

definition result_default :: result_args where
  "result_default = With_status QRVMC_INTERNAL_ERROR 0 0"

definition result_from_raw :: "qrvmc_result \<Rightarrow> qrvmc_result" where
  "result_from_raw res = res"

definition result_dtor :: "qrvmc_result \<Rightarrow> heap \<Rightarrow> heap option" where
  "result_dtor this h = (if res_release this \<noteq> No_release then call_release this h else Some h)"

text \<open>A move returns the new object and the one moved from.\<close>

definition result_move_ctor :: "qrvmc_result \<Rightarrow> qrvmc_result \<times> qrvmc_result" where
  "result_move_ctor other = (other, other\<lparr>res_release := No_release\<rparr>)"

definition result_move_assign ::
  "qrvmc_result \<Rightarrow> qrvmc_result \<Rightarrow> heap \<Rightarrow> (qrvmc_result \<times> qrvmc_result \<times> heap) option" where
  "result_move_assign this other h = do {
     h' \<leftarrow> result_dtor this h;
     Some (other, other\<lparr>res_release := No_release\<rparr>, h')
   }"

definition result_release_raw :: "qrvmc_result \<Rightarrow> qrvmc_result \<times> qrvmc_result" where
  "result_release_raw this = (let out = this in (out, this\<lparr>res_release := No_release\<rparr>))"

section \<open>The class keeps the promises of \<open>raii\<close>\<close>

text \<open>The blocks somebody has to give back.\<close>

definition held_blocks :: "heap \<Rightarrow> nat set" where
  "held_blocks h = {b. \<exists>k bs. blocks h b = Some (k, bs) \<and> k \<noteq> Object}"

definition result_owned :: "heap \<Rightarrow> qrvmc_result \<Rightarrow> nat option" where
  "result_owned h r = owned_block r"

definition result_usable :: "heap \<Rightarrow> qrvmc_result \<Rightarrow> bool" where
  "result_usable h r \<longleftrightarrow> releasable r h"

text \<open>What a callback promises about the result it returns.\<close>

abbreviation lawful_result :: "heap \<Rightarrow> (qrvmc_result \<times> heap) option \<Rightarrow> bool" where
  "lawful_result \<equiv> lawful_at result_owned result_usable held_blocks heap_wf"

fun result_ctor_pre :: "result_args \<Rightarrow> heap \<Rightarrow> bool" where
  "result_ctor_pre (With_output st g rf p n) h \<longleftrightarrow> mem_read h p n \<noteq> None"
| "result_ctor_pre (From_callback f) h \<longleftrightarrow> lawful_result h (f h)"
| "result_ctor_pre k h \<longleftrightarrow> True"

definition Result :: "(qrvmc_result, heap, result_args) raii_class" where
  "Result = \<lparr>ctor = result_ctor, ctor_pre = result_ctor_pre, dtor = result_dtor,
     move_ctor = result_move_ctor, move_assign = result_move_assign\<rparr>"

lemma result_dtor_release: "result_dtor r h = qrvmc_release_result r h"
  by (simp add: result_dtor_def qrvmc_release_result_def)

lemma release_raw_moves: "result_release_raw = result_move_ctor"
  by (simp add: result_release_raw_def result_move_ctor_def fun_eq_iff)

lemma forget_simps [heap_simps]:
  "blocks (forget bo h) = (\<lambda>b. if bo = Some b then None else blocks h b)"
  "heap_wf h \<Longrightarrow> heap_wf (forget bo h)"
  by (cases bo; auto simp: forget_def heap_wf_def)+

lemma owned_releasable:
  "releasable r h \<Longrightarrow> owned_block r = Some b \<Longrightarrow>
     \<exists>bs. blocks h b = Some (release_kind (res_release r), bs)"
  by (cases "res_output_data r") (auto simp: releasable_def owned_block_def split: if_splits)

lemma releasable_cong:
  "releasable r h \<Longrightarrow> (\<And>b. owned_block r = Some b \<Longrightarrow> blocks h' b = blocks h b) \<Longrightarrow> releasable r h'"
  by (cases "res_output_data r") (auto simp: releasable_def owned_block_def)

lemma release_kind_not_object [simp]: "release_kind f \<noteq> Object"
  by (simp add: release_kind_def)

text \<open>A result that allocated nothing, and one with a block of its own, are lawful.\<close>

lemma lawful_unowned:
  assumes "heap_wf h" and "res_release r = No_release \<or> res_output_data r = Null"
  shows "lawful_result h (Some (r, h))"
  using assms
  by (cases "res_output_data r")
    (auto simp: lawful_at_def result_owned_def result_usable_def owned_block_def releasable_def)

lemma lawful_attempt:
  assumes "heap_wf h" and "res_release r = No_release \<or> res_output_data r = Null"
  shows "lawful_result h (Some (r, h\<lparr>fresh := Suc (fresh h)\<rparr>))"
proof -
  have "heap_wf (h\<lparr>fresh := Suc (fresh h)\<rparr>)" using assms(1) by (auto simp: heap_wf_def less_Suc_eq)
  moreover have "releasable p (h\<lparr>fresh := Suc (fresh h)\<rparr>)" if "releasable p h" for p
    using that by (rule releasable_cong) simp
  ultimately show ?thesis
    using assms by (cases "res_output_data r")
      (auto simp: lawful_at_def result_owned_def result_usable_def owned_block_def releasable_def
        held_blocks_def)
qed

lemma lawful_allocated:
  assumes wf: "heap_wf h" and k: "k = release_kind (res_release r)"
    and r: "res_release r \<noteq> No_release" "res_output_data r = Ptr (fresh h) 0"
  shows "lawful_result h (Some (r, snd (allocate k bs h)))"
proof -
  have fr: "blocks h (fresh h) = None" using wf by (rule heap_wf_fresh)
  have "releasable p (snd (allocate k bs h))" if "releasable p h" for p
    using that
  proof (rule releasable_cong)
    fix b
    assume "owned_block p = Some b"
    then have "blocks h b \<noteq> None" using owned_releasable [OF that] by auto
    then show "blocks (snd (allocate k bs h)) b = blocks h b" using fr by (auto simp: allocate_def)
  qed
  then show ?thesis
    using heap_wf_allocate [OF wf] r k fr
    by (auto simp: lawful_at_def result_owned_def result_usable_def owned_block_def releasable_def
        held_blocks_def allocate_def)
qed

lemma lawful_make_result:
  assumes "heap_wf h" and "mem_read h p n = Some bs"
  shows "lawful_result h (qrvmc_make_result st g rf p n h)"
proof -
  consider "n = 0" | "n \<noteq> 0" "\<not> granted h (fresh h) n" | "n \<noteq> 0" "granted h (fresh h) n" by blast
  then show ?thesis
  proof cases
    case 1
    then show ?thesis using lawful_unowned [OF assms(1)]
      by (simp add: make_result_no_output zero_result_def)
  next
    case 2
    then show ?thesis using lawful_attempt [OF assms(1)]
      by (simp add: make_result_failed zero_result_def)
  next
    case 3
    show ?thesis unfolding make_result_output [OF assms(1) 3 assms(2)]
      by (rule lawful_allocated) (simp_all add: assms(1) release_kind_def)
  qed
qed

lemma lawful_with_address:
  assumes "lawful_result h (Some (r, h'))"
  shows "lawful_result h (Some (r\<lparr>res_create_address := a\<rparr>, h'))"
proof -
  have "owned_block (r\<lparr>res_create_address := a\<rparr>) = owned_block r"
    and "releasable (r\<lparr>res_create_address := a\<rparr>) h' = releasable r h'"
    by (cases "res_output_data r"; simp add: owned_block_def releasable_def)+
  then show ?thesis using assms by (simp add: lawful_at_def result_owned_def result_usable_def)
qed

lemma result_ctor_lawful:
  assumes "heap_wf h" and "result_ctor_pre k h"
  shows "lawful_result h (result_ctor k h)"
proof (cases k)
  case (With_create_address st g rf a)
  then show ?thesis
    using lawful_with_address lawful_make_result [OF assms(1), of Null 0 "[]"]
    by (simp add: make_result_no_output mem_read_def)
next
  case (With_status st g rf)
  then show ?thesis using lawful_make_result [OF assms(1), of Null 0 "[]"] by (simp add: mem_read_def)
qed (use assms lawful_make_result in auto)

interpretation result: raii Result result_owned result_usable held_blocks heap_wf
proof
  fix h h' :: heap and k and a b p new old :: qrvmc_result and r
  show "heap_wf h \<Longrightarrow> ctor_pre Result k h \<Longrightarrow> lawful_result h (ctor Result k h)"
    by (simp add: Result_def result_ctor_lawful)
  show "result_usable h a \<Longrightarrow> result_owned h a = Some r \<Longrightarrow> r \<in> held_blocks h"
    using owned_releasable [of a h r]
    by (auto simp: result_usable_def result_owned_def held_blocks_def)
  show "move_ctor Result a = (new, old) \<Longrightarrow>
      result_owned h new = result_owned h a \<and> result_owned h old = None"
    by (auto simp: Result_def result_move_ctor_def result_owned_def owned_block_def)
  show "move_ctor Result a = (new, old) \<Longrightarrow> result_usable h a \<Longrightarrow>
      result_usable h new \<and> result_usable h old"
    by (auto simp: Result_def result_move_ctor_def result_usable_def releasable_def split: ptr.splits)
  show "move_assign Result a b h = Option.bind (dtor Result a h)
      (\<lambda>h'. case move_ctor Result b of (new, old) \<Rightarrow> Some (new, old, h'))"
    by (simp add: Result_def result_move_assign_def result_move_ctor_def)
  show "heap_wf h \<Longrightarrow> result_usable h a \<Longrightarrow> \<exists>h'. dtor Result a h = Some h' \<and> heap_wf h' \<and>
      held_blocks h' = held_blocks h - set_option (result_owned h a)"
    by (auto simp: Result_def result_dtor_release result_usable_def release_result_Some
        result_owned_def forget_simps held_blocks_def)
  assume d: "dtor Result a h = Some h'" and p: "result_usable h p"
    and o: "result_owned h p = None \<or> result_owned h p \<noteq> result_owned h a"
  have "releasable a h" and "h' = forget (owned_block a) h"
    using d release_result_None [of a h] release_result_Some [of a h]
    by (auto simp: Result_def result_dtor_release)
  then have "releasable p h'"
    using p o by (auto simp: result_usable_def result_owned_def forget_simps elim!: releasable_cong)
  then show "result_usable h' p \<and> result_owned h' p = result_owned h p"
    by (simp add: result_usable_def result_owned_def)
qed

text \<open>What a computation that gives back all its results keeps of the memory.\<close>

definition heap_kept :: "heap \<Rightarrow> heap \<Rightarrow> bool" where
  "heap_kept h h' \<longleftrightarrow>
     heap_wf h' \<and> held_blocks h' = held_blocks h \<and> (\<forall>p. result_usable h p \<longrightarrow> result_usable h' p)"

lemma heap_kept_refl: "heap_wf h \<Longrightarrow> heap_kept h h" by (simp add: heap_kept_def)
lemma heap_kept_trans: "heap_kept h1 h2 \<Longrightarrow> heap_kept h2 h3 \<Longrightarrow> heap_kept h1 h3" by (simp add: heap_kept_def)

text \<open>A result that is made, kept while the memory is kept, and destroyed leaves the memory kept.\<close>

lemma destroyed_kept:
  assumes l: "lawful_result h (Some (r, h1))" and k: "heap_kept h1 h2" and d: "result_dtor r h2 = Some h3"
  shows "heap_kept h h3"
proof -
  have r: "result_usable h1 r" "set_option (result_owned h1 r) \<inter> held_blocks h = {}"
    "held_blocks h1 = held_blocks h \<union> set_option (result_owned h1 r)"
    and frame: "\<And>p. result_usable h p \<Longrightarrow> result_usable h1 p"
    using l by (auto simp: lawful_at_def)
  have own: "result_owned a p = result_owned b p" for a b p by (simp add: result_owned_def)
  have u: "heap_wf h2" "result_usable h2 r" "held_blocks h2 = held_blocks h1" using k r(1) by (auto simp: heap_kept_def)
  from result.dtor_defined [OF u(1,2)] d have h3: "heap_wf h3" "held_blocks h3 = held_blocks h2 - set_option (result_owned h2 r)"
    by (auto simp: Result_def)
  have "result_usable h3 p" if p: "result_usable h p" for p
  proof -
    have "result_usable h2 p" using p frame k by (auto simp: heap_kept_def)
    moreover have "result_owned h2 p = None \<or> result_owned h2 p \<noteq> result_owned h2 r"
    proof (cases "result_owned h1 r")
      case (Some q)
      then have "result_owned h p \<noteq> Some q" using result.owned_held [OF p, of q] r(2) by auto
      then show ?thesis using Some own [of h2 p h] own [of h2 r h1] by simp
    qed (use own [of h2 r h1] in auto)
    moreover have "dtor Result r h2 = Some h3" using d by (simp add: Result_def)
    ultimately show ?thesis using result.dtor_frame by blast
  qed
  then show ?thesis using h3 u(3) r(2,3) own [of h2 r h1] by (auto simp: heap_kept_def)
qed

text \<open>C1: RAII of \<^verbatim>\<open>Result\<close> is sound. Take any program that starts without objects and constructs,
  adopts raw results, moves, move-assigns, calls \<^verbatim>\<open>release_raw\<close> and destroys, each within the class's
  rules. No command is undefined (no double free, no free of foreign memory, no write through a
  freed pointer); two objects never own one block; and when all objects are gone every block that
  was allocated has been given back, and nothing else.\<close>

theorem result_raii_sound:
  assumes "heap_wf h" and "runs Result \<lparr>objs = Map.empty, store = h\<rparr> cs s"
  shows "(\<forall>c. enabled Result c s \<longrightarrow> exec Result c s \<noteq> None) \<and>
    (\<forall>x y a b r. objs s x = Some a \<and> objs s y = Some b \<and> x \<noteq> y \<and> owned_block a = Some r \<longrightarrow>
       owned_block b \<noteq> Some r) \<and>
    (objs s = Map.empty \<longrightarrow> held_blocks (store s) = held_blocks h)"
  using result.runs_safe [OF assms] unfolding result_owned_def by blast

text \<open>A program: make a result with output, move it, assign the moved one over another, destroy.\<close>

definition sample_program :: "result_args raii_cmd list" where
  "sample_program =
     [Construct 1 (With_output QRVMC_SUCCESS 10 0 (Ptr 0 0) 3),
      Construct 2 (With_output QRVMC_REVERT 20 0 (Ptr 0 1) 2),
      Move_construct 3 1, Move_assign 2 3, Adopt 4 2, Destroy 4, Destroy 1, Destroy 3]"

theorem result_raii_sound_witness:
  "\<exists>s. runs Result \<lparr>objs = Map.empty, store = sample_heap\<rparr> sample_program s \<and>
     objs s = Map.empty \<and> held_blocks (store s) = held_blocks sample_heap"
proof -
  have wf: "heap_wf sample_heap" by (simp add: heap_wf_def sample_heap_def)
  have "\<exists>s. runs Result \<lparr>objs = Map.empty, store = sample_heap\<rparr> sample_program s \<and> objs s = Map.empty"
    by (simp add: sample_program_def runs_cons_iff Result_def sample_heap_def mem_read_def region_def
        qrvmc_make_result_def malloc_def allocate_def mem_write_def copy_into_def patch_def
        result_move_ctor_def result_move_assign_def result_dtor_def call_release_def zero_result_def
        qrvmc_free_result_memory_def deallocate_def fun_eq_iff numeral_eq_Suc)
  then obtain s where s: "runs Result \<lparr>objs = Map.empty, store = sample_heap\<rparr> sample_program s"
    "objs s = Map.empty" by blast
  with result_raii_sound [OF wf s(1)] show ?thesis by blast
qed

end
