(* ===== verification/Hosts.thy ===== *)
theory Hosts
  imports Results
begin

text \<open>
  The three views of a Host in \<^verbatim>\<open>qrvmc.hpp\<close>: a class derived from \<^verbatim>\<open>Host\<close> (its virtual methods over the
  object's state), the C table of callbacks \<^verbatim>\<open>Host::get_interface()\<close> builds from it through the
  functions of namespace \<^verbatim>\<open>internal\<close>, and the class \<^verbatim>\<open>HostContext\<close> a VM wraps around such a table. The
  locale \<open>storage_host\<close> states what a Host promises about account storage; the Hosts of the
  repository interpret it in their own theories.
\<close>

section \<open>Host methods and the C interface\<close>

text \<open>
  The virtual methods of a derived class have the shape of the C callbacks, with a \<^verbatim>\<open>Result\<close> object
  for the raw struct; the context pointer of the callbacks is the object itself.
\<close>

type_synonym 's host_methods = "'s qrvmc_host_interface"

definition internal_account_exists :: "'s host_methods \<Rightarrow> 's \<Rightarrow> address \<Rightarrow> bool \<times> 's" where
  "internal_account_exists methods h addr = account_exists methods h addr"

definition internal_get_storage :: "'s host_methods \<Rightarrow> 's \<Rightarrow> address \<Rightarrow> bytes32 \<Rightarrow> bytes32 \<times> 's" where
  "internal_get_storage methods h addr key = get_storage methods h addr key"

definition internal_set_storage ::
  "'s host_methods \<Rightarrow> 's \<Rightarrow> address \<Rightarrow> bytes32 \<Rightarrow> bytes32 \<Rightarrow> (qrvmc_storage_status \<times> 's) option" where
  "internal_set_storage methods h addr key val = set_storage methods h addr key val"

definition internal_get_balance :: "'s host_methods \<Rightarrow> 's \<Rightarrow> address \<Rightarrow> uint256be \<times> 's" where
  "internal_get_balance methods h addr = get_balance methods h addr"

definition internal_get_code_size :: "'s host_methods \<Rightarrow> 's \<Rightarrow> address \<Rightarrow> nat \<times> 's" where
  "internal_get_code_size methods h addr = get_code_size methods h addr"

definition internal_get_code_hash :: "'s host_methods \<Rightarrow> 's \<Rightarrow> address \<Rightarrow> bytes32 \<times> 's" where
  "internal_get_code_hash methods h addr = get_code_hash methods h addr"

definition internal_copy_code ::
  "'s host_methods \<Rightarrow> 's \<Rightarrow> address \<Rightarrow> nat \<Rightarrow> u8 list \<Rightarrow> nat \<Rightarrow> (nat \<times> u8 list \<times> 's) option" where
  "internal_copy_code methods h addr code_offset buffer_data buffer_size =
     copy_code methods h addr code_offset buffer_data buffer_size"

text \<open>The temporary \<^verbatim>\<open>Result\<close> gives its ownership away and is destroyed at the end of the statement.\<close>

definition internal_call ::
  "'s host_methods \<Rightarrow> 's \<Rightarrow> heap \<Rightarrow> qrvmc_message \<Rightarrow> (qrvmc_result \<times> 's \<times> heap) option" where
  "internal_call methods h mem msg = do {
     (temporary, h, mem) \<leftarrow> call methods h mem msg;
     let (raw, temporary) = result_release_raw temporary;
     mem \<leftarrow> result_dtor temporary mem;
     Some (raw, h, mem)
   }"

definition internal_get_tx_context :: "'s host_methods \<Rightarrow> 's \<Rightarrow> qrvmc_tx_context \<times> 's" where
  "internal_get_tx_context methods h = get_tx_context methods h"

definition internal_get_block_hash :: "'s host_methods \<Rightarrow> 's \<Rightarrow> i64 \<Rightarrow> bytes32 \<times> 's" where
  "internal_get_block_hash methods h number = get_block_hash methods h number"

definition internal_emit_log ::
  "'s host_methods \<Rightarrow> 's \<Rightarrow> address \<Rightarrow> u8 list \<Rightarrow> nat \<Rightarrow> bytes32 list \<Rightarrow> nat \<Rightarrow> 's option" where
  "internal_emit_log methods h addr data data_size topics num_topics =
     emit_log methods h addr data data_size topics num_topics"

definition internal_access_account :: "'s host_methods \<Rightarrow> 's \<Rightarrow> address \<Rightarrow> qrvmc_access_status \<times> 's" where
  "internal_access_account methods h addr = access_account methods h addr"

definition internal_access_storage :: "'s host_methods \<Rightarrow> 's \<Rightarrow> address \<Rightarrow> bytes32 \<Rightarrow> qrvmc_access_status \<times> 's" where
  "internal_access_storage methods h addr key = access_storage methods h addr key"

definition get_interface :: "'s host_methods \<Rightarrow> 's qrvmc_host_interface" where
  "get_interface methods = \<lparr>
     account_exists = internal_account_exists methods,
     get_storage = internal_get_storage methods,
     set_storage = internal_set_storage methods,
     get_balance = internal_get_balance methods,
     get_code_size = internal_get_code_size methods,
     get_code_hash = internal_get_code_hash methods,
     copy_code = internal_copy_code methods,
     call = internal_call methods,
     get_tx_context = internal_get_tx_context methods,
     get_block_hash = internal_get_block_hash methods,
     emit_log = internal_emit_log methods,
     access_account = internal_access_account methods,
     access_storage = internal_access_storage methods\<rparr>"

section \<open>HostContext\<close>

text \<open>The interface pointer is null in a default-constructed object; calling it is undefined.\<close>

record 's host_context =
  hc_host :: "'s qrvmc_host_interface option"
  hc_context :: 's

definition host_context_null :: "'s \<Rightarrow> 's host_context" where
  "host_context_null null_context = \<lparr>hc_host = None, hc_context = null_context\<rparr>"

definition make_host_context :: "'s qrvmc_host_interface \<Rightarrow> 's \<Rightarrow> 's host_context" where
  "make_host_context interface ctx = \<lparr>hc_host = Some interface, hc_context = ctx\<rparr>"

definition hc_account_exists :: "'s host_context \<Rightarrow> address \<Rightarrow> (bool \<times> 's host_context) option" where
  "hc_account_exists hc addr = do {
     host \<leftarrow> hc_host hc;
     let (result, context') = account_exists host (hc_context hc) addr;
     Some (result, hc\<lparr>hc_context := context'\<rparr>)
   }"

definition hc_get_storage :: "'s host_context \<Rightarrow> address \<Rightarrow> bytes32 \<Rightarrow> (bytes32 \<times> 's host_context) option" where
  "hc_get_storage hc addr key = do {
     host \<leftarrow> hc_host hc;
     let (result, context') = get_storage host (hc_context hc) addr key;
     Some (result, hc\<lparr>hc_context := context'\<rparr>)
   }"

definition hc_set_storage ::
  "'s host_context \<Rightarrow> address \<Rightarrow> bytes32 \<Rightarrow> bytes32 \<Rightarrow> (qrvmc_storage_status \<times> 's host_context) option" where
  "hc_set_storage hc addr key val = do {
     host \<leftarrow> hc_host hc;
     (status, context') \<leftarrow> set_storage host (hc_context hc) addr key val;
     Some (status, hc\<lparr>hc_context := context'\<rparr>)
   }"

definition hc_get_balance :: "'s host_context \<Rightarrow> address \<Rightarrow> (uint256be \<times> 's host_context) option" where
  "hc_get_balance hc addr = do {
     host \<leftarrow> hc_host hc;
     let (result, context') = get_balance host (hc_context hc) addr;
     Some (result, hc\<lparr>hc_context := context'\<rparr>)
   }"

definition hc_get_code_size :: "'s host_context \<Rightarrow> address \<Rightarrow> (nat \<times> 's host_context) option" where
  "hc_get_code_size hc addr = do {
     host \<leftarrow> hc_host hc;
     let (result, context') = get_code_size host (hc_context hc) addr;
     Some (result, hc\<lparr>hc_context := context'\<rparr>)
   }"

definition hc_get_code_hash :: "'s host_context \<Rightarrow> address \<Rightarrow> (bytes32 \<times> 's host_context) option" where
  "hc_get_code_hash hc addr = do {
     host \<leftarrow> hc_host hc;
     let (result, context') = get_code_hash host (hc_context hc) addr;
     Some (result, hc\<lparr>hc_context := context'\<rparr>)
   }"

definition hc_copy_code ::
  "'s host_context \<Rightarrow> address \<Rightarrow> nat \<Rightarrow> u8 list \<Rightarrow> nat \<Rightarrow> (nat \<times> u8 list \<times> 's host_context) option" where
  "hc_copy_code hc addr code_offset buffer_data buffer_size = do {
     host \<leftarrow> hc_host hc;
     (n, buffer_data, context') \<leftarrow> copy_code host (hc_context hc) addr code_offset buffer_data buffer_size;
     Some (n, buffer_data, hc\<lparr>hc_context := context'\<rparr>)
   }"

definition hc_call ::
  "'s host_context \<Rightarrow> heap \<Rightarrow> qrvmc_message \<Rightarrow> (qrvmc_result \<times> 's host_context \<times> heap) option" where
  "hc_call hc mem message = do {
     host \<leftarrow> hc_host hc;
     (raw, context', mem) \<leftarrow> call host (hc_context hc) mem message;
     Some (result_from_raw raw, hc\<lparr>hc_context := context'\<rparr>, mem)
   }"

definition hc_get_tx_context :: "'s host_context \<Rightarrow> (qrvmc_tx_context \<times> 's host_context) option" where
  "hc_get_tx_context hc = do {
     host \<leftarrow> hc_host hc;
     let (result, context') = get_tx_context host (hc_context hc);
     Some (result, hc\<lparr>hc_context := context'\<rparr>)
   }"

definition hc_get_block_hash :: "'s host_context \<Rightarrow> i64 \<Rightarrow> (bytes32 \<times> 's host_context) option" where
  "hc_get_block_hash hc number = do {
     host \<leftarrow> hc_host hc;
     let (result, context') = get_block_hash host (hc_context hc) number;
     Some (result, hc\<lparr>hc_context := context'\<rparr>)
   }"

definition hc_emit_log ::
  "'s host_context \<Rightarrow> address \<Rightarrow> u8 list \<Rightarrow> nat \<Rightarrow> bytes32 list \<Rightarrow> nat \<Rightarrow> 's host_context option" where
  "hc_emit_log hc addr data data_size topics topics_count = do {
     host \<leftarrow> hc_host hc;
     context' \<leftarrow> emit_log host (hc_context hc) addr data data_size topics topics_count;
     Some (hc\<lparr>hc_context := context'\<rparr>)
   }"

definition hc_access_account :: "'s host_context \<Rightarrow> address \<Rightarrow> (qrvmc_access_status \<times> 's host_context) option" where
  "hc_access_account hc addr = do {
     host \<leftarrow> hc_host hc;
     let (result, context') = access_account host (hc_context hc) addr;
     Some (result, hc\<lparr>hc_context := context'\<rparr>)
   }"

definition hc_access_storage :: "'s host_context \<Rightarrow> address \<Rightarrow> bytes32 \<Rightarrow> (qrvmc_access_status \<times> 's host_context) option" where
  "hc_access_storage hc addr key = do {
     host \<leftarrow> hc_host hc;
     let (result, context') = access_storage host (hc_context hc) addr key;
     Some (result, hc\<lparr>hc_context := context'\<rparr>)
   }"

lemmas host_wrapper_defs [host_simps] =
  internal_account_exists_def hc_account_exists_def
  internal_get_storage_def hc_get_storage_def
  internal_set_storage_def hc_set_storage_def
  internal_get_balance_def hc_get_balance_def
  internal_get_code_size_def hc_get_code_size_def
  internal_get_code_hash_def hc_get_code_hash_def
  internal_copy_code_def hc_copy_code_def
  hc_call_def
  internal_get_tx_context_def hc_get_tx_context_def
  internal_get_block_hash_def hc_get_block_hash_def
  internal_emit_log_def hc_emit_log_def
  internal_access_account_def hc_access_account_def
  internal_access_storage_def hc_access_storage_def
  get_interface_def make_host_context_def

lemma internal_call_forwards [host_simps]: "internal_call methods h mem msg = call methods h mem msg"
  by (cases "call methods h mem msg")
    (auto simp: internal_call_def result_release_raw_def result_dtor_def)

section \<open>Sequences of Host operations\<close>

text \<open>A call of one Host method, and its effect on the Host and the memory.\<close>

datatype host_op =
    Op_account_exists address | Op_get_storage address bytes32 | Op_set_storage address bytes32 bytes32
  | Op_get_balance address | Op_get_code_size address | Op_get_code_hash address
  | Op_copy_code address nat "u8 list" nat | Op_call qrvmc_message | Op_get_tx_context
  | Op_get_block_hash i64 | Op_emit_log address "u8 list" nat "bytes32 list" nat | Op_access_account address
  | Op_access_storage address bytes32

fun host_step :: "'s host_methods \<Rightarrow> host_op \<Rightarrow> 's \<times> heap \<Rightarrow> ('s \<times> heap) option" where
  "host_step m (Op_account_exists a) (s, h) = Some (snd (account_exists m s a), h)"
| "host_step m (Op_get_storage a k) (s, h) = Some (snd (get_storage m s a k), h)"
| "host_step m (Op_set_storage a k v) (s, h) = map_option (\<lambda>(st, s'). (s', h)) (set_storage m s a k v)"
| "host_step m (Op_get_balance a) (s, h) = Some (snd (get_balance m s a), h)"
| "host_step m (Op_get_code_size a) (s, h) = Some (snd (get_code_size m s a), h)"
| "host_step m (Op_get_code_hash a) (s, h) = Some (snd (get_code_hash m s a), h)"
| "host_step m (Op_copy_code a off buf n) (s, h) = map_option (\<lambda>(k, buf', s'). (s', h)) (copy_code m s a off buf n)"
| "host_step m (Op_call msg) (s, h) = map_option snd (call m s h msg)"
| "host_step m Op_get_tx_context (s, h) = Some (snd (get_tx_context m s), h)"
| "host_step m (Op_get_block_hash n) (s, h) = Some (snd (get_block_hash m s n), h)"
| "host_step m (Op_emit_log a d n ts k) (s, h) = map_option (\<lambda>s'. (s', h)) (emit_log m s a d n ts k)"
| "host_step m (Op_access_account a) (s, h) = Some (snd (access_account m s a), h)"
| "host_step m (Op_access_storage a k) (s, h) = Some (snd (access_storage m s a k), h)"

inductive host_runs :: "'s host_methods \<Rightarrow> 's \<times> heap \<Rightarrow> host_op list \<Rightarrow> 's \<times> heap \<Rightarrow> bool" for m where
  host_runs_nil: "host_runs m c [] c"
| host_runs_cons: "host_step m op c = Some c' \<Longrightarrow> host_runs m c' ops c'' \<Longrightarrow> host_runs m c (op # ops) c''"

inductive_simps host_runs_nil_iff [simp]: "host_runs m c [] c'"
inductive_simps host_runs_cons_iff: "host_runs m c (op # ops) c''"

section \<open>What a Host promises about storage\<close>

text \<open>
  \<open>val\<close> reads the storage of a Host state as a function of address and key. A \<^verbatim>\<open>set_storage\<close> changes
  the value at its own address and key and nothing else.
\<close>

locale storage_host =
  fixes getter :: "'s \<Rightarrow> address \<Rightarrow> bytes32 \<Rightarrow> bytes32 \<times> 's"
    and setter :: "'s \<Rightarrow> address \<Rightarrow> bytes32 \<Rightarrow> bytes32 \<Rightarrow> (qrvmc_storage_status \<times> 's) option"
    and val :: "'s \<Rightarrow> address \<Rightarrow> bytes32 \<Rightarrow> bytes32"
  assumes getter_val: "fst (getter s a k) = val s a k"
    and getter_frame: "val (snd (getter s a k)) = val s"
    and setter_val: "\<exists>st s'. setter s a k v = Some (st, s') \<and> val s' = (val s)(a := (val s a)(k := v))"

text \<open>A run of storage accesses: \<open>Inl\<close> reads, \<open>Inr\<close> writes; the result is what the reads returned.\<close>

type_synonym storage_access = "(address \<times> bytes32) + (address \<times> bytes32 \<times> bytes32)"

fun run_accesses ::
  "('s \<Rightarrow> address \<Rightarrow> bytes32 \<Rightarrow> bytes32 \<times> 's) \<Rightarrow>
   ('s \<Rightarrow> address \<Rightarrow> bytes32 \<Rightarrow> bytes32 \<Rightarrow> (qrvmc_storage_status \<times> 's) option) \<Rightarrow>
   storage_access list \<Rightarrow> 's \<Rightarrow> (bytes32 list \<times> 's) option" where
  "run_accesses getter setter [] s = Some ([], s)"
| "run_accesses getter setter (Inl (a, k) # xs) s =
     (case getter s a k of (v, s') \<Rightarrow>
        map_option (\<lambda>(vs, s''). (v # vs, s'')) (run_accesses getter setter xs s'))"
| "run_accesses getter setter (Inr (a, k, v) # xs) s =
     Option.bind (setter s a k v) (\<lambda>(st, s'). run_accesses getter setter xs s')"

text \<open>The same run on a plain two-level map.\<close>

fun map_accesses ::
  "storage_access list \<Rightarrow> (address \<Rightarrow> bytes32 \<Rightarrow> bytes32) \<Rightarrow> bytes32 list \<times> (address \<Rightarrow> bytes32 \<Rightarrow> bytes32)" where
  "map_accesses [] m = ([], m)"
| "map_accesses (Inl (a, k) # xs) m = (case map_accesses xs m of (vs, m') \<Rightarrow> (m a k # vs, m'))"
| "map_accesses (Inr (a, k, v) # xs) m = map_accesses xs (m(a := (m a)(k := v)))"

context storage_host
begin

theorem run_accesses_refines:
  "\<exists>s'. run_accesses getter setter xs s = Some (fst (map_accesses xs (val s)), s') \<and>
        val s' = snd (map_accesses xs (val s))"
proof (induction xs "val s" arbitrary: s rule: map_accesses.induct)
  case 1
  then show ?case by simp
next
  case (2 a k xs)
  obtain s' where g: "getter s a k = (val s a k, s')" using getter_val [of s a k] by (cases "getter s a k") auto
  then have "val s' = val s" using getter_frame [of s a k] by simp
  with 2 [of s'] g show ?case by (auto split: prod.splits)
next
  case (3 a k v xs)
  obtain st s' where w: "setter s a k v = Some (st, s')" "val s' = (val s)(a := (val s a)(k := v))"
    using setter_val by blast
  then show ?case using 3 [of s'] by auto
qed

lemma read_back:
  assumes "setter s a k v = Some (st, s')"
  shows "fst (getter s' a' k') = (if a' = a \<and> k' = k then v else fst (getter s a' k'))"
  using assms setter_val [of s a k v] by (auto simp: getter_val)

end

end
