(* ===== verification/Instructions.thy ===== *)
theory Instructions
  imports Qrvmc
begin

text \<open>
  The instruction tables: the enum of opcodes in \<^verbatim>\<open>instructions.h\<close>, the table of names of
  \<^verbatim>\<open>lib/instructions/instruction_names.c\<close> and the table of metrics of
  \<^verbatim>\<open>lib/instructions/instruction_metrics.c\<close>, each transcribed in two halves, and what makes the three
  consistent with one another.
\<close>

section \<open>Opcodes\<close>

text \<open>The enumerators with their values; the ones the example VM names are constants of their own.\<close>

definition qrvmc_opcode :: "(string \<times> nat) list" where
  "qrvmc_opcode = [
      (''OP_STOP'', 0x00), (''OP_ADD'', 0x01), (''OP_MUL'', 0x02), (''OP_SUB'', 0x03),
      (''OP_DIV'', 0x04), (''OP_SDIV'', 0x05), (''OP_MOD'', 0x06), (''OP_SMOD'', 0x07),
      (''OP_ADDMOD'', 0x08), (''OP_MULMOD'', 0x09), (''OP_EXP'', 0x0a), (''OP_SIGNEXTEND'', 0x0b),
      (''OP_LT'', 0x10), (''OP_GT'', 0x11), (''OP_SLT'', 0x12), (''OP_SGT'', 0x13),
      (''OP_EQ'', 0x14), (''OP_ISZERO'', 0x15), (''OP_AND'', 0x16), (''OP_OR'', 0x17),
      (''OP_XOR'', 0x18), (''OP_NOT'', 0x19), (''OP_BYTE'', 0x1a), (''OP_SHL'', 0x1b),
      (''OP_SHR'', 0x1c), (''OP_SAR'', 0x1d), (''OP_KECCAK256'', 0x20), (''OP_ADDRESS'', 0x30),
      (''OP_BALANCE'', 0x31), (''OP_ORIGIN'', 0x32), (''OP_CALLER'', 0x33),
      (''OP_CALLVALUE'', 0x34), (''OP_CALLDATALOAD'', 0x35), (''OP_CALLDATASIZE'', 0x36),
      (''OP_CALLDATACOPY'', 0x37), (''OP_CODESIZE'', 0x38), (''OP_CODECOPY'', 0x39),
      (''OP_GASPRICE'', 0x3a), (''OP_EXTCODESIZE'', 0x3b), (''OP_EXTCODECOPY'', 0x3c),
      (''OP_RETURNDATASIZE'', 0x3d), (''OP_RETURNDATACOPY'', 0x3e), (''OP_EXTCODEHASH'', 0x3f),
      (''OP_BLOCKHASH'', 0x40), (''OP_COINBASE'', 0x41), (''OP_TIMESTAMP'', 0x42),
      (''OP_NUMBER'', 0x43), (''OP_PREVRANDAO'', 0x44), (''OP_GASLIMIT'', 0x45),
      (''OP_CHAINID'', 0x46), (''OP_SELFBALANCE'', 0x47), (''OP_BASEFEE'', 0x48),
      (''OP_POP'', 0x50), (''OP_MLOAD'', 0x51), (''OP_MSTORE'', 0x52), (''OP_MSTORE8'', 0x53),
      (''OP_SLOAD'', 0x54), (''OP_SSTORE'', 0x55), (''OP_JUMP'', 0x56), (''OP_JUMPI'', 0x57),
      (''OP_PC'', 0x58), (''OP_MSIZE'', 0x59), (''OP_GAS'', 0x5a), (''OP_JUMPDEST'', 0x5b),
      (''OP_PUSH0'', 0x5f), (''OP_PUSH1'', 0x60), (''OP_PUSH2'', 0x61), (''OP_PUSH3'', 0x62),
      (''OP_PUSH4'', 0x63), (''OP_PUSH5'', 0x64), (''OP_PUSH6'', 0x65), (''OP_PUSH7'', 0x66),
      (''OP_PUSH8'', 0x67), (''OP_PUSH9'', 0x68), (''OP_PUSH10'', 0x69), (''OP_PUSH11'', 0x6a),
      (''OP_PUSH12'', 0x6b), (''OP_PUSH13'', 0x6c), (''OP_PUSH14'', 0x6d), (''OP_PUSH15'', 0x6e),
      (''OP_PUSH16'', 0x6f), (''OP_PUSH17'', 0x70), (''OP_PUSH18'', 0x71), (''OP_PUSH19'', 0x72),
      (''OP_PUSH20'', 0x73), (''OP_PUSH21'', 0x74), (''OP_PUSH22'', 0x75), (''OP_PUSH23'', 0x76),
      (''OP_PUSH24'', 0x77), (''OP_PUSH25'', 0x78), (''OP_PUSH26'', 0x79), (''OP_PUSH27'', 0x7a),
      (''OP_PUSH28'', 0x7b), (''OP_PUSH29'', 0x7c), (''OP_PUSH30'', 0x7d), (''OP_PUSH31'', 0x7e),
      (''OP_PUSH32'', 0x7f), (''OP_DUP1'', 0x80), (''OP_DUP2'', 0x81), (''OP_DUP3'', 0x82),
      (''OP_DUP4'', 0x83), (''OP_DUP5'', 0x84), (''OP_DUP6'', 0x85), (''OP_DUP7'', 0x86),
      (''OP_DUP8'', 0x87), (''OP_DUP9'', 0x88), (''OP_DUP10'', 0x89), (''OP_DUP11'', 0x8a),
      (''OP_DUP12'', 0x8b), (''OP_DUP13'', 0x8c), (''OP_DUP14'', 0x8d), (''OP_DUP15'', 0x8e),
      (''OP_DUP16'', 0x8f), (''OP_SWAP1'', 0x90), (''OP_SWAP2'', 0x91), (''OP_SWAP3'', 0x92),
      (''OP_SWAP4'', 0x93), (''OP_SWAP5'', 0x94), (''OP_SWAP6'', 0x95), (''OP_SWAP7'', 0x96),
      (''OP_SWAP8'', 0x97), (''OP_SWAP9'', 0x98), (''OP_SWAP10'', 0x99), (''OP_SWAP11'', 0x9a),
      (''OP_SWAP12'', 0x9b), (''OP_SWAP13'', 0x9c), (''OP_SWAP14'', 0x9d), (''OP_SWAP15'', 0x9e),
      (''OP_SWAP16'', 0x9f), (''OP_LOG0'', 0xa0), (''OP_LOG1'', 0xa1), (''OP_LOG2'', 0xa2),
      (''OP_LOG3'', 0xa3), (''OP_LOG4'', 0xa4), (''OP_CREATE'', 0xf0), (''OP_CALL'', 0xf1),
      (''OP_RETURN'', 0xf3), (''OP_DELEGATECALL'', 0xf4), (''OP_CREATE2'', 0xf5),
      (''OP_STATICCALL'', 0xfa), (''OP_REVERT'', 0xfd), (''OP_INVALID'', 0xfe)]"

abbreviation (input) OP_STOP :: nat where "OP_STOP \<equiv> 0x00"
abbreviation (input) OP_ADD :: nat where "OP_ADD \<equiv> 0x01"
abbreviation (input) OP_ADDRESS :: nat where "OP_ADDRESS \<equiv> 0x30"
abbreviation (input) OP_CALLDATALOAD :: nat where "OP_CALLDATALOAD \<equiv> 0x35"
abbreviation (input) OP_NUMBER :: nat where "OP_NUMBER \<equiv> 0x43"
abbreviation (input) OP_MSTORE :: nat where "OP_MSTORE \<equiv> 0x52"
abbreviation (input) OP_SLOAD :: nat where "OP_SLOAD \<equiv> 0x54"
abbreviation (input) OP_SSTORE :: nat where "OP_SSTORE \<equiv> 0x55"
abbreviation (input) OP_MSIZE :: nat where "OP_MSIZE \<equiv> 0x59"
abbreviation (input) OP_PUSH1 :: nat where "OP_PUSH1 \<equiv> 0x60"
abbreviation (input) OP_PUSH32 :: nat where "OP_PUSH32 \<equiv> 0x7f"
abbreviation (input) OP_DUP1 :: nat where "OP_DUP1 \<equiv> 0x80"
abbreviation (input) OP_CALL :: nat where "OP_CALL \<equiv> 0xf1"
abbreviation (input) OP_RETURN :: nat where "OP_RETURN \<equiv> 0xf3"
abbreviation (input) OP_REVERT :: nat where "OP_REVERT \<equiv> 0xfd"

section \<open>Names\<close>

definition shanghai_names_low :: "string option list" where
  "shanghai_names_low = [
      Some ''STOP'', Some ''ADD'', Some ''MUL'', Some ''SUB'', Some ''DIV'', Some ''SDIV'',
      Some ''MOD'', Some ''SMOD'', Some ''ADDMOD'', Some ''MULMOD'', Some ''EXP'',
      Some ''SIGNEXTEND'', None, None, None, None, Some ''LT'', Some ''GT'', Some ''SLT'',
      Some ''SGT'', Some ''EQ'', Some ''ISZERO'', Some ''AND'', Some ''OR'', Some ''XOR'',
      Some ''NOT'', Some ''BYTE'', Some ''SHL'', Some ''SHR'', Some ''SAR'', None, None,
      Some ''KECCAK256'', None, None, None, None, None, None, None, None, None, None, None, None,
      None, None, None, Some ''ADDRESS'', Some ''BALANCE'', Some ''ORIGIN'', Some ''CALLER'',
      Some ''CALLVALUE'', Some ''CALLDATALOAD'', Some ''CALLDATASIZE'', Some ''CALLDATACOPY'',
      Some ''CODESIZE'', Some ''CODECOPY'', Some ''GASPRICE'', Some ''EXTCODESIZE'',
      Some ''EXTCODECOPY'', Some ''RETURNDATASIZE'', Some ''RETURNDATACOPY'', Some ''EXTCODEHASH'',
      Some ''BLOCKHASH'', Some ''COINBASE'', Some ''TIMESTAMP'', Some ''NUMBER'',
      Some ''PREVRANDAO'', Some ''GASLIMIT'', Some ''CHAINID'', Some ''SELFBALANCE'',
      Some ''BASEFEE'', None, None, None, None, None, None, None, Some ''POP'', Some ''MLOAD'',
      Some ''MSTORE'', Some ''MSTORE8'', Some ''SLOAD'', Some ''SSTORE'', Some ''JUMP'',
      Some ''JUMPI'', Some ''PC'', Some ''MSIZE'', Some ''GAS'', Some ''JUMPDEST'', None, None,
      None, Some ''PUSH0'', Some ''PUSH1'', Some ''PUSH2'', Some ''PUSH3'', Some ''PUSH4'',
      Some ''PUSH5'', Some ''PUSH6'', Some ''PUSH7'', Some ''PUSH8'', Some ''PUSH9'',
      Some ''PUSH10'', Some ''PUSH11'', Some ''PUSH12'', Some ''PUSH13'', Some ''PUSH14'',
      Some ''PUSH15'', Some ''PUSH16'', Some ''PUSH17'', Some ''PUSH18'', Some ''PUSH19'',
      Some ''PUSH20'', Some ''PUSH21'', Some ''PUSH22'', Some ''PUSH23'', Some ''PUSH24'',
      Some ''PUSH25'', Some ''PUSH26'', Some ''PUSH27'', Some ''PUSH28'', Some ''PUSH29'',
      Some ''PUSH30'', Some ''PUSH31'', Some ''PUSH32'']"

definition shanghai_names_high :: "string option list" where
  "shanghai_names_high = [
      Some ''DUP1'', Some ''DUP2'', Some ''DUP3'', Some ''DUP4'', Some ''DUP5'', Some ''DUP6'',
      Some ''DUP7'', Some ''DUP8'', Some ''DUP9'', Some ''DUP10'', Some ''DUP11'', Some ''DUP12'',
      Some ''DUP13'', Some ''DUP14'', Some ''DUP15'', Some ''DUP16'', Some ''SWAP1'',
      Some ''SWAP2'', Some ''SWAP3'', Some ''SWAP4'', Some ''SWAP5'', Some ''SWAP6'',
      Some ''SWAP7'', Some ''SWAP8'', Some ''SWAP9'', Some ''SWAP10'', Some ''SWAP11'',
      Some ''SWAP12'', Some ''SWAP13'', Some ''SWAP14'', Some ''SWAP15'', Some ''SWAP16'',
      Some ''LOG0'', Some ''LOG1'', Some ''LOG2'', Some ''LOG3'', Some ''LOG4'', None, None, None,
      None, None, None, None, None, None, None, None, None, None, None, None, None, None, None,
      None, None, None, None, None, None, None, None, None, None, None, None, None, None, None,
      None, None, None, None, None, None, None, None, None, None, None, None, None, None, None,
      None, None, None, None, None, None, None, None, None, None, None, None, None, None, None,
      None, None, None, None, None, None, None, None, None, None, None, None, Some ''CREATE'',
      Some ''CALL'', None, Some ''RETURN'', Some ''DELEGATECALL'', Some ''CREATE2'', None, None,
      None, None, Some ''STATICCALL'', None, None, Some ''REVERT'', Some ''INVALID'', None]"

definition shanghai_names :: "string option list" where
  "shanghai_names = shanghai_names_low @ shanghai_names_high"

definition qrvmc_get_instruction_names_table :: "qrvmc_revision \<Rightarrow> string option list option" where
  "qrvmc_get_instruction_names_table revision =
     (if revision = QRVMC_SHANGHAI then Some shanghai_names else None)"

section \<open>Metrics\<close>

record qrvmc_instruction_metrics =
  gas_cost :: int
  stack_height_required :: int
  stack_height_change :: int

definition im :: "int \<Rightarrow> int \<Rightarrow> int \<Rightarrow> qrvmc_instruction_metrics" where
  "im g r c = \<lparr>gas_cost = g, stack_height_required = r, stack_height_change = c\<rparr>"

text \<open>The gas cost tiers.\<close>

definition ZERO :: int where "ZERO = 0"
definition BASE :: int where "BASE = 2"
definition VERYLOW :: int where "VERYLOW = 3"
definition LOW :: int where "LOW = 5"
definition MID :: int where "MID = 8"
definition HIGH :: int where "HIGH = 10"
definition UNDEFINED :: int where "UNDEFINED = ZERO"
definition WARM_STORAGE_READ_COST :: int where "WARM_STORAGE_READ_COST = 100"

definition shanghai_metrics_low :: "qrvmc_instruction_metrics list" where
  "shanghai_metrics_low = [
      im ZERO 0 0, im VERYLOW 2 (- 1), im LOW 2 (- 1), im VERYLOW 2 (- 1), im LOW 2 (- 1),
      im LOW 2 (- 1), im LOW 2 (- 1), im LOW 2 (- 1), im MID 3 (- 2), im MID 3 (- 2),
      im HIGH 2 (- 1), im LOW 2 (- 1), im UNDEFINED 0 0, im UNDEFINED 0 0, im UNDEFINED 0 0,
      im UNDEFINED 0 0, im VERYLOW 2 (- 1), im VERYLOW 2 (- 1), im VERYLOW 2 (- 1),
      im VERYLOW 2 (- 1), im VERYLOW 2 (- 1), im VERYLOW 1 0, im VERYLOW 2 (- 1),
      im VERYLOW 2 (- 1), im VERYLOW 2 (- 1), im VERYLOW 1 0, im VERYLOW 2 (- 1),
      im VERYLOW 2 (- 1), im VERYLOW 2 (- 1), im VERYLOW 2 (- 1), im UNDEFINED 0 0,
      im UNDEFINED 0 0, im 30 2 (- 1), im UNDEFINED 0 0, im UNDEFINED 0 0, im UNDEFINED 0 0,
      im UNDEFINED 0 0, im UNDEFINED 0 0, im UNDEFINED 0 0, im UNDEFINED 0 0, im UNDEFINED 0 0,
      im UNDEFINED 0 0, im UNDEFINED 0 0, im UNDEFINED 0 0, im UNDEFINED 0 0, im UNDEFINED 0 0,
      im UNDEFINED 0 0, im UNDEFINED 0 0, im BASE 0 1, im WARM_STORAGE_READ_COST 1 0, im BASE 0 1,
      im BASE 0 1, im BASE 0 1, im VERYLOW 1 0, im BASE 0 1, im VERYLOW 3 (- 3), im BASE 0 1,
      im VERYLOW 3 (- 3), im BASE 0 1, im WARM_STORAGE_READ_COST 1 0,
      im WARM_STORAGE_READ_COST 4 (- 4), im BASE 0 1, im VERYLOW 3 (- 3),
      im WARM_STORAGE_READ_COST 1 0, im 20 1 0, im BASE 0 1, im BASE 0 1, im BASE 0 1, im BASE 0 1,
      im BASE 0 1, im BASE 0 1, im LOW 0 1, im BASE 0 1, im UNDEFINED 0 0, im UNDEFINED 0 0,
      im UNDEFINED 0 0, im UNDEFINED 0 0, im UNDEFINED 0 0, im UNDEFINED 0 0, im UNDEFINED 0 0,
      im BASE 1 (- 1), im VERYLOW 1 0, im VERYLOW 2 (- 2), im VERYLOW 2 (- 2),
      im WARM_STORAGE_READ_COST 1 0, im 0 2 (- 2), im MID 1 (- 1), im HIGH 2 (- 2), im BASE 0 1,
      im BASE 0 1, im BASE 0 1, im 1 0 0, im UNDEFINED 0 0, im UNDEFINED 0 0, im UNDEFINED 0 0,
      im BASE 0 1, im VERYLOW 0 1, im VERYLOW 0 1, im VERYLOW 0 1, im VERYLOW 0 1, im VERYLOW 0 1,
      im VERYLOW 0 1, im VERYLOW 0 1, im VERYLOW 0 1, im VERYLOW 0 1, im VERYLOW 0 1,
      im VERYLOW 0 1, im VERYLOW 0 1, im VERYLOW 0 1, im VERYLOW 0 1, im VERYLOW 0 1,
      im VERYLOW 0 1, im VERYLOW 0 1, im VERYLOW 0 1, im VERYLOW 0 1, im VERYLOW 0 1,
      im VERYLOW 0 1, im VERYLOW 0 1, im VERYLOW 0 1, im VERYLOW 0 1, im VERYLOW 0 1,
      im VERYLOW 0 1, im VERYLOW 0 1, im VERYLOW 0 1, im VERYLOW 0 1, im VERYLOW 0 1,
      im VERYLOW 0 1, im VERYLOW 0 1]"

definition shanghai_metrics_high :: "qrvmc_instruction_metrics list" where
  "shanghai_metrics_high = [
      im VERYLOW 1 1, im VERYLOW 2 1, im VERYLOW 3 1, im VERYLOW 4 1, im VERYLOW 5 1,
      im VERYLOW 6 1, im VERYLOW 7 1, im VERYLOW 8 1, im VERYLOW 9 1, im VERYLOW 10 1,
      im VERYLOW 11 1, im VERYLOW 12 1, im VERYLOW 13 1, im VERYLOW 14 1, im VERYLOW 15 1,
      im VERYLOW 16 1, im VERYLOW 2 0, im VERYLOW 3 0, im VERYLOW 4 0, im VERYLOW 5 0,
      im VERYLOW 6 0, im VERYLOW 7 0, im VERYLOW 8 0, im VERYLOW 9 0, im VERYLOW 10 0,
      im VERYLOW 11 0, im VERYLOW 12 0, im VERYLOW 13 0, im VERYLOW 14 0, im VERYLOW 15 0,
      im VERYLOW 16 0, im VERYLOW 17 0, im (1 * 375) 2 (- 2), im (2 * 375) 3 (- 3),
      im (3 * 375) 4 (- 4), im (4 * 375) 5 (- 5), im (5 * 375) 6 (- 6), im UNDEFINED 0 0,
      im UNDEFINED 0 0, im UNDEFINED 0 0, im UNDEFINED 0 0, im UNDEFINED 0 0, im UNDEFINED 0 0,
      im UNDEFINED 0 0, im UNDEFINED 0 0, im UNDEFINED 0 0, im UNDEFINED 0 0, im UNDEFINED 0 0,
      im UNDEFINED 0 0, im UNDEFINED 0 0, im UNDEFINED 0 0, im UNDEFINED 0 0, im UNDEFINED 0 0,
      im UNDEFINED 0 0, im UNDEFINED 0 0, im UNDEFINED 0 0, im UNDEFINED 0 0, im UNDEFINED 0 0,
      im UNDEFINED 0 0, im UNDEFINED 0 0, im UNDEFINED 0 0, im UNDEFINED 0 0, im UNDEFINED 0 0,
      im UNDEFINED 0 0, im UNDEFINED 0 0, im UNDEFINED 0 0, im UNDEFINED 0 0, im UNDEFINED 0 0,
      im UNDEFINED 0 0, im UNDEFINED 0 0, im UNDEFINED 0 0, im UNDEFINED 0 0, im UNDEFINED 0 0,
      im UNDEFINED 0 0, im UNDEFINED 0 0, im UNDEFINED 0 0, im UNDEFINED 0 0, im UNDEFINED 0 0,
      im UNDEFINED 0 0, im UNDEFINED 0 0, im UNDEFINED 0 0, im UNDEFINED 0 0, im UNDEFINED 0 0,
      im UNDEFINED 0 0, im UNDEFINED 0 0, im UNDEFINED 0 0, im UNDEFINED 0 0, im UNDEFINED 0 0,
      im UNDEFINED 0 0, im UNDEFINED 0 0, im UNDEFINED 0 0, im UNDEFINED 0 0, im UNDEFINED 0 0,
      im UNDEFINED 0 0, im UNDEFINED 0 0, im UNDEFINED 0 0, im UNDEFINED 0 0, im UNDEFINED 0 0,
      im UNDEFINED 0 0, im UNDEFINED 0 0, im UNDEFINED 0 0, im UNDEFINED 0 0, im UNDEFINED 0 0,
      im UNDEFINED 0 0, im UNDEFINED 0 0, im UNDEFINED 0 0, im UNDEFINED 0 0, im UNDEFINED 0 0,
      im UNDEFINED 0 0, im UNDEFINED 0 0, im UNDEFINED 0 0, im UNDEFINED 0 0, im 32000 3 (- 2),
      im WARM_STORAGE_READ_COST 7 (- 6), im UNDEFINED 0 0, im ZERO 2 (- 2),
      im WARM_STORAGE_READ_COST 6 (- 5), im 32000 4 (- 3), im UNDEFINED 0 0, im UNDEFINED 0 0,
      im UNDEFINED 0 0, im UNDEFINED 0 0, im WARM_STORAGE_READ_COST 6 (- 5), im UNDEFINED 0 0,
      im UNDEFINED 0 0, im ZERO 2 (- 2), im ZERO 0 0, im UNDEFINED 0 0]"

definition shanghai_metrics :: "qrvmc_instruction_metrics list" where
  "shanghai_metrics = shanghai_metrics_low @ shanghai_metrics_high"

definition qrvmc_get_instruction_metrics_table ::
  "qrvmc_revision \<Rightarrow> qrvmc_instruction_metrics list option" where
  "qrvmc_get_instruction_metrics_table revision =
     (if revision = QRVMC_SHANGHAI then Some shanghai_metrics else None)"

section \<open>Consistency\<close>

text \<open>The name of the enumerator with a given value.\<close>

definition opcode_name :: "nat \<Rightarrow> string option" where
  "opcode_name n = map_of (map (\<lambda>(name, v). (v, name)) qrvmc_opcode) n"

lemma length_tables [simp]:
  "length shanghai_names = 256" "length shanghai_metrics = 256"
  by (simp_all add: shanghai_names_def shanghai_names_low_def shanghai_names_high_def
      shanghai_metrics_def shanghai_metrics_low_def shanghai_metrics_high_def)

text \<open>Enumerators in ascending order against the entries from index \<open>i\<close> on.\<close>

fun names_match :: "nat \<Rightarrow> string option list \<Rightarrow> (string \<times> nat) list \<Rightarrow> bool" where
  "names_match i [] ops \<longleftrightarrow> ops = []"
| "names_match i (x # xs) [] \<longleftrightarrow> x = None \<and> names_match (i + 1) xs []"
| "names_match i (x # xs) ((n, v) # ops) \<longleftrightarrow>
     (if v = i then x = Some (drop 3 n) \<and> names_match (i + 1) xs ops
      else i < v \<and> x = None \<and> names_match (i + 1) xs ((n, v) # ops))"

lemma names_match_ge: "names_match i xs ops \<Longrightarrow> (n, v) \<in> set ops \<Longrightarrow> i \<le> v"
  by (induction i xs ops rule: names_match.induct) (fastforce split: if_splits)+

lemma names_match_map_of:
  "names_match i xs ops \<Longrightarrow>
   xs = map (\<lambda>j. map_option (drop 3) (map_of (map (\<lambda>(n, v). (v, n)) ops) j)) [i..<i + length xs]"
proof (induction i xs ops rule: names_match.induct)
  case (3 i x xs n v ops)
  define entry where "entry os j = map_option (drop 3) (map_of (map (\<lambda>(n :: string, v). (v, n)) os) j)"
    for os and j :: nat
  have up: "[i..<i + length (x # xs)] = i # [i + 1..<i + 1 + length xs]"
    by (simp add: upt_conv_Cons del: upt_Suc)
  have "x # xs = map (entry ((n, v) # ops)) (i # [i + 1..<i + 1 + length xs])"
  proof (cases "v = i")
    case True
    have m: "names_match (i + 1) xs ops" and x: "x = entry ((n, v) # ops) i"
      using 3(3) True by (simp_all add: entry_def)
    have "xs = map (entry ops) [i + 1..<i + 1 + length xs]"
      using 3(1) [OF True m] by (simp only: entry_def [abs_def])
    also have "\<dots> = map (entry ((n, v) # ops)) [i + 1..<i + 1 + length xs]"
      using True by (intro map_cong) (auto simp: entry_def)
    finally show ?thesis unfolding list.map by (rule arg_cong2 [where f = Cons, OF x])
  next
    case False
    have none: "x = None" and m: "names_match (i + 1) xs ((n, v) # ops)"
      using 3(3) False by (simp_all only: names_match.simps if_False)
    from names_match_ge [OF m] have "i \<notin> fst ` set (map (\<lambda>(n, v). (v, n)) ((n, v) # ops))"
      by fastforce
    then have "map_of (map (\<lambda>(n, v). (v, n)) ((n, v) # ops)) i = None"
      by (simp only: map_of_eq_None_iff not_False_eq_True)
    then have x: "x = entry ((n, v) # ops) i" by (simp only: none entry_def option.map)
    have "xs = map (entry ((n, v) # ops)) [i + 1..<i + 1 + length xs]"
      using 3(2) [OF False m] by (simp only: entry_def [abs_def])
    then show ?thesis unfolding list.map by (rule arg_cong2 [where f = Cons, OF x])
  qed
  then show ?case unfolding up entry_def .
next
  case (2 i x xs)
  have up: "[i..<i + length (x # xs)] = i # [i + 1..<i + 1 + length xs]"
    by (simp add: upt_conv_Cons del: upt_Suc)
  have x: "x = map_option (drop 3) (map_of (map (\<lambda>(n, v). (v, n)) []) i)" and m: "names_match (i + 1) xs []"
    using 2(2) by simp_all
  show ?case unfolding up list.map(2) by (rule arg_cong2 [where f = Cons, OF x 2(1) [OF m]])
qed simp

lemma names_checked: "names_match 0 shanghai_names qrvmc_opcode"
  by (simp add: shanghai_names_def shanghai_names_low_def shanghai_names_high_def qrvmc_opcode_def)

lemma names_table: "shanghai_names = map (\<lambda>i. map_option (drop 3) (opcode_name i)) [0..<256]"
  using names_match_map_of [OF names_checked] by (simp add: opcode_name_def [abs_def])

text \<open>The name table and the enum agree. The entry at an index is the name of the enumerator with
  that value, without its \<^verbatim>\<open>OP_\<close>, and the null pointer where there is none; the table has 256 entries
  and is returned for Shanghai and for no other revision number.\<close>

theorem instruction_names_are_opcodes:
  "qrvmc_get_instruction_names_table revision =
     (if revision = QRVMC_SHANGHAI
      then Some (map (\<lambda>i. map_option (drop 3) (opcode_name i)) [0..<256]) else None)"
  by (simp only: qrvmc_get_instruction_names_table_def names_table)

definition metrics_ok :: "qrvmc_instruction_metrics \<Rightarrow> string option \<Rightarrow> bool" where
  "metrics_ok m name \<longleftrightarrow>
     0 \<le> gas_cost m \<and> 0 \<le> stack_height_required m \<and>
     0 \<le> stack_height_required m + stack_height_change m \<and> stack_height_change m \<le> 1 \<and>
     (name = None \<longrightarrow> m = im 0 0 0)"

lemma metrics_checked: "list_all2 metrics_ok shanghai_metrics shanghai_names"
  by (simp add: shanghai_names_def shanghai_names_low_def shanghai_names_high_def metrics_ok_def
      shanghai_metrics_def shanghai_metrics_low_def shanghai_metrics_high_def im_def
      ZERO_def BASE_def VERYLOW_def LOW_def MID_def HIGH_def UNDEFINED_def WARM_STORAGE_READ_COST_def)

text \<open>The metrics are those of a stack machine. No instruction has a negative cost, leaves the stack
  below empty or grows it by more than one item, and undefined ones are all zero; and the families
  follow their pattern: \<^verbatim>\<open>PUSH0\<close> to \<^verbatim>\<open>PUSH32\<close> push, \<^verbatim>\<open>DUPn\<close> needs \<open>n\<close> items and pushes, \<^verbatim>\<open>SWAPn\<close> needs \<open>n + 1\<close>
  and keeps the height, \<^verbatim>\<open>LOGn\<close> costs \<open>375 * (n + 1)\<close> and pops \<open>n + 2\<close>.\<close>

theorem instruction_metrics_sound:
  "list_all2 metrics_ok shanghai_metrics shanghai_names \<and>
   take 33 (drop 0x5f shanghai_metrics) = im BASE 0 1 # replicate 32 (im VERYLOW 0 1) \<and>
   take 16 (drop 0x80 shanghai_metrics) = map (\<lambda>n. im VERYLOW (int n) 1) [1..<17] \<and>
   take 16 (drop 0x90 shanghai_metrics) = map (\<lambda>n. im VERYLOW (int n + 1) 0) [1..<17] \<and>
   take 5 (drop 0xa0 shanghai_metrics) = map (\<lambda>n. im (375 * (int n + 1)) (int n + 2) (- (int n + 2))) [0..<5]"
proof -
  have "take 33 (drop 0x5f shanghai_metrics) = im BASE 0 1 # replicate 32 (im VERYLOW 0 1)"
    and "take 16 (drop 0x80 shanghai_metrics) = map (\<lambda>n. im VERYLOW (int n) 1) [1..<17]"
    and "take 16 (drop 0x90 shanghai_metrics) = map (\<lambda>n. im VERYLOW (int n + 1) 0) [1..<17]"
    and "take 5 (drop 0xa0 shanghai_metrics) =
      map (\<lambda>n. im (375 * (int n + 1)) (int n + 2) (- (int n + 2))) [0..<5]"
    by code_simp+
  with metrics_checked show ?thesis by blast
qed

text \<open>The metrics of one opcode.\<close>

definition opcode_metrics :: "nat \<Rightarrow> qrvmc_instruction_metrics" where
  "opcode_metrics n = shanghai_metrics ! n"

end
