(* ===== verification/Hex.thy ===== *)
theory Hex
  imports Bytes
begin

text \<open>
  \<^verbatim>\<open>include/qrvmc/hex.hpp\<close> and \<^verbatim>\<open>include/qrvmc/filter_iterator.hpp\<close>: encoding bytes as hex, the decoding
  loop shared by every decoder, the decoders into byte strings and into fixed-size types, and the
  whitespace-skipping iterator. The loop is the code's state machine over the index, the pending
  high nibble and the output iterator; \<open>hex_spec\<close> is what it is for, and the theorems relate them.
  The elements an input iterator yields are the list the loop runs over, and the bytes it writes
  through the output iterator are the list it returns.
\<close>

section \<open>Characters\<close>

text \<open>\<^verbatim>\<open>char\<close> is a signed byte on the supported targets.\<close>

definition char_byte :: "char \<Rightarrow> u8" where
  "char_byte c = of_char c"

definition char_int :: "char \<Rightarrow> int" where
  "char_int c = sint (char_byte c)"

definition isspace :: "char \<Rightarrow> bool" where
  "isspace ch \<longleftrightarrow>
     ch = CHR '' '' \<or> (scast (char_byte ch) :: u32) - word_of_int (char_int (CHR 0x09)) < 5"

definition is_not_space :: "char \<Rightarrow> bool" where
  "is_not_space ch \<longleftrightarrow> \<not> isspace ch"

definition from_hex_digit :: "char \<Rightarrow> int" where
  "from_hex_digit h =
     (if char_int h \<ge> char_int (CHR ''0'') \<and> char_int h \<le> char_int (CHR ''9'')
      then char_int h - char_int (CHR ''0'')
      else if char_int h \<ge> char_int (CHR ''a'') \<and> char_int h \<le> char_int (CHR ''f'')
      then char_int h - char_int (CHR ''a'') + 10
      else if char_int h \<ge> char_int (CHR ''A'') \<and> char_int h \<le> char_int (CHR ''F'')
      then char_int h - char_int (CHR ''A'') + 10
      else -1)"

lemma isspace_iff:
  "isspace ch \<longleftrightarrow>
     ch \<in> {CHR '' '', CHR 0x09, CHR 0x0A, CHR 0x0B, CHR 0x0C, CHR 0x0D}"
proof -
  have "\<forall>ch. isspace ch = (ch \<in> {CHR '' '', CHR 0x09, CHR 0x0A, CHR 0x0B, CHR 0x0C, CHR 0x0D})"
    by code_simp
  then show ?thesis by blast
qed

text \<open>The value of a hex digit as a table, which \<^verbatim>\<open>from_hex_digit\<close> computes for every character.\<close>

definition hex_digits :: string where
  "hex_digits = ''0123456789abcdef''"

definition hex_value :: "char \<Rightarrow> nat option" where
  "hex_value = map_of (zip (hex_digits @ ''ABCDEF'') ([0..<16] @ [10..<16]))"

lemma from_hex_digit_eq:
  "from_hex_digit h = (case hex_value h of None \<Rightarrow> -1 | Some n \<Rightarrow> int n)"
proof -
  have "\<forall>h. from_hex_digit h = (case hex_value h of None \<Rightarrow> -1 | Some n \<Rightarrow> int n)"
    by code_simp
  then show ?thesis by blast
qed

lemma hex_value_less: "hex_value h = Some n \<Longrightarrow> n < 16"
  by (drule map_of_SomeD [OF hex_value_def [THEN fun_cong, THEN sym, THEN trans]])
    (auto dest!: set_zip_rightD)

lemma hex_value_digit: "n < 16 \<Longrightarrow> hex_value (hex_digits ! n) = Some n"
proof -
  assume "n < 16"
  moreover have "\<forall>n \<in> {0..<16}. hex_value (hex_digits ! n) = Some n"
    by code_simp
  ultimately show ?thesis by simp
qed

lemma hex_value_x [simp]: "hex_value (CHR ''x'') = None"
  by code_simp

lemma hex_value_0_iff: "hex_value h = Some 0 \<longleftrightarrow> h = CHR ''0''"
proof -
  have "\<forall>h. (hex_value h = Some 0) = (h = CHR ''0'')"
    by code_simp
  then show ?thesis by blast
qed

section \<open>Encoding\<close>

definition hex_byte :: "u8 \<Rightarrow> string" where
  "hex_byte b = [hex_digits ! unat (drop_bit 4 b), hex_digits ! unat (b AND 0xf)]"

fun hex_loop :: "u8 list \<Rightarrow> string \<Rightarrow> string" where
  "hex_loop [] str = str"
| "hex_loop (b # bs) str = hex_loop bs (str @ hex_byte b)"

definition hex :: "u8 list \<Rightarrow> string" where
  "hex bs = hex_loop bs []"

section \<open>The decoding loop\<close>

fun from_hex_loop :: "string \<Rightarrow> nat \<Rightarrow> int \<Rightarrow> u8 list \<Rightarrow> bool \<times> u8 list" where
  "from_hex_loop [] i hi_nibble out = (i mod 2 = 0, out)"
| "from_hex_loop (h # it) i hi_nibble out =
     (let v = from_hex_digit h in
      if v < 0 then
        (if i = 1 \<and> hi_nibble = 0 \<and> h = CHR ''x''
         then from_hex_loop it (i + 1) hi_nibble out
         else (False, out))
      else if i mod 2 = 0 then from_hex_loop it (i + 1) (push_bit 4 v) out
      else from_hex_loop it (i + 1) hi_nibble (out @ [word_of_int (hi_nibble OR v)]))"

text \<open>The loop from its initial state: the pending nibble is \<^verbatim>\<open>-1\<close> and nothing is written.\<close>

definition from_hex_range :: "string \<Rightarrow> bool \<times> u8 list" where
  "from_hex_range s = from_hex_loop s 0 (-1) []"

definition validate_hex :: "string \<Rightarrow> bool" where
  "validate_hex s = fst (from_hex_range s)"

definition from_hex :: "string \<Rightarrow> u8 list option" where
  "from_hex s = (let (ok, bs) = from_hex_range s in if ok then Some bs else None)"

text \<open>
  The decoders into a type \<^verbatim>\<open>T\<close> with an array \<^verbatim>\<open>bytes\<close> write through the pointer
  \<^verbatim>\<open>&r.bytes[num_out_bytes - num_in_bytes]\<close>. The outer option is \<^const>\<open>None\<close> when a write falls
  outside the array, on a failing run too; the inner one is the function's result.
\<close>

definition from_hex_into :: "string \<Rightarrow> (('n::len) barray option) option" where
  "from_hex_into s =
     (let num_out_bytes = LENGTH('n);
          num_in_bytes = length s div 2
      in if num_in_bytes > num_out_bytes then Some None
         else do {
           let (ok, out) = from_hex_range s;
           r \<leftarrow> copy_into (bytes (0 :: 'n barray)) (num_out_bytes - num_in_bytes) out;
           Some (if ok then Some (barray_init r) else None)
         })"

definition from_hex_T :: "string \<Rightarrow> (('n::len) barray option) option" where
  "from_hex_T s =
     from_hex_into (if length s \<ge> 2 \<and> s ! 0 = CHR ''0'' \<and> s ! 1 = CHR ''x'' then drop 2 s else s)"

definition from_prefixed_hex :: "string \<Rightarrow> string \<Rightarrow> (('n::len) barray option) option" where
  "from_prefixed_hex s prefix =
     (if s \<noteq> [] then
        (if take (length prefix) s \<noteq> prefix then Some None
         else from_hex_into (drop (length prefix) s))
      else from_hex_into s)"

section \<open>What the loop decodes\<close>

fun hex_pairs :: "string \<Rightarrow> u8 list option" where
  "hex_pairs [] = Some []"
| "hex_pairs [a] = None"
| "hex_pairs (a # b # cs) = do {
     hi \<leftarrow> hex_value a;
     lo \<leftarrow> hex_value b;
     bs \<leftarrow> hex_pairs cs;
     Some (of_nat (16 * hi + lo) # bs)
   }"

text \<open>An optional \<^verbatim>\<open>0x\<close>, then pairs of hex digits.\<close>

definition has_0x :: "string \<Rightarrow> bool" where
  "has_0x s \<longleftrightarrow> take 2 s = ''0x''"

definition hex_spec :: "string \<Rightarrow> u8 list option" where
  "hex_spec s = hex_pairs (if has_0x s then drop 2 s else s)"

lemma nibbles_or:
  assumes "b < 16"
  shows "push_bit 4 (int a) OR int b = int (16 * a + b)"
proof -
  have "\<not> bit (int b) n" if "4 \<le> n" for n
  proof -
    have "int b = take_bit 4 (int b)"
      using assms by (simp add: take_bit_int_eq_self)
    then show ?thesis using that by (metis bit_take_bit_iff not_le)
  qed
  then have "push_bit 4 (int a) AND int b = 0"
    by (intro bit_eqI) (auto simp: bit_and_iff bit_push_bit_iff)
  then show ?thesis
    by (simp add: disjunctive_add_eq_or [symmetric] push_bit_eq_mult)
qed

lemma nibbles_byte:
  assumes "hex_value a = Some hi" and "hex_value b = Some lo"
  shows "word_of_int (push_bit 4 (int hi) OR int lo) = (of_nat (16 * hi + lo) :: u8)"
  by (simp only: nibbles_or [OF hex_value_less [OF assms(2)]]) simp

text \<open>One pair of characters, at an even index.\<close>

lemma loop_pair:
  assumes "even i"
  shows "from_hex_loop (a # b # cs) i hi_nibble out =
    (case hex_value a of
       None \<Rightarrow> (False, out)
     | Some hi \<Rightarrow>
         (case hex_value b of
            None \<Rightarrow>
              (if i = 0 \<and> hi = 0 \<and> b = CHR ''x'' then from_hex_loop cs 2 0 out else (False, out))
          | Some lo \<Rightarrow> from_hex_loop cs (i + 2) (push_bit 4 (int hi)) (out @ [of_nat (16 * hi + lo)])))"
proof -
  have par: "i mod 2 = 0" "(i + 1) mod 2 = 1" and one: "i + 1 = 1 \<longleftrightarrow> i = 0"
    using assms by (auto elim: evenE)
  have zero: "push_bit 4 (int hi) = 0 \<longleftrightarrow> hi = 0" for hi
    by (simp add: push_bit_eq_mult)
  have two: "i + 1 + 1 = i + 2" by simp
  show ?thesis
    by (cases "hex_value a"; cases "hex_value b")
      (simp_all only: from_hex_loop.simps from_hex_digit_eq Let_def par one zero two nibbles_byte
        option.case neg_less_0_iff_less zero_less_one of_nat_less_0_iff if_True if_False simp_thms
        assms zero_neq_one [symmetric], use assms in \<open>auto simp: numeral_2_eq_2\<close>)
qed

lemma loop_single:
  "even i \<Longrightarrow> from_hex_loop [a] i hi_nibble out = (False, out)"
  by (auto simp: Let_def)

lemma loop_pairs:
  assumes "even i" and "2 \<le> i"
  shows "case hex_pairs s of
           Some bs \<Rightarrow> from_hex_loop s i hi_nibble out = (True, out @ bs) \<and> 2 * length bs = length s
         | None \<Rightarrow> \<exists>bs. from_hex_loop s i hi_nibble out = (False, out @ bs) \<and> 2 * length bs \<le> length s"
  using assms
proof (induction s arbitrary: i hi_nibble out rule: hex_pairs.induct)
  case 1
  then show ?case by simp
next
  case (2 a)
  then show ?case by (simp only: loop_single hex_pairs.simps option.case) auto
next
  case (3 a b cs)
  show ?case
  proof (cases "hex_value a")
    case None
    with 3 show ?thesis by (simp add: loop_pair del: from_hex_loop.simps)
  next
    case (Some hi)
    show ?thesis
    proof (cases "hex_value b")
      case None
      with Some 3 show ?thesis by (simp add: loop_pair del: from_hex_loop.simps)
    next
      case lo: (Some lo)
      have "even (i + 2)" "2 \<le> i + 2" using 3 by simp_all
      from 3(1) [OF Some lo this, of "push_bit 4 (int hi)" "out @ [of_nat (16 * hi + lo)]"] Some lo 3(2)
      show ?thesis
        by (auto simp: loop_pair simp del: from_hex_loop.simps split: option.splits)
    qed
  qed
qed

lemma has_0x_simps [simp]:
  "\<not> has_0x []" "\<not> has_0x [a]" "has_0x (a # b # cs) \<longleftrightarrow> a = CHR ''0'' \<and> b = CHR ''x''"
  by (simp_all add: has_0x_def)

lemma from_hex_range_spec:
  "case hex_spec s of
     Some bs \<Rightarrow> from_hex_range s = (True, bs) \<and> 2 * length bs + (if has_0x s then 2 else 0) = length s
   | None \<Rightarrow> \<exists>bs. from_hex_range s = (False, bs) \<and> 2 * length bs \<le> length s"
proof (cases s rule: hex_pairs.cases)
  case 1
  then show ?thesis by (simp add: hex_spec_def from_hex_range_def)
next
  case (2 a)
  then show ?thesis
    by (simp add: hex_spec_def from_hex_range_def loop_single del: from_hex_loop.simps)
next
  case (3 a b cs)
  have start: "from_hex_range s = (case hex_value a of
      None \<Rightarrow> (False, [])
    | Some hi \<Rightarrow> (case hex_value b of
        None \<Rightarrow> (if hi = 0 \<and> b = CHR ''x'' then from_hex_loop cs 2 0 [] else (False, []))
      | Some lo \<Rightarrow> from_hex_loop cs 2 (push_bit 4 (int hi)) [of_nat (16 * hi + lo)]))"
    unfolding 3 from_hex_range_def by (subst loop_pair) (auto simp: numeral_2_eq_2 split: option.splits)
  show ?thesis
  proof (cases "hex_value a")
    case None
    then have "a \<noteq> CHR ''0''" by (auto simp: hex_value_0_iff [symmetric])
    with None 3 start show ?thesis by (auto simp: hex_spec_def)
  next
    case hi: (Some hi)
    show ?thesis
    proof (cases "hex_value b")
      case None
      have "hi = 0 \<longleftrightarrow> a = CHR ''0''" using hi hex_value_0_iff [of a] by auto
      with None hi 3 start loop_pairs [of 2 cs 0 "[]"] show ?thesis
        by (auto simp: hex_spec_def split: option.splits)
    next
      case (Some lo)
      then have "b \<noteq> CHR ''x''" by auto
      with Some hi 3 start loop_pairs [of 2 cs "push_bit 4 (int hi)" "[of_nat (16 * hi + lo)]"]
      show ?thesis by (auto simp: hex_spec_def split: option.splits)
    qed
  qed
qed

lemma from_hex_range_length: "2 * length (snd (from_hex_range s)) \<le> length s"
  using from_hex_range_spec [of s] by (auto split: option.splits)

lemma from_hex_eq_spec: "from_hex s = hex_spec s"
  using from_hex_range_spec [of s] by (auto simp: from_hex_def split: option.splits)

lemma validate_hex_iff: "validate_hex s \<longleftrightarrow> from_hex s \<noteq> None"
  by (simp add: validate_hex_def from_hex_def split: prod.splits)

section \<open>Encoding and decoding\<close>

lemma hex_loop_eq: "hex_loop bs str = str @ concat (map hex_byte bs)"
  by (induction bs arbitrary: str) simp_all

lemma hex_Nil [simp]: "hex [] = []"
  by (simp add: hex_def)

lemma hex_Cons [simp]: "hex (b # bs) = hex_byte b @ hex bs"
  by (simp add: hex_def hex_loop_eq)

lemma hex_append: "hex (xs @ ys) = hex xs @ hex ys"
  by (induction xs) simp_all

lemma length_hex [simp]: "length (hex bs) = 2 * length bs"
  by (induction bs) (simp_all add: hex_byte_def)

lemma unat_low_nibble: "unat (b AND 0xf :: u8) = unat b mod 16"
proof -
  have "b AND 0xf = take_bit 4 b"
    by (simp add: take_bit_eq_mask mask_eq_exp_minus_1)
  then have "unat (b AND 0xf) = take_bit 4 (unat b)"
    by (simp only: unsigned_take_bit_eq)
  then show ?thesis by (simp add: take_bit_eq_mod)
qed

lemma hex_pairs_hex: "hex_pairs (hex bs @ cs) = map_option (append bs) (hex_pairs cs)"
proof (induction bs)
  case Nil
  then show ?case by (simp add: option.map_id0 [unfolded id_def])
next
  case (Cons b bs)
  have hi: "hex_value (hex_digits ! unat (drop_bit 4 b)) = Some (unat b div 16)"
    using unat_u8_less [of b] by (subst hex_value_digit) (simp_all add: unat_drop_bit)
  have lo: "hex_value (hex_digits ! unat (b AND 0xf)) = Some (unat b mod 16)"
    by (subst hex_value_digit) (simp_all add: unat_low_nibble)
  have "(of_nat (16 * (unat b div 16) + unat b mod 16) :: u8) = b"
    by (simp only: mult_div_mod_eq of_nat_unat ucast_id)
  with Cons show ?case
    by (cases "hex_pairs cs") (simp_all add: hex_byte_def hi lo del: of_nat_add of_nat_mult)
qed

lemma hex_no_0x:
  assumes "bs \<noteq> []"
  shows "\<not> has_0x (hex bs @ cs)"
proof -
  obtain b bs' where "bs = b # bs'" using assms by (cases bs) auto
  moreover have "hex_digits ! unat (b AND 0xf) \<noteq> CHR ''x''"
  proof
    assume "hex_digits ! unat (b AND 0xf) = CHR ''x''"
    moreover have "unat (b AND 0xf) < 16" by (simp add: unat_low_nibble)
    ultimately show False using hex_value_digit [of "unat (b AND 0xf)"] by simp
  qed
  ultimately show ?thesis by (simp add: hex_byte_def)
qed

lemma hex_spec_hex: "hex_spec (hex bs) = Some bs" "hex_spec (''0x'' @ hex bs) = Some bs"
  using hex_pairs_hex [of bs "[]"] hex_no_0x [of bs "[]"] by (cases bs; simp add: hex_spec_def)+

lemma from_hex_into_eq:
  "(from_hex_into s :: ('n::len) barray option option) = Some
     (if LENGTH('n) < length s div 2 then None
      else map_option (\<lambda>bs. barray_init (replicate (LENGTH('n) - length s div 2) 0 @ bs)) (hex_spec s))"
proof (cases "LENGTH('n) < length s div 2")
  case True
  then show ?thesis by (simp add: from_hex_into_def)
next
  case False
  obtain ok out where r: "from_hex_range s = (ok, out)" by fastforce
  let ?k = "LENGTH('n) - length s div 2"
  have len: "?k + length out \<le> LENGTH('n)"
    using from_hex_range_length [of s] False r by simp
  have zeros: "patch (replicate LENGTH('n) 0) ?k out =
      (replicate ?k 0 @ out) @ replicate (LENGTH('n) - (?k + length out)) 0"
    using len by (simp add: patch_def)
  have "from_hex_into s =
      Some (if ok then Some (barray_init (replicate ?k 0 @ out) :: 'n barray) else None)"
    using False len by (simp add: from_hex_into_def r copy_into_def zeros
        barray_init_trailing_zeros [of "replicate ?k 0 @ out"] flip: append_assoc)
  then show ?thesis
    using False r from_hex_range_spec [of s] by (auto split: option.splits)
qed

lemma has_0x_take: "(length s \<ge> 2 \<and> s ! 0 = CHR ''0'' \<and> s ! 1 = CHR ''x'') = has_0x s"
  by (cases s rule: hex_pairs.cases) simp_all

lemma from_hex_T_eq:
  "from_hex_T s = from_hex_into (if has_0x s then drop 2 s else s)"
  by (simp only: from_hex_T_def has_0x_take)

lemma from_prefixed_hex_prefix:
  "prefix \<noteq> [] \<Longrightarrow> from_prefixed_hex (prefix @ s) prefix = from_hex_into s"
  by (simp add: from_prefixed_hex_def)

lemma uint_of_left_padded:
  assumes "length bs \<le> LENGTH('n::len)"
  shows "uint_of (barray_init (replicate (LENGTH('n) - length bs) 0 @ bs) :: 'n barray) = be_val bs"
  using assms by (simp add: uint_of_def bytes_init_full be_val_append)

section \<open>The whitespace-skipping iterator\<close>

text \<open>
  \<^verbatim>\<open>filter_iterator\<close>: the position \<^verbatim>\<open>base\<close> is the list of the elements from it to \<^verbatim>\<open>base_end\<close>, so
  comparing with the end iterator asks whether it is empty; \<^verbatim>\<open>value\<close> is the cached element.
\<close>

record filter_iterator =
  fi_base :: string
  fi_value :: char

fun forward_to_next_value :: "(char \<Rightarrow> bool) \<Rightarrow> string \<Rightarrow> char \<Rightarrow> filter_iterator" where
  "forward_to_next_value pred [] v = \<lparr>fi_base = [], fi_value = v\<rparr>"
| "forward_to_next_value pred (c # cs) v =
     (if pred c then \<lparr>fi_base = c # cs, fi_value = c\<rparr> else forward_to_next_value pred cs c)"

text \<open>The constructor leaves \<^verbatim>\<open>value\<close> uninitialised until the first element is read; \<open>v\<close> is what it holds.\<close>

definition make_filter_iterator :: "(char \<Rightarrow> bool) \<Rightarrow> string \<Rightarrow> char \<Rightarrow> filter_iterator" where
  "make_filter_iterator pred it v = forward_to_next_value pred it v"

definition fi_deref :: "filter_iterator \<Rightarrow> char" where
  "fi_deref it = fi_value it"

definition fi_next :: "(char \<Rightarrow> bool) \<Rightarrow> filter_iterator \<Rightarrow> filter_iterator" where
  "fi_next pred it = forward_to_next_value pred (tl (fi_base it)) (fi_value it)"

definition fi_ne :: "filter_iterator \<Rightarrow> filter_iterator \<Rightarrow> bool" where
  "fi_ne a b \<longleftrightarrow> fi_base a \<noteq> fi_base b"

lemma length_forward: "length (fi_base (forward_to_next_value pred cs v)) \<le> length cs"
  by (induction pred cs v rule: forward_to_next_value.induct) (simp_all add: le_SucI)

text \<open>The elements a loop \<^verbatim>\<open>for (it = begin; it != end; ++it)\<close> reads.\<close>

function fi_elements :: "(char \<Rightarrow> bool) \<Rightarrow> filter_iterator \<Rightarrow> filter_iterator \<Rightarrow> string" where
  "fi_elements pred it end_it =
     (if fi_ne it end_it \<and> fi_base it \<noteq> []
      then fi_deref it # fi_elements pred (fi_next pred it) end_it else [])"
  by pat_completeness auto
termination
  by (relation "measure (\<lambda>(pred, it, end_it). length (fi_base it))")
    (auto simp: fi_next_def intro!: le_less_trans [OF length_forward])

declare fi_elements.simps [simp del]

definition from_spaced_hex :: "char \<Rightarrow> string \<Rightarrow> u8 list option" where
  "from_spaced_hex v s =
     (let (ok, bs) = from_hex_range
            (fi_elements is_not_space (make_filter_iterator is_not_space s v)
              (make_filter_iterator is_not_space [] v))
      in if ok then Some bs else None)"

lemma fi_base_forward: "fi_base (forward_to_next_value pred cs v) = dropWhile (\<lambda>c. \<not> pred c) cs"
  by (induction pred cs v rule: forward_to_next_value.induct) simp_all

lemma fi_value_forward:
  "dropWhile (\<lambda>c. \<not> pred c) cs = d # ds \<Longrightarrow> fi_value (forward_to_next_value pred cs v) = d"
  by (induction pred cs v rule: forward_to_next_value.induct) (auto split: if_splits)

lemma fi_elements_forward:
  "fi_elements pred (forward_to_next_value pred cs v) (forward_to_next_value pred [] w) = filter pred cs"
proof (induction "length cs" arbitrary: cs v rule: less_induct)
  case less
  show ?case
  proof (cases "dropWhile (\<lambda>c. \<not> pred c) cs")
    case Nil
    then have "filter pred cs = []"
      by (simp add: filter_empty_conv)
    with Nil show ?thesis
      by (subst fi_elements.simps) (simp add: fi_base_forward)
  next
    case (Cons d ds)
    have d: "pred d" using Cons hd_dropWhile [of "\<lambda>c. \<not> pred c" cs] by auto
    have "filter pred (takeWhile (\<lambda>c. \<not> pred c) cs) = []"
      by (auto simp: filter_empty_conv dest: set_takeWhileD)
    then have f: "filter pred cs = d # filter pred ds"
      using takeWhile_dropWhile_id [of "\<lambda>c. \<not> pred c" cs] Cons d
      by (metis append_self_conv2 filter.simps(2) filter_append)
    have "length ds < length cs"
      using length_dropWhile_le [of "\<lambda>c. \<not> pred c" cs] Cons by simp
    from less [OF this] f Cons show ?thesis
      by (subst fi_elements.simps)
        (simp add: fi_ne_def fi_deref_def fi_next_def fi_base_forward fi_value_forward [OF Cons])
  qed
qed

section \<open>Properties\<close>

text \<open>
  C17: decoding inverts encoding: the hex of any byte string, with or without the \<^verbatim>\<open>0x\<close> prefix, and
  with white space between any two of its characters, decodes to that byte string.
\<close>

theorem hex_roundtrip:
  assumes "filter is_not_space spaced = hex bs"
  shows "from_hex (hex bs) = Some bs \<and> from_hex (''0x'' @ hex bs) = Some bs \<and>
    from_spaced_hex junk spaced = Some bs"
proof -
  have "fi_elements is_not_space (make_filter_iterator is_not_space spaced junk)
      (make_filter_iterator is_not_space [] junk) = hex bs"
    using assms by (simp only: make_filter_iterator_def fi_elements_forward)
  then have "from_spaced_hex junk spaced = from_hex (hex bs)"
    by (simp add: from_spaced_hex_def from_hex_def)
  then show ?thesis by (simp only: from_hex_eq_spec hex_spec_hex simp_thms)
qed

theorem hex_roundtrip_witness:
  "from_hex (hex [0xab, 1]) = Some [0xab, 1] \<and> from_hex (''0x'' @ hex [0xab, 1]) = Some [0xab, 1] \<and>
   from_spaced_hex CHR ''?'' '' a b 01 '' = Some [0xab, 1]"
  by (rule hex_roundtrip) (simp add: is_not_space_def isspace_iff hex_byte_def hex_digits_def)

text \<open>
  C18: on every input the decoding loop accepts exactly an optional \<^verbatim>\<open>0x\<close> followed by pairs of hex
  digits, and yields their bytes; \<^verbatim>\<open>validate_hex\<close> is its acceptance; \<^verbatim>\<open>from_spaced_hex\<close> decodes the
  input without its white space (the six characters of \<^verbatim>\<open>std::isspace\<close>), whatever the iterator's
  uninitialised cache holds; and no run, failing or not, writes more bytes than half of the input.
\<close>

theorem hex_decoders_spec:
  "from_hex s = hex_spec s \<and> (validate_hex s \<longleftrightarrow> hex_spec s \<noteq> None) \<and>
   from_spaced_hex junk s = hex_spec (filter (\<lambda>c. c \<notin> set '' '' \<and> c \<notin>
     {CHR 0x09, CHR 0x0A, CHR 0x0B, CHR 0x0C, CHR 0x0D}) s) \<and>
   2 * length (snd (from_hex_range s)) \<le> length s"
proof (intro conjI)
  have ns: "is_not_space = (\<lambda>c. c \<notin> set '' '' \<and> c \<notin>
     {CHR 0x09, CHR 0x0A, CHR 0x0B, CHR 0x0C, CHR 0x0D})"
    by (auto simp: is_not_space_def isspace_iff fun_eq_iff)
  have "from_spaced_hex junk s = from_hex (filter is_not_space s)"
    by (simp only: from_spaced_hex_def from_hex_def make_filter_iterator_def fi_elements_forward)
  then show "from_spaced_hex junk s = hex_spec (filter (\<lambda>c. c \<notin> set '' '' \<and> c \<notin>
     {CHR 0x09, CHR 0x0A, CHR 0x0B, CHR 0x0C, CHR 0x0D}) s)"
    by (simp only: from_hex_eq_spec ns)
qed (simp_all only: from_hex_eq_spec validate_hex_iff from_hex_range_length)



text \<open>
  C20: a \<^verbatim>\<open>0x\<close> that follows the prefix of a fixed-size decoder is accepted again by the decoding
  loop, but counted when the write position is computed: the value is not right-aligned, the last
  byte stays zero, and the result is 256 times the value the digits denote.
\<close>

theorem inner_0x_misaligns:
  assumes "length bs < LENGTH('n::len)" and "prefix \<noteq> []"
  shows "\<exists>r :: 'n barray. from_hex_T (''0x0x'' @ hex bs) = Some (Some r) \<and>
    from_prefixed_hex (prefix @ ''0x'' @ hex bs) prefix = Some (Some r) \<and> uint_of r = 256 * be_val bs"
proof -
  let ?r = "barray_init (replicate (LENGTH('n) - length (bs @ [0])) 0 @ bs @ [0]) :: 'n barray"
  have r: "?r = barray_init (replicate (LENGTH('n) - Suc (length bs)) 0 @ bs)"
    using barray_init_trailing_zeros [of "replicate (LENGTH('n) - Suc (length bs)) 0 @ bs" 1] by simp
  have "uint_of ?r = be_val (bs @ [0])"
    using assms by (intro uint_of_left_padded) simp
  then have "uint_of (barray_init (replicate (LENGTH('n) - Suc (length bs)) 0 @ bs) :: 'n barray) =
      256 * be_val bs"
    unfolding r [symmetric] by (simp add: be_val_append)
  moreover have "hex_spec (''0x'' @ hex bs) = Some bs"
    by (rule hex_spec_hex)
  ultimately show ?thesis
    using assms by (simp add: from_hex_T_eq from_prefixed_hex_def from_hex_into_eq not_less)
qed

theorem inner_0x_misaligns_witness:
  "\<exists>r :: address. from_hex_T (''0x0x'' @ hex [0x12]) = Some (Some r) \<and>
    from_prefixed_hex (''Q'' @ ''0x'' @ hex [0x12]) ''Q'' = Some (Some r) \<and>
    uint_of r = 256 * be_val [0x12]"
  by (rule inner_0x_misaligns) simp_all

end
