(* ===== verification/ExampleVM.thy ===== *)
theory ExampleVM
  imports Hosts Instructions Hex
begin

text \<open>
  \<^verbatim>\<open>examples/example_vm/example_vm.cpp\<close>: a VM for a subset of the instructions. Its stack is an array
  with a pointer and no bounds checks, so a pop of the empty stack and a push on a full one are
  undefined. The buffer of its memory is a block of the explicit heap, since messages and results point
  into it; the region check works on 32-bit offsets and wraps around. Reading instruction data
  past the code is undefined too. Printing (\<^verbatim>\<open>std::puts\<close> when verbose) is left out.
\<close>

section \<open>Options\<close>

record example_vm =
  verbose :: int

text \<open>
  \<^verbatim>\<open>std::strtol(s, &end, 0)\<close> for a 64-bit \<^verbatim>\<open>long\<close>: white space, a sign, the base from the prefix, then as
  many digits as there are, clamped to the range. The second component is \<^verbatim>\<open>end - s\<close>, zero when
  there is no number.
\<close>

definition digit_below :: "nat \<Rightarrow> char \<Rightarrow> bool" where
  "digit_below base c = (case hex_value c of None \<Rightarrow> False | Some d \<Rightarrow> d < base)"

fun number_of :: "nat \<Rightarrow> nat \<Rightarrow> string \<Rightarrow> nat" where
  "number_of base acc [] = acc"
| "number_of base acc (c # cs) =
     number_of base (acc * base + (case hex_value c of None \<Rightarrow> 0 | Some d \<Rightarrow> d)) cs"

definition clamp_long :: "int \<Rightarrow> int" where
  "clamp_long v = max (- (2 ^ 63)) (min (2 ^ 63 - 1) v)"

definition strtol0 :: "string \<Rightarrow> int \<times> nat" where
  "strtol0 s =
     (let ws = takeWhile Hex.isspace s;
          rest = drop (length ws) s;
          signs = (if rest \<noteq> [] \<and> (hd rest = CHR ''-'' \<or> hd rest = CHR ''+'') then 1 else 0);
          negative = (rest \<noteq> [] \<and> hd rest = CHR ''-'');
          body = drop signs rest;
          hexa = (length body \<ge> 3 \<and> body ! 0 = CHR ''0'' \<and> (body ! 1 = CHR ''x'' \<or> body ! 1 = CHR ''X'') \<and>
                  digit_below 16 (body ! 2));
          base = (if hexa then 16 else if body \<noteq> [] \<and> hd body = CHR ''0'' then 8 else 10);
          skip = (if hexa then 2 else 0);
          digits = takeWhile (digit_below base) (drop skip body);
          v = int (number_of base 0 digits)
      in if digits = [] then (0, 0)
         else (clamp_long (if negative then - v else v), length ws + signs + skip + length digits))"

definition example_set_option ::
  "example_vm \<Rightarrow> string \<Rightarrow> string option \<Rightarrow> qrvmc_set_option_result \<times> example_vm" where
  "example_set_option vm name val =
     (if name = ''verbose'' then
        (case val of
           None \<Rightarrow> (QRVMC_SET_OPTION_INVALID_VALUE, vm)
         | Some text \<Rightarrow>
             let (v, end_offset) = strtol0 text in
             if end_offset = 0 then (QRVMC_SET_OPTION_INVALID_VALUE, vm)
             else if v > 9 \<or> v < -1 then (QRVMC_SET_OPTION_INVALID_VALUE, vm)
             else (QRVMC_SET_OPTION_SUCCESS, vm\<lparr>verbose := v\<rparr>))
      else (QRVMC_SET_OPTION_INVALID_NAME, vm))"

section \<open>Stack and memory\<close>

record vm_stack =
  stack_items :: "uint256be list"
  stack_pointer :: nat

definition empty_stack :: vm_stack where
  "empty_stack = \<lparr>stack_items = replicate 1024 0, stack_pointer = 0\<rparr>"

definition pop :: "vm_stack \<Rightarrow> (uint256be \<times> vm_stack) option" where
  "pop s =
     (if stack_pointer s = 0 then None
      else let p = stack_pointer s - 1 in Some (stack_items s ! p, s\<lparr>stack_pointer := p\<rparr>))"

definition push :: "uint256be \<Rightarrow> vm_stack \<Rightarrow> vm_stack option" where
  "push v s =
     (if stack_pointer s < length (stack_items s)
      then Some (s\<lparr>stack_items := (stack_items s)[stack_pointer s := v],
                   stack_pointer := stack_pointer s + 1\<rparr>)
      else None)"

record vm_memory =
  memory_size :: u32
  memory_data :: nat

definition memory_capacity :: nat where
  "memory_capacity = 1024"

text \<open>\<^verbatim>\<open>expand\<close> returns a pointer into the buffer, or null; the 32-bit addition wraps around.\<close>

definition expand :: "u32 \<Rightarrow> u32 \<Rightarrow> vm_memory \<Rightarrow> ptr \<times> vm_memory" where
  "expand offset region_size m =
     (let new_size = offset + region_size in
      if unat new_size > memory_capacity then (Null, m)
      else
        let m = (if new_size > memory_size m then m\<lparr>memory_size := new_size\<rparr> else m)
        in (Ptr (memory_data m) (unat offset), m))"

text \<open>\<^verbatim>\<open>store\<close>: the value bytes are given by a function that reads so many of them.\<close>

definition memory_store ::
  "u32 \<Rightarrow> (nat \<Rightarrow> u8 list option) \<Rightarrow> u32 \<Rightarrow> vm_memory \<times> heap \<Rightarrow> (bool \<times> vm_memory \<times> heap) option" where
  "memory_store offset value_data value_size mh =
     (let (p, m) = expand offset value_size (fst mh) in
      if p = Null then Some (False, m, snd mh)
      else do {
        src \<leftarrow> value_data (unat value_size);
        h \<leftarrow> mem_write (snd mh) p src;
        Some (True, m, h)
      })"

section \<open>Conversions\<close>

definition uint256_of_u32 :: "u32 \<Rightarrow> uint256be" where
  "uint256_of_u32 x =
     barray_init ((bytes (0 :: uint256be))[31 := ucast x, 30 := ucast (drop_bit 8 x),
       29 := ucast (drop_bit 16 x), 28 := ucast (drop_bit 24 x)])"

definition uint256_of_address :: "address \<Rightarrow> uint256be" where
  "uint256_of_address a = barray_init (patch (bytes (0 :: uint256be)) (32 - 20) (bytes a))"

definition to_uint32 :: "uint256be \<Rightarrow> u32" where
  "to_uint32 v =
     push_bit 24 (ucast (bytes v ! 28)) OR push_bit 16 (ucast (bytes v ! 29)) OR
     push_bit 8 (ucast (bytes v ! 30)) OR ucast (bytes v ! 31)"

definition to_address :: "uint256be \<Rightarrow> address" where
  "to_address v = barray_init (patch (bytes (0 :: address)) 0 (take 20 (drop (32 - 20) (bytes v))))"

section \<open>Execution\<close>

text \<open>
  The local variables of \<^verbatim>\<open>execute\<close> with the Host context and the memory. \<open>Continue\<close> carries the
  program counter the body leaves, before the \<^verbatim>\<open>++pc\<close> of the loop.
\<close>

record 's frame =
  fr_gas :: i64
  fr_stack :: vm_stack
  fr_memory :: vm_memory
  fr_context :: 's
  fr_heap :: heap

datatype 's outcome = Continue nat "'s frame" | Return qrvmc_result 's heap

definition return_result ::
  "qrvmc_status_code \<Rightarrow> i64 \<Rightarrow> ptr \<Rightarrow> nat \<Rightarrow> 's frame \<Rightarrow> 's outcome option" where
  "return_result status gas_left output_data output_size f = do {
     (r, h) \<leftarrow> qrvmc_make_result status gas_left 0 output_data output_size (fr_heap f);
     Some (Return r (fr_context f) h)
   }"

definition fr_pop :: "'s frame \<Rightarrow> (uint256be \<times> 's frame) option" where
  "fr_pop f = do { (v, s) \<leftarrow> pop (fr_stack f); Some (v, f\<lparr>fr_stack := s\<rparr>) }"

definition fr_push :: "uint256be \<Rightarrow> 's frame \<Rightarrow> 's frame option" where
  "fr_push v f = do { s \<leftarrow> push v (fr_stack f); Some (f\<lparr>fr_stack := s\<rparr>) }"

definition fr_expand :: "u32 \<Rightarrow> u32 \<Rightarrow> 's frame \<Rightarrow> ptr \<times> 's frame" where
  "fr_expand offset region_size f =
     (let (p, m) = expand offset region_size (fr_memory f) in (p, f\<lparr>fr_memory := m\<rparr>))"

definition fr_store ::
  "u32 \<Rightarrow> (nat \<Rightarrow> u8 list option) \<Rightarrow> u32 \<Rightarrow> 's frame \<Rightarrow> (bool \<times> 's frame) option" where
  "fr_store offset value_data value_size f = do {
     (ok, m, h) \<leftarrow> memory_store offset value_data value_size (fr_memory f, fr_heap f);
     Some (ok, f\<lparr>fr_memory := m, fr_heap := h\<rparr>)
   }"

definition op_add :: "'s frame \<Rightarrow> 's frame option" where
  "op_add f = do {
     (x, f) \<leftarrow> fr_pop f;
     let a = to_uint32 x;
     (y, f) \<leftarrow> fr_pop f;
     let b = to_uint32 y;
     let sum = a + b;
     fr_push (uint256_of_u32 sum) f
   }"

definition op_calldataload :: "qrvmc_message \<Rightarrow> 's frame \<Rightarrow> 's frame option" where
  "op_calldataload msg f = do {
     (x, f) \<leftarrow> fr_pop f;
     let offset = to_uint32 x;
     let value0 = (0 :: uint256be);
     v \<leftarrow>
       (if unat offset < msg_input_size msg then do {
          let copy_size = min (msg_input_size msg - unat offset) 32;
          input \<leftarrow> mem_read (fr_heap f) (msg_input_data msg) (unat offset + copy_size);
          value_bytes \<leftarrow> copy_into (bytes value0) 0 (drop (unat offset) input);
          Some (barray_init value_bytes)
        } else Some value0);
     fr_push v f
   }"

definition op_push :: "u8 list \<Rightarrow> nat \<Rightarrow> 's frame \<Rightarrow> (nat \<times> 's frame) option" where
  "op_push code pc f = do {
     let num_push_bytes = unat (code ! pc) - OP_PUSH1 + 1;
     let offset = 32 - num_push_bytes;
     data \<leftarrow> region (pc + 1) num_push_bytes code;
     value_bytes \<leftarrow> copy_into (bytes (0 :: uint256be)) offset data;
     f \<leftarrow> fr_push (barray_init value_bytes) f;
     Some (pc + num_push_bytes, f)
   }"

text \<open>\<^verbatim>\<open>OP_CALL\<close> up to the call: the seven operands, the message and the pointer to the output region.\<close>

definition call_operands :: "'s frame \<Rightarrow> (qrvmc_message \<times> u32 \<times> u32 \<times> ptr \<times> 's frame) option" where
  "call_operands f = do {
     (gas_item, f) \<leftarrow> fr_pop f;
     (recipient_item, f) \<leftarrow> fr_pop f;
     (value_item, f) \<leftarrow> fr_pop f;
     (x, f) \<leftarrow> fr_pop f;
     let call_input_offset = to_uint32 x;
     (x, f) \<leftarrow> fr_pop f;
     let call_input_size = to_uint32 x;
     let (input_data, f) = fr_expand call_input_offset call_input_size f;
     let call_msg = zero_message\<lparr>msg_gas := ucast (to_uint32 gas_item),
           msg_recipient := to_address recipient_item, msg_value := value_item,
           msg_input_data := input_data, msg_input_size := unat call_input_size\<rparr>;
     (x, f) \<leftarrow> fr_pop f;
     let call_output_offset = to_uint32 x;
     (x, f) \<leftarrow> fr_pop f;
     let call_output_size = to_uint32 x;
     let (call_output_ptr, f) = fr_expand call_output_offset call_output_size f;
     Some (call_msg, call_output_offset, call_output_size, call_output_ptr, f)
   }"

text \<open>After the call: the status goes on the stack, as much of the output as there is and as was asked
  for goes to the memory, and the result is released.\<close>

definition finish_call :: "qrvmc_result \<Rightarrow> u32 \<Rightarrow> u32 \<Rightarrow> 's frame \<Rightarrow> 's frame option" where
  "finish_call call_result call_output_offset call_output_size f = do {
     let v = uint256_of_u32 (if res_status_code call_result = QRVMC_SUCCESS then 1 else 0);
     f \<leftarrow> fr_push v f;
     let call_output_size =
       (if unat call_output_size > res_output_size call_result
        then of_nat (res_output_size call_result) else call_output_size);
     (stored, f) \<leftarrow> fr_store call_output_offset
       (mem_read (fr_heap f) (res_output_data call_result)) call_output_size f;
     h \<leftarrow> (if res_release call_result \<noteq> No_release then call_release call_result (fr_heap f)
           else Some (fr_heap f));
     Some (f\<lparr>fr_heap := h\<rparr>)
   }"

definition op_call :: "'s qrvmc_host_interface option \<Rightarrow> nat \<Rightarrow> 's frame \<Rightarrow> 's outcome option" where
  "op_call host pc f = do {
     (call_msg, call_output_offset, call_output_size, call_output_ptr, f) \<leftarrow> call_operands f;
     if msg_input_data call_msg = Null \<or> call_output_ptr = Null
     then return_result QRVMC_FAILURE 0 Null 0 f
     else do {
       host \<leftarrow> host;
       (call_result, ctx, h) \<leftarrow> call host (fr_context f) (fr_heap f) call_msg;
       let f = f\<lparr>fr_context := ctx, fr_heap := h\<rparr>;
       f \<leftarrow> finish_call call_result call_output_offset call_output_size f;
       Some (Continue pc f)
     }
   }"

text \<open>\<^verbatim>\<open>OP_RETURN\<close> and \<^verbatim>\<open>OP_REVERT\<close> differ in the status only.\<close>

definition op_return :: "qrvmc_status_code \<Rightarrow> i64 \<Rightarrow> 's frame \<Rightarrow> 's outcome option" where
  "op_return status gas_left f = do {
     (x, f) \<leftarrow> fr_pop f;
     let output_offset = to_uint32 x;
     (x, f) \<leftarrow> fr_pop f;
     let output_size = to_uint32 x;
     let (output_ptr, f) = fr_expand output_offset output_size f;
     if output_ptr = Null then return_result QRVMC_FAILURE 0 Null 0 f
     else return_result status gas_left output_ptr (unat output_size) f
   }"

text \<open>The remaining cases of the \<^verbatim>\<open>switch\<close> with more than one statement.\<close>

definition op_number :: "'s qrvmc_host_interface option \<Rightarrow> 's frame \<Rightarrow> 's frame option" where
  "op_number host f = do {
     host \<leftarrow> host;
     let tx = get_tx_context host (fr_context f);
     fr_push (uint256_of_u32 (ucast (block_number (fst tx)))) (f\<lparr>fr_context := snd tx\<rparr>)
   }"

definition op_mstore :: "nat \<Rightarrow> 's frame \<Rightarrow> 's outcome option" where
  "op_mstore pc f = do {
     (x, f) \<leftarrow> fr_pop f;
     let index = to_uint32 x;
     (v, f) \<leftarrow> fr_pop f;
     (ok, f) \<leftarrow> fr_store index (\<lambda>n. region 0 n (bytes v)) 32 f;
     if \<not> ok then return_result QRVMC_FAILURE 0 Null 0 f else Some (Continue pc f)
   }"

definition op_sload :: "'s qrvmc_host_interface option \<Rightarrow> qrvmc_message \<Rightarrow> 's frame \<Rightarrow> 's frame option" where
  "op_sload host msg f = do {
     (index, f) \<leftarrow> fr_pop f;
     host \<leftarrow> host;
     let v = get_storage host (fr_context f) (msg_recipient msg) index;
     fr_push (fst v) (f\<lparr>fr_context := snd v\<rparr>)
   }"

definition op_sstore :: "'s qrvmc_host_interface option \<Rightarrow> qrvmc_message \<Rightarrow> 's frame \<Rightarrow> 's frame option" where
  "op_sstore host msg f = do {
     (index, f) \<leftarrow> fr_pop f;
     (v, f) \<leftarrow> fr_pop f;
     host \<leftarrow> host;
     (status, ctx) \<leftarrow> set_storage host (fr_context f) (msg_recipient msg) index v;
     Some (f\<lparr>fr_context := ctx\<rparr>)
   }"

definition op_dup1 :: "'s frame \<Rightarrow> 's frame option" where
  "op_dup1 f = do {
     (v, f) \<leftarrow> fr_pop f;
     f \<leftarrow> fr_push v f;
     fr_push v f
   }"

text \<open>The \<^verbatim>\<open>switch\<close>, and the body of the loop with the gas check before it.\<close>

definition dispatch ::
  "'s qrvmc_host_interface option \<Rightarrow> qrvmc_message \<Rightarrow> u8 list \<Rightarrow> nat \<Rightarrow> i64 \<Rightarrow> 's frame \<Rightarrow> 's outcome option" where
  "dispatch host msg code pc gas_left f =
     (let opcode = unat (code ! pc) in
      if opcode = OP_STOP then return_result QRVMC_SUCCESS gas_left Null 0 f
      else if opcode = OP_ADD then map_option (Continue pc) (op_add f)
      else if opcode = OP_ADDRESS then
        map_option (Continue pc) (fr_push (uint256_of_address (msg_recipient msg)) f)
      else if opcode = OP_CALLDATALOAD then map_option (Continue pc) (op_calldataload msg f)
      else if opcode = OP_NUMBER then map_option (Continue pc) (op_number host f)
      else if opcode = OP_MSTORE then op_mstore pc f
      else if opcode = OP_SLOAD then map_option (Continue pc) (op_sload host msg f)
      else if opcode = OP_SSTORE then map_option (Continue pc) (op_sstore host msg f)
      else if opcode = OP_MSIZE then
        map_option (Continue pc) (fr_push (uint256_of_u32 (memory_size (fr_memory f))) f)
      else if OP_PUSH1 \<le> opcode \<and> opcode \<le> OP_PUSH32 then
        map_option (\<lambda>(pc, f). Continue pc f) (op_push code pc f)
      else if opcode = OP_DUP1 then map_option (Continue pc) (op_dup1 f)
      else if opcode = OP_CALL then op_call host pc f
      else if opcode = OP_RETURN then op_return QRVMC_SUCCESS gas_left f
      else if opcode = OP_REVERT then op_return QRVMC_REVERT gas_left f
      else return_result QRVMC_UNDEFINED_INSTRUCTION 0 Null 0 f)"

definition step ::
  "'s qrvmc_host_interface option \<Rightarrow> qrvmc_message \<Rightarrow> u8 list \<Rightarrow> nat \<Rightarrow> 's frame \<Rightarrow> 's outcome option" where
  "step host msg code pc f = do {
     gas_left \<leftarrow> i64_sub (fr_gas f) 1;
     let f = f\<lparr>fr_gas := gas_left\<rparr>;
     if sint gas_left < 0 then return_result QRVMC_OUT_OF_GAS 0 Null 0 f
     else dispatch host msg code pc gas_left f
   }"

lemma return_result_not_continue: "return_result st g p n f \<noteq> Some (Continue pc f')"
  by (auto simp: return_result_def split: bind_splits)

lemma op_return_not_continue: "op_return st g f \<noteq> Some (Continue pc f')"
  by (auto simp: op_return_def bind_eq_Some_conv split_beta Let_def return_result_not_continue)

lemma op_call_pc: "op_call host pc f = Some (Continue pc' f') \<Longrightarrow> pc' = pc"
  by (auto simp: op_call_def bind_eq_Some_conv return_result_not_continue split: if_split_asm)

lemma op_mstore_pc: "op_mstore pc f = Some (Continue pc' f') \<Longrightarrow> pc' = pc"
  by (auto simp: op_mstore_def bind_eq_Some_conv Let_def return_result_not_continue split: if_split_asm)

lemma op_push_pc: "op_push code pc f = Some (pc', f') \<Longrightarrow> pc' = pc + (unat (code ! pc) - OP_PUSH1 + 1)"
  by (auto simp: op_push_def bind_eq_Some_conv Let_def)

lemma step_pc:
  assumes "step host msg code pc f = Some (Continue pc' f')"
  shows "pc \<le> pc'"
  using assms
  by (auto simp: step_def dispatch_def bind_eq_Some_conv Let_def return_result_not_continue
      op_return_not_continue dest: op_call_pc op_mstore_pc op_push_pc split: if_split_asm)

text \<open>The loop, from a program counter on.\<close>

function run_loop ::
  "'s qrvmc_host_interface option \<Rightarrow> qrvmc_message \<Rightarrow> u8 list \<Rightarrow> nat \<Rightarrow> 's frame \<Rightarrow>
   (qrvmc_result \<times> 's \<times> heap) option" where
  "run_loop host msg code pc f =
     (if pc < length code then
        (case step host msg code pc f of
           None \<Rightarrow> None
         | Some (Return r ctx h) \<Rightarrow> Some (r, ctx, h)
         | Some (Continue pc' f') \<Rightarrow> run_loop host msg code (Suc pc') f')
      else map_option (\<lambda>(r, h). (r, fr_context f, h))
        (qrvmc_make_result QRVMC_SUCCESS (fr_gas f) 0 Null 0 (fr_heap f)))"
  by pat_completeness auto
termination
  by (relation "measure (\<lambda>(host, msg, code, pc, f). length code - pc)") (auto dest: step_pc)

declare run_loop.simps [simp del]

text \<open>The storage of the \<^verbatim>\<open>Memory\<close> object lives from its declaration to the return.\<close>

definition example_execute ::
  "example_vm \<Rightarrow> 's qrvmc_host_interface option \<Rightarrow> 's \<Rightarrow> heap \<Rightarrow> qrvmc_revision \<Rightarrow> qrvmc_message \<Rightarrow> u8 list \<Rightarrow>
   (qrvmc_result \<times> example_vm \<times> 's \<times> heap) option" where
  "example_execute vm host ctx h revision msg code =
     (let (data, h) = allocate Object (replicate memory_capacity 0) h in
      case data of
        Null \<Rightarrow> None
      | Ptr b off \<Rightarrow> do {
          let f = \<lparr>fr_gas = msg_gas msg, fr_stack = empty_stack,
                   fr_memory = \<lparr>memory_size = 0, memory_data = b\<rparr>, fr_context = ctx, fr_heap = h\<rparr>;
          (r, ctx, h) \<leftarrow> run_loop host msg code 0 f;
          Some (r, vm, ctx, forget (Some b) h)
        })"

definition example_get_capabilities :: "example_vm \<Rightarrow> u32" where
  "example_get_capabilities vm = QRVMC_CAPABILITY_QRVM1"

text \<open>The constructor of \<^verbatim>\<open>ExampleVM\<close>; the version is a constant of the build.\<close>

definition ExampleVM_init :: "string \<Rightarrow> (example_vm, 's) qrvmc_vm \<times> example_vm" where
  "ExampleVM_init project_version =
     (\<lparr>abi_version = QRVMC_ABI_VERSION, vm_name = ''example_vm'', vm_version = project_version,
       vm_destroy = Delete_instance, vm_execute = example_execute,
       vm_get_capabilities = example_get_capabilities, vm_set_option = Some example_set_option\<rparr>,
      \<lparr>verbose = 0\<rparr>)"

end
