(* ===== verification/VMContract.thy ===== *)
theory VMContract
  imports ExampleVM
begin

text \<open>
  What the example VM promises. The heap is only extended while a program runs and every block a call
  returns is given back; the result is lawful, so its owner can release it once; and its fields meet the
  constraints the VM tester checks. The locale \<open>vm_host\<close> states what the VM needs of its Host, and
  the theorems in it hold for every Host that interprets it. Which programs are free of undefined
  behaviour is decided by the metrics table of the instructions, up to memory regions that wrap around.
\<close>

section \<open>Frames\<close>

lemma pop_Some:
  "pop s = Some (v, s') \<longleftrightarrow>
     (\<exists>p. stack_pointer s = Suc p \<and> v = stack_items s ! p \<and> s' = s\<lparr>stack_pointer := p\<rparr>)"
  by (cases "stack_pointer s") (auto simp: pop_def)

lemma push_Some:
  "push v s = Some s' \<longleftrightarrow>
     stack_pointer s < length (stack_items s) \<and>
     s' = s\<lparr>stack_items := (stack_items s)[stack_pointer s := v], stack_pointer := Suc (stack_pointer s)\<rparr>"
  by (auto simp: push_def)

lemma fr_pop_Some:
  "fr_pop f = Some (v, f') \<longleftrightarrow>
     (\<exists>p. stack_pointer (fr_stack f) = Suc p \<and> v = stack_items (fr_stack f) ! p \<and>
        f' = f\<lparr>fr_stack := (fr_stack f)\<lparr>stack_pointer := p\<rparr>\<rparr>)"
  by (auto simp: fr_pop_def pop_Some bind_eq_Some_conv)

lemma fr_push_Some:
  "fr_push v f = Some f' \<longleftrightarrow>
     stack_pointer (fr_stack f) < length (stack_items (fr_stack f)) \<and>
     f' = f\<lparr>fr_stack := (fr_stack f)\<lparr>stack_items := (stack_items (fr_stack f))[stack_pointer (fr_stack f) := v],
                                      stack_pointer := Suc (stack_pointer (fr_stack f))\<rparr>\<rparr>"
  by (auto simp: fr_push_def push_Some bind_eq_Some_conv)

text \<open>The stack array has its 1024 items; the memory is the block \<open>b\<close>.\<close>

definition stack_wf :: "vm_stack \<Rightarrow> bool" where
  "stack_wf s \<longleftrightarrow> length (stack_items s) = 1024 \<and> stack_pointer s \<le> 1024"

definition height :: "'s frame \<Rightarrow> nat" where
  "height f = stack_pointer (fr_stack f)"

definition memory_ok :: "nat \<Rightarrow> vm_memory \<Rightarrow> bool" where
  "memory_ok b m \<longleftrightarrow> memory_data m = b \<and> unat (memory_size m) \<le> memory_capacity"

text \<open>The heap \<open>h\<close> is the heap \<open>h0\<close> before the execution with the buffer \<open>b\<close> and perhaps objects of the Host added.\<close>

definition extends_heap :: "heap \<Rightarrow> nat \<Rightarrow> heap \<Rightarrow> bool" where
  "extends_heap h0 b h \<longleftrightarrow>
     heap_wf h \<and> held_blocks h = held_blocks h0 \<and> blocks h0 b = None \<and>
     (\<forall>c. blocks h0 c \<noteq> None \<longrightarrow> blocks h c = blocks h0 c) \<and>
     (\<exists>d. blocks h b = Some (Object, d) \<and> length d = memory_capacity)"

text \<open>C21: \<^verbatim>\<open>expand\<close>. When the sum of offset and size does not exceed 32 bits, \<^verbatim>\<open>expand\<close> returns null
  exactly when the region does not fit in the buffer, and otherwise a pointer to the region, which
  lies in the buffer and below the new size. When the sum wraps around and the wrapped sum fits,
  the pointer is not null although the region does not lie in the buffer.\<close>

theorem expand_bounds:
  "(if unat offset + unat n < 2 ^ 32
    then (fst (expand offset n m) = Null \<longleftrightarrow> memory_capacity < unat offset + unat n) \<and>
         (unat offset + unat n \<le> memory_capacity \<longrightarrow>
            fst (expand offset n m) = Ptr (memory_data m) (unat offset) \<and>
            unat (memory_size (snd (expand offset n m))) = max (unat (memory_size m)) (unat offset + unat n))
    else (fst (expand offset n m) = Null \<longleftrightarrow> memory_capacity < unat offset + unat n - 2 ^ 32) \<and>
         memory_capacity < unat offset + unat n)"
proof (cases "unat offset + unat n < 2 ^ 32")
  case True
  then have "unat (offset + n) = unat offset + unat n"
    using unat_plus_if' [of offset n] by simp
  with True show ?thesis
    by (auto simp: expand_def Let_def word_less_nat_alt max_def)
next
  case False
  then have "unat (offset + n) = unat offset + unat n - 2 ^ 32"
    using unat_plus_if' [of offset n] by simp
  with False show ?thesis
    by (auto simp: expand_def Let_def memory_capacity_def)
qed

theorem expand_bounds_witness:
  "fst (expand 1000 24 \<lparr>memory_size = 32, memory_data = 7\<rparr>) = Ptr 7 1000 \<and>
   unat (memory_size (snd (expand 1000 24 \<lparr>memory_size = 32, memory_data = 7\<rparr>))) = 1024 \<and>
   fst (expand 0xFFFFFFFF 2 \<lparr>memory_size = 32, memory_data = 7\<rparr>) \<noteq> Null"
  using expand_bounds [of 1000 24 "\<lparr>memory_size = 32, memory_data = 7\<rparr>"]
    expand_bounds [of "0xFFFFFFFF" 2 "\<lparr>memory_size = 32, memory_data = 7\<rparr>"]
  by (simp add: memory_capacity_def)

lemma expand_memory_ok: "memory_ok b m \<Longrightarrow> expand offset n m = (p, m') \<Longrightarrow> memory_ok b m'"
  by (auto simp: expand_def Let_def memory_ok_def split: if_splits)

lemma expand_pointer:
  "memory_ok b m \<Longrightarrow> expand offset n m = (p, m') \<Longrightarrow> p = Null \<or> p = Ptr b (unat offset)"
  by (auto simp: expand_def Let_def memory_ok_def split: if_splits)

text \<open>A write through the memory changes the bytes of the buffer and nothing else.\<close>

definition writes_buffer :: "nat \<Rightarrow> heap \<Rightarrow> heap \<Rightarrow> bool" where
  "writes_buffer b h h' \<longleftrightarrow>
     (\<exists>d. length d = memory_capacity \<and> h' = h\<lparr>blocks := (blocks h)(b \<mapsto> (Object, d))\<rparr>)"

definition has_buffer :: "nat \<Rightarrow> heap \<Rightarrow> bool" where
  "has_buffer b h \<longleftrightarrow> (\<exists>d. blocks h b = Some (Object, d) \<and> length d = memory_capacity)"

lemma writes_buffer_refl: "has_buffer b h \<Longrightarrow> writes_buffer b h h"
  by (auto simp: has_buffer_def writes_buffer_def fun_upd_idem)

lemma mem_write_buffer:
  assumes "has_buffer b h" and "mem_write h (Ptr b off) src = Some h'"
  shows "writes_buffer b h h'"
proof (cases "src = []")
  case True
  then show ?thesis using assms writes_buffer_refl by (simp add: mem_write_def)
next
  case False
  then obtain d d' where "length d = memory_capacity" "copy_into d off src = Some d'"
    "h' = h\<lparr>blocks := (blocks h)(b \<mapsto> (Object, d'))\<rparr>"
    using assms by (auto simp: has_buffer_def mem_write_def bind_eq_Some_conv)
  then show ?thesis using copy_into_length unfolding writes_buffer_def by metis
qed

lemma memory_store_buffer:
  assumes "memory_store offset src n (m, h) = Some (stored, m', h')" and "memory_ok b m" and "has_buffer b h"
  shows "memory_ok b m' \<and> writes_buffer b h h'"
proof -
  obtain p where e: "expand offset n m = (p, m')"
    using assms(1) by (cases "expand offset n m") (auto simp: memory_store_def split: if_splits bind_splits)
  from expand_pointer [OF assms(2) e] expand_memory_ok [OF assms(2) e] show ?thesis
    using assms e writes_buffer_refl
    by (auto simp: memory_store_def split: if_splits bind_splits intro: mem_write_buffer)
qed

lemma extends_buffer: "extends_heap h0 b h \<Longrightarrow> has_buffer b h"
  by (simp add: extends_heap_def has_buffer_def)

lemma writes_extends:
  assumes "extends_heap h0 b h" and "writes_buffer b h h'"
  shows "extends_heap h0 b h'"
proof -
  obtain d d' where d: "blocks h b = Some (Object, d)" "length d' = memory_capacity"
    and h': "h' = h\<lparr>blocks := (blocks h)(b \<mapsto> (Object, d'))\<rparr>"
    using assms by (auto simp: extends_heap_def writes_buffer_def)
  have "held_blocks h' = held_blocks h"
    using d h' by (auto simp: held_blocks_def)
  moreover have "heap_wf h'"
    using d h' assms(1) by (auto simp: heap_wf_def extends_heap_def)
  ultimately show ?thesis using assms(1) d h' by (auto simp: extends_heap_def)
qed

text \<open>A result made in an extended heap, with the buffer given back.\<close>

lemma lawful_without_buffer:
  assumes e: "extends_heap h0 b h" and l: "lawful_result h (Some (r, h'))"
    and frame: "\<And>c. blocks h c \<noteq> None \<Longrightarrow> blocks h' c = blocks h c"
  shows "lawful_result h0 (Some (r, forget (Some b) h'))"
proof -
  obtain d where d: "blocks h b = Some (Object, d)" and b0: "blocks h0 b = None"
    and fr0: "\<And>c. blocks h0 c \<noteq> None \<Longrightarrow> blocks h c = blocks h0 c" and held: "held_blocks h = held_blocks h0"
    using e by (auto simp: extends_heap_def)
  have d': "blocks h' b = Some (Object, d)" using frame [of b] d by simp
  have w: "heap_wf h'" and rel: "releasable r h'" and disj: "set_option (owned_block r) \<inter> held_blocks h = {}"
    and heldh: "held_blocks h' = held_blocks h \<union> set_option (owned_block r)"
    using l by (simp_all add: lawful_at_def result_owned_def result_usable_def)
  have "owned_block r \<noteq> Some b"
    using owned_releasable [OF rel, of b] d' release_kind_not_object by fastforce
  then have r1: "releasable r (forget (Some b) h')"
    using rel by (rule_tac releasable_cong [OF rel]) (auto simp: forget_simps)
  have "held_blocks (forget (Some b) h') = held_blocks h'"
    using d' by (auto simp: held_blocks_def forget_simps)
  moreover have "releasable p (forget (Some b) h')" if p: "releasable p h0" for p
  proof (rule releasable_cong [OF p])
    fix c
    assume "owned_block p = Some c"
    with owned_releasable [OF p] have c: "blocks h0 c \<noteq> None" by auto
    with b0 have "c \<noteq> b" by auto
    with c fr0 [OF c] frame [of c] show "blocks (forget (Some b) h') c = blocks h0 c"
      by (simp add: forget_simps)
  qed
  ultimately show ?thesis
    using r1 w disj heldh held
    by (simp add: lawful_at_def result_owned_def result_usable_def forget_simps)
qed

lemma make_result_frame:
  assumes "heap_wf h" and "qrvmc_make_result st g rf p n h = Some (r, h')" and "blocks h c \<noteq> None"
  shows "blocks h' c = blocks h c"
proof -
  have c: "c \<noteq> fresh h" using assms(1,3) heap_wf_fresh by metis
  show ?thesis
  proof (cases "n \<noteq> 0 \<and> granted h (fresh h) n")
    case True
    then show ?thesis using assms(2) c
      by (auto simp: qrvmc_make_result_def malloc_def allocate_def mem_write_def bind_eq_Some_conv
          split: if_splits)
  next
    case False
    then show ?thesis using assms(2)
      by (cases "n = 0") (auto simp: make_result_no_output make_result_failed)
  qed
qed

lemma make_result_lawful:
  assumes w: "heap_wf h" and m: "qrvmc_make_result st g rf p n h = Some (r, h')"
  shows "lawful_result h (Some (r, h'))"
proof -
  consider "n = 0" | "n \<noteq> 0" "\<not> granted h (fresh h) n" | "n \<noteq> 0" "granted h (fresh h) n" by blast
  then show ?thesis
  proof cases
    case 1
    then show ?thesis using m lawful_unowned [OF w] by (auto simp: make_result_no_output zero_result_def)
  next
    case 2
    then show ?thesis using m lawful_attempt [OF w] by (auto simp: make_result_failed zero_result_def)
  next
    case 3
    then obtain src where "length src = n" and
      "mem_write (snd (malloc n h)) (Ptr (fresh h) 0) src = Some h'"
      and r: "res_release r = Free_result_memory" "res_output_data r = Ptr (fresh h) 0"
      using m by (auto simp: qrvmc_make_result_def Let_def malloc_def allocate_def bind_eq_Some_conv
          dest: mem_read_length)
    then have "h' = snd (allocate Malloc src h)"
      using 3 by (auto simp: mem_write_def malloc_def allocate_def copy_into_def patch_def
          bind_eq_Some_conv split: if_splits)
    then show ?thesis using lawful_allocated [OF w, of Malloc r src] r by (simp add: release_kind_def)
  qed
qed

lemma make_result_defined:
  assumes "heap_wf h" and "mem_read h p n \<noteq> None"
  shows "qrvmc_make_result st g rf p n h \<noteq> None"
proof -
  obtain bs where "mem_read h p n = Some bs" using assms(2) by auto
  from lawful_make_result [OF assms(1) this, of st g rf] show ?thesis
    by (auto simp: lawful_at_def result_owned_def)
qed

text \<open>What a VM promises about the fields of its result, for a message with the given gas.\<close>

definition vm_result_ok :: "i64 \<Rightarrow> qrvmc_result \<Rightarrow> heap \<Rightarrow> bool" where
  "vm_result_ok gas r h \<longleftrightarrow>
     (res_status_code r \<noteq> QRVMC_SUCCESS \<and> res_status_code r \<noteq> QRVMC_REVERT \<longrightarrow> res_gas_left r = 0) \<and>
     0 \<le> sint (res_gas_left r) \<and> sint (res_gas_left r) \<le> max 0 (sint gas) \<and> res_gas_refund r = 0 \<and>
     (res_output_data r = Null \<longleftrightarrow> res_output_size r = 0) \<and>
     mem_read h (res_output_data r) (res_output_size r) \<noteq> None \<and> res_create_address r = 0"

lemma make_result_fields:
  assumes "qrvmc_make_result st g 0 p n h = Some (r, h')"
  shows "res_status_code r = st \<and> res_gas_left r = g \<and> res_gas_refund r = 0 \<and> res_output_size r = n \<and>
       res_create_address r = 0 \<and>
       (n = 0 \<and> res_output_data r = Null \<or>
        n \<noteq> 0 \<and> res_output_data r = Ptr (fresh h) 0 \<and> mem_read h' (Ptr (fresh h) 0) n \<noteq> None) \<or>
     r = zero_result\<lparr>res_status_code := QRVMC_OUT_OF_MEMORY\<rparr> \<and> n \<noteq> 0"
proof (cases "n \<noteq> 0 \<and> granted h (fresh h) n")
  case True
  then obtain y where y: "mem_read (snd (malloc n h)) p n = Some y"
    and w: "mem_write (snd (malloc n h)) (Ptr (fresh h) 0) y = Some h'"
    and r: "r = zero_result\<lparr>res_output_data := Ptr (fresh h) 0, res_output_size := n,
       res_release := Free_result_memory, res_status_code := st, res_gas_left := g, res_gas_refund := 0\<rparr>"
    using assms by (auto simp: qrvmc_make_result_def Let_def malloc_def allocate_def bind_eq_Some_conv)
  have "length y = n" using y by (rule mem_read_length)
  then have "blocks h' (fresh h) = Some (Malloc, y)"
    using True w by (auto simp: mem_write_def malloc_def allocate_def copy_into_def patch_def
        bind_eq_Some_conv split: if_splits)
  with \<open>length y = n\<close> True have "mem_read h' (Ptr (fresh h) 0) n = Some y"
    by (simp add: mem_read_def region_def)
  then show ?thesis using r True by (simp add: zero_result_def)
next
  case False
  then show ?thesis using assms
    by (cases "n = 0") (auto simp: make_result_no_output make_result_failed zero_result_def mem_read_def)
qed

lemma make_result_ok:
  assumes m: "qrvmc_make_result st g 0 p n h = Some (r, h')" and w: "heap_wf h" and b: "blocks h b \<noteq> None"
    and g: "0 \<le> sint g" "sint g \<le> max 0 (sint gas)" "st \<noteq> QRVMC_SUCCESS \<and> st \<noteq> QRVMC_REVERT \<longrightarrow> g = 0"
  shows "vm_result_ok gas r (forget (Some b) h')"
proof -
  have "fresh h \<noteq> b" using w b heap_wf_fresh by auto
  then have "mem_read (forget (Some b) h') (Ptr (fresh h) 0) n = mem_read h' (Ptr (fresh h) 0) n"
    by (simp add: mem_read_def forget_simps)
  then show ?thesis
    using make_result_fields [OF m] g
    by (auto simp: vm_result_ok_def mem_read_def zero_result_def)
qed

text \<open>The result of a call: it owns a block the execution did not have, and releasing it restores the heap.\<close>

lemma extends_after_call:
  assumes e: "extends_heap h0 b h" and l: "lawful_result h (Some (r, h1))"
    and frame: "\<And>c. blocks h c \<noteq> None \<Longrightarrow> blocks h1 c = blocks h c" and wr: "writes_buffer b h1 h2"
  shows "releasable r h2 \<and> extends_heap h0 b (forget (owned_block r) h2)"
proof -
  obtain d where d: "blocks h b = Some (Object, d)" "length d = memory_capacity"
    using e by (auto simp: extends_heap_def)
  with frame have d1: "blocks h1 b = Some (Object, d)" by simp
  obtain d' where h2: "length d' = memory_capacity" "h2 = h1\<lparr>blocks := (blocks h1)(b \<mapsto> (Object, d'))\<rparr>"
    using wr by (auto simp: writes_buffer_def)
  have w: "heap_wf h1" and rel: "releasable r h1" and disj: "set_option (owned_block r) \<inter> held_blocks h = {}"
    and held: "held_blocks h1 = held_blocks h \<union> set_option (owned_block r)"
    using l by (simp_all add: lawful_at_def result_owned_def result_usable_def)
  have ob: "owned_block r \<noteq> Some b"
    using owned_releasable [OF rel, of b] d1 release_kind_not_object by fastforce
  have "heap_wf h2" using w d1 h2 by (auto simp: heap_wf_def)
  moreover have "held_blocks h2 = held_blocks h1" using d1 h2 by (auto simp: held_blocks_def)
  moreover have "releasable r h2" using ob h2 by (intro releasable_cong [OF rel]) auto
  moreover have "held_blocks (forget (owned_block r) h2) = held_blocks h2 - set_option (owned_block r)"
    by (auto simp: held_blocks_def forget_simps)
  moreover have "blocks (forget (owned_block r) h2) c = blocks h0 c" if c: "blocks h0 c \<noteq> None" for c
  proof -
    have hc: "blocks h c = blocks h0 c" and cb: "c \<noteq> b" using e c by (auto simp: extends_heap_def)
    have "owned_block r \<noteq> Some c"
    proof
      assume o: "owned_block r = Some c"
      then have "c \<notin> held_blocks h" using disj by simp
      then have "\<exists>bs. blocks h c = Some (Object, bs)" using c hc by (auto simp: held_blocks_def)
      moreover have "blocks h1 c = blocks h c" using frame c hc by simp
      ultimately show False using owned_releasable [OF rel o] release_kind_not_object by fastforce
    qed
    then show ?thesis using h2 cb hc frame [of c] c by (simp add: forget_simps)
  qed
  ultimately show ?thesis
    using e held disj ob h2 by (auto simp: extends_heap_def forget_simps)
qed

section \<open>Hosts a VM can run on\<close>

text \<open>
  What the VM needs of its Host, in the states \<open>ok\<close> a Host keeps: storage writes succeed, a call whose
  input can be read succeeds, and its result is lawful, leaves the memory of the VM alone and has a
  readable output.
\<close>

locale vm_host =
  fixes host :: "'s qrvmc_host_interface" and ok :: "'s \<Rightarrow> bool"
  assumes tx_ok: "ok s \<Longrightarrow> ok (snd (get_tx_context host s))"
    and get_ok: "ok s \<Longrightarrow> ok (snd (get_storage host s a k))"
    and set_ok: "ok s \<Longrightarrow> \<exists>st s'. set_storage host s a k v = Some (st, s') \<and> ok s'"
    and call_defined:
      "ok s \<Longrightarrow> heap_wf h \<Longrightarrow> mem_read h (msg_input_data m) (msg_input_size m) \<noteq> None \<Longrightarrow>
         call host s h m \<noteq> None"
    and call_keeps:
      "ok s \<Longrightarrow> heap_wf h \<Longrightarrow> call host s h m = Some (r, s', h') \<Longrightarrow>
         ok s' \<and> lawful_result h (Some (r, h')) \<and> (\<forall>c. blocks h c \<noteq> None \<longrightarrow> blocks h' c = blocks h c) \<and>
         mem_read h' (res_output_data r) (res_output_size r) \<noteq> None"
begin

definition vm_inv :: "heap \<Rightarrow> nat \<Rightarrow> i64 \<Rightarrow> 's frame \<Rightarrow> bool" where
  "vm_inv h0 b g f \<longleftrightarrow>
     stack_wf (fr_stack f) \<and> memory_ok b (fr_memory f) \<and> extends_heap h0 b (fr_heap f) \<and>
     ok (fr_context f) \<and> fr_gas f = g"

lemma inv_pop: "fr_pop f = Some (v, f') \<Longrightarrow> vm_inv h0 b g f \<Longrightarrow> vm_inv h0 b g f'"
  by (auto simp: fr_pop_Some vm_inv_def stack_wf_def)

lemma inv_push: "fr_push v f = Some f' \<Longrightarrow> vm_inv h0 b g f \<Longrightarrow> vm_inv h0 b g f'"
  by (auto simp: fr_push_Some vm_inv_def stack_wf_def)

lemma inv_expand: "fr_expand off n f = (p, f') \<Longrightarrow> vm_inv h0 b g f \<Longrightarrow> vm_inv h0 b g f'"
  by (auto simp: fr_expand_def vm_inv_def split: prod.splits dest: expand_memory_ok)

lemma inv_store: "fr_store off src n f = Some (stored, f') \<Longrightarrow> vm_inv h0 b g f \<Longrightarrow> vm_inv h0 b g f'"
  using memory_store_buffer [of off src n "fr_memory f" "fr_heap f"] extends_buffer writes_extends
  by (fastforce simp: fr_store_def vm_inv_def bind_eq_Some_conv)

lemmas inv_ops = inv_pop inv_push inv_expand inv_store

lemma inv_context: "vm_inv h0 b g f \<Longrightarrow> ok s \<Longrightarrow> vm_inv h0 b g (f\<lparr>fr_context := s\<rparr>)"
  by (simp add: vm_inv_def)

lemma inv_ok: "vm_inv h0 b g f \<Longrightarrow> ok (fr_context f)"
  by (simp add: vm_inv_def)

lemma inv_tx: "vm_inv h0 b g f \<Longrightarrow> vm_inv h0 b g (f\<lparr>fr_context := snd (get_tx_context host (fr_context f))\<rparr>)"
  by (intro inv_context tx_ok inv_ok)

lemma inv_get: "vm_inv h0 b g f \<Longrightarrow> vm_inv h0 b g (f\<lparr>fr_context := snd (get_storage host (fr_context f) a k)\<rparr>)"
  by (intro inv_context get_ok inv_ok)

lemma inv_set:
  "set_storage host (fr_context f) a k v = Some (st, s) \<Longrightarrow> vm_inv h0 b g f \<Longrightarrow>
   vm_inv h0 b g (f\<lparr>fr_context := s\<rparr>)"
  using set_ok [OF inv_ok, of h0 b g f a k v] by (auto intro: inv_context)

lemma op_add_inv: "op_add f = Some f' \<Longrightarrow> vm_inv h0 b g f \<Longrightarrow> vm_inv h0 b g f'"
  unfolding op_add_def by (clarsimp simp: bind_eq_Some_conv Let_def) (metis inv_ops)

lemma op_calldataload_inv: "op_calldataload msg f = Some f' \<Longrightarrow> vm_inv h0 b g f \<Longrightarrow> vm_inv h0 b g f'"
  unfolding op_calldataload_def by (clarsimp simp: bind_eq_Some_conv Let_def) (metis inv_ops)

lemma op_number_inv: "op_number (Some host) f = Some f' \<Longrightarrow> vm_inv h0 b g f \<Longrightarrow> vm_inv h0 b g f'"
  unfolding op_number_def by (clarsimp simp: Let_def) (metis inv_push inv_tx)

lemma op_sload_inv: "op_sload (Some host) msg f = Some f' \<Longrightarrow> vm_inv h0 b g f \<Longrightarrow> vm_inv h0 b g f'"
  unfolding op_sload_def by (clarsimp simp: bind_eq_Some_conv Let_def) (metis inv_pop inv_push inv_get)

lemma op_sstore_inv: "op_sstore (Some host) msg f = Some f' \<Longrightarrow> vm_inv h0 b g f \<Longrightarrow> vm_inv h0 b g f'"
  unfolding op_sstore_def by (clarsimp simp: bind_eq_Some_conv) (metis inv_pop inv_set)

lemma op_push_inv: "op_push code pc f = Some (pc', f') \<Longrightarrow> vm_inv h0 b g f \<Longrightarrow> vm_inv h0 b g f'"
  unfolding op_push_def by (clarsimp simp: bind_eq_Some_conv Let_def) (metis inv_push)

lemma op_dup1_inv: "op_dup1 f = Some f' \<Longrightarrow> vm_inv h0 b g f \<Longrightarrow> vm_inv h0 b g f'"
  unfolding op_dup1_def by (clarsimp simp: bind_eq_Some_conv) (metis inv_ops)

lemma op_mstore_inv: "op_mstore pc f = Some (Continue pc' f') \<Longrightarrow> vm_inv h0 b g f \<Longrightarrow> vm_inv h0 b g f'"
  unfolding op_mstore_def
  by (clarsimp simp: bind_eq_Some_conv Let_def return_result_not_continue split: if_split_asm) (metis inv_ops)

lemma call_operands_inv:
  assumes "call_operands f = Some (m, off, n, p, f')" and "vm_inv h0 b g f"
  shows "vm_inv h0 b g f' \<and> (p = Null \<or> p = Ptr b (unat off))"
proof -
  obtain f2 where e: "fr_expand off n f2 = (p, f')" and i: "vm_inv h0 b g f2"
  proof -
    obtain f1 f2 f3 f4 f5 f6 f7 f8 v1 v2 v3 v4 v5 v6 v7 p1 where
      "fr_pop f = Some (v1, f1)" "fr_pop f1 = Some (v2, f2)" "fr_pop f2 = Some (v3, f3)"
      "fr_pop f3 = Some (v4, f4)" "fr_pop f4 = Some (v5, f5)"
      "fr_expand (to_uint32 v4) (to_uint32 v5) f5 = (p1, f6)"
      "fr_pop f6 = Some (v6, f7)" "fr_pop f7 = Some (v7, f8)" "fr_expand off n f8 = (p, f')"
      using assms(1) unfolding call_operands_def
      by (clarsimp simp: bind_eq_Some_conv Let_def split_beta) (metis prod.collapse)
    then show thesis using that assms(2) inv_ops by metis
  qed
  then show ?thesis
    using expand_pointer [of b "fr_memory f2" off n p] inv_expand [OF e i]
    by (auto simp: fr_expand_def vm_inv_def split_beta prod_eq_iff)
qed

lemma op_call_inv:
  assumes "op_call (Some host) pc f = Some (Continue pc' f')" and "vm_inv h0 b g f"
  shows "vm_inv h0 b g f'"
proof -
  obtain m off n p f1 r s h where o: "call_operands f = Some (m, off, n, p, f1)"
    and c: "call host (fr_context f1) (fr_heap f1) m = Some (r, s, h)"
    and fin: "finish_call r off n (f1\<lparr>fr_context := s, fr_heap := h\<rparr>) = Some f'"
    using assms(1)
    by (auto simp: op_call_def bind_eq_Some_conv return_result_not_continue Let_def split: if_split_asm)
  have i1: "vm_inv h0 b g f1"
    using call_operands_inv [OF o assms(2)] by auto
  then have g1: "fr_gas f1 = g" and e1: "extends_heap h0 b (fr_heap f1)" and ok1: "ok (fr_context f1)"
    and st1: "stack_wf (fr_stack f1)" and m1: "memory_ok b (fr_memory f1)"
    by (auto simp: vm_inv_def)
  have w1: "heap_wf (fr_heap f1)" using e1 by (simp add: extends_heap_def)
  from call_keeps [OF ok1 w1 c] have oks: "ok s" and l: "lawful_result (fr_heap f1) (Some (r, h))"
    and fr: "\<And>c. blocks (fr_heap f1) c \<noteq> None \<Longrightarrow> blocks h c = blocks (fr_heap f1) c" by auto
  have buf: "has_buffer b h" using extends_buffer [OF e1] fr [of b] by (auto simp: has_buffer_def)
  obtain f2 n' stored f3 h4 where p2: "fr_push (uint256_of_u32 (if res_status_code r = QRVMC_SUCCESS then 1 else 0))
        (f1\<lparr>fr_context := s, fr_heap := h\<rparr>) = Some f2"
    and s3: "fr_store off (mem_read (fr_heap f2) (res_output_data r)) n' f2 = Some (stored, f3)"
    and h4: "qrvmc_release_result r (fr_heap f3) = Some h4" and f': "f' = f3\<lparr>fr_heap := h4\<rparr>"
    using fin by (auto simp: finish_call_def bind_eq_Some_conv Let_def qrvmc_release_result_def)
  have h2: "fr_heap f2 = h" "fr_context f2 = s" "fr_memory f2 = fr_memory f1" "fr_gas f2 = fr_gas f1"
    and st2: "stack_wf (fr_stack f2)"
    using p2 st1 by (auto simp: fr_push_Some stack_wf_def)
  obtain m3 h3 where s3': "memory_store off (mem_read (fr_heap f2) (res_output_data r)) n' (fr_memory f1, h) =
      Some (stored, m3, h3)" and f3: "f3 = f2\<lparr>fr_memory := m3, fr_heap := h3\<rparr>"
    using s3 h2 by (auto simp: fr_store_def bind_eq_Some_conv)
  from memory_store_buffer [OF s3' m1 buf] have m3: "memory_ok b m3" and wr: "writes_buffer b h h3" by auto
  from extends_after_call [OF e1 l fr wr] have rel: "releasable r h3"
    and e: "extends_heap h0 b (forget (owned_block r) h3)" by auto
  have "h4 = forget (owned_block r) h3" using h4 f3 release_result_Some [OF rel] by simp
  then show ?thesis
    using f' f3 m3 e st2 h2 oks g1 by (simp add: vm_inv_def)
qed

text \<open>One round of the loop that goes on: the invariant holds and one unit of gas is gone.\<close>

lemma dispatch_inv:
  assumes "dispatch (Some host) msg code pc g f = Some (Continue pc' f')" and "vm_inv h0 b g f"
  shows "vm_inv h0 b g f'"
  using assms unfolding dispatch_def Let_def
  by (auto simp: return_result_not_continue op_return_not_continue split: if_split_asm
      dest: op_add_inv op_calldataload_inv op_number_inv op_sload_inv op_sstore_inv op_push_inv
        op_dup1_inv op_mstore_inv op_call_inv inv_push)

lemma step_inv:
  assumes "step (Some host) msg code pc f = Some (Continue pc' f')" and "vm_inv h0 b (fr_gas f) f"
  shows "vm_inv h0 b (fr_gas f') f' \<and> sint (fr_gas f') = sint (fr_gas f) - 1 \<and> 0 \<le> sint (fr_gas f')"
proof -
  obtain g where g: "i64_sub (fr_gas f) 1 = Some g" "0 \<le> sint g"
    and d: "dispatch (Some host) msg code pc g (f\<lparr>fr_gas := g\<rparr>) = Some (Continue pc' f')"
    using assms(1)
    by (auto simp: step_def bind_eq_Some_conv Let_def return_result_not_continue not_less split: if_split_asm)
  have "vm_inv h0 b g (f\<lparr>fr_gas := g\<rparr>)" using assms(2) by (simp add: vm_inv_def)
  from dispatch_inv [OF d this] show ?thesis
    using i64_sub_Some [OF g(1)] g(2) by (simp add: vm_inv_def)
qed

text \<open>A round that returns.\<close>

definition vm_done :: "heap \<Rightarrow> nat \<Rightarrow> i64 \<Rightarrow> qrvmc_result \<Rightarrow> 's \<Rightarrow> heap \<Rightarrow> bool" where
  "vm_done h0 b gas r s h \<longleftrightarrow>
     ok s \<and> lawful_result h0 (Some (r, forget (Some b) h)) \<and> vm_result_ok gas r (forget (Some b) h)"

lemma made_done:
  assumes i: "vm_inv h0 b g' f" and m: "qrvmc_make_result st g 0 p n (fr_heap f) = Some (r, h)"
    and g: "0 \<le> sint g" "sint g \<le> max 0 (sint gas)" "st \<noteq> QRVMC_SUCCESS \<and> st \<noteq> QRVMC_REVERT \<longrightarrow> g = 0"
  shows "vm_done h0 b gas r (fr_context f) h"
proof -
  have e: "extends_heap h0 b (fr_heap f)" and o: "ok (fr_context f)" using i by (auto simp: vm_inv_def)
  then have w: "heap_wf (fr_heap f)" and bb: "blocks (fr_heap f) b \<noteq> None" by (auto simp: extends_heap_def)
  from lawful_without_buffer [OF e make_result_lawful [OF w m] make_result_frame [OF w m]]
    make_result_ok [OF m w bb g] o show ?thesis
    by (simp add: vm_done_def)
qed

lemma return_done:
  assumes "return_result st g p n f = Some (Return r s h)" and "vm_inv h0 b g' f"
    and "0 \<le> sint g" "sint g \<le> max 0 (sint gas)" "st \<noteq> QRVMC_SUCCESS \<and> st \<noteq> QRVMC_REVERT \<longrightarrow> g = 0"
  shows "vm_done h0 b gas r s h"
  using assms made_done [OF assms(2) _ assms(3-5)]
  by (auto simp: return_result_def bind_eq_Some_conv)

lemma failure_done:
  assumes "return_result st 0 Null 0 f = Some (Return r s h)" and "vm_inv h0 b g' f"
  shows "vm_done h0 b gas r s h"
  using return_done [OF assms] by simp

lemma op_return_done:
  assumes "op_return st g f = Some (Return r s h)" and "vm_inv h0 b g f" and "st = QRVMC_SUCCESS \<or> st = QRVMC_REVERT"
    and "0 \<le> sint g" "sint g \<le> max 0 (sint gas)"
  shows "vm_done h0 b gas r s h"
proof -
  obtain v1 f1 v2 f2 where o1: "fr_pop f = Some (v1, f1)" "fr_pop f1 = Some (v2, f2)"
    using assms(1) by (auto simp: op_return_def bind_eq_Some_conv Let_def)
  obtain p f3 where o2: "fr_expand (to_uint32 v1) (to_uint32 v2) f2 = (p, f3)"
    by (cases "fr_expand (to_uint32 v1) (to_uint32 v2) f2")
  note o = o1 o2
  have r: "(if p = Null then return_result QRVMC_FAILURE 0 Null 0 f3
      else return_result st g p (unat (to_uint32 v2)) f3) = Some (Return r s h)"
    using assms(1) o by (simp add: op_return_def)
  have i2: "vm_inv h0 b g f2" and i3: "vm_inv h0 b g f3" using o assms(2) inv_ops by metis+
  have "p = Null \<or> p = Ptr b (unat (to_uint32 v1))"
    using expand_pointer [of b "fr_memory f2" _ _ p] o(3) i2
    by (auto simp: fr_expand_def vm_inv_def split_beta prod_eq_iff)
  then show ?thesis
    using r failure_done [OF _ i3] return_done [OF _ i3, of st g p "unat (to_uint32 v2)"] assms(3-)
    by (auto split: if_splits)
qed

lemma return_result_returns: "return_result st g p n f = Some o' \<Longrightarrow> \<exists>r h. o' = Return r (fr_context f) h"
  by (auto simp: return_result_def bind_eq_Some_conv)

lemma op_mstore_done:
  "op_mstore pc f = Some (Return r s h) \<Longrightarrow> vm_inv h0 b g f \<Longrightarrow> vm_done h0 b gas r s h"
  unfolding op_mstore_def
  by (clarsimp simp: bind_eq_Some_conv Let_def split: if_split_asm) (metis inv_ops failure_done)

lemma op_call_done:
  "op_call host' pc f = Some (Return r s h) \<Longrightarrow> vm_inv h0 b g f \<Longrightarrow> vm_done h0 b gas r s h"
  unfolding op_call_def
  by (clarsimp simp: bind_eq_Some_conv split: if_split_asm) (metis call_operands_inv failure_done)+

lemma step_done:
  assumes "step (Some host) msg code pc f = Some (Return r s h)" and i: "vm_inv h0 b (fr_gas f) f"
    and gas: "sint (fr_gas f) \<le> max 0 (sint gas)"
  shows "vm_done h0 b gas r s h"
proof -
  obtain g where g: "i64_sub (fr_gas f) 1 = Some g"
    and d: "(if sint g < 0 then return_result QRVMC_OUT_OF_GAS 0 Null 0 (f\<lparr>fr_gas := g\<rparr>)
      else dispatch (Some host) msg code pc g (f\<lparr>fr_gas := g\<rparr>)) = Some (Return r s h)"
    using assms(1) by (auto simp: step_def bind_eq_Some_conv Let_def)
  have i': "vm_inv h0 b g (f\<lparr>fr_gas := g\<rparr>)" using i by (simp add: vm_inv_def)
  show ?thesis
  proof (cases "sint g < 0")
    case True
    then show ?thesis using d failure_done [OF _ i'] by simp
  next
    case False
    have le: "sint g \<le> max 0 (sint gas)" using i64_sub_Some [OF g] gas by simp
    from d False show ?thesis
      unfolding dispatch_def Let_def
      using op_return_done [OF _ i' _ _ le] op_mstore_done [OF _ i'] op_call_done [OF _ i']
        failure_done [OF _ i'] return_done [OF _ i', of QRVMC_SUCCESS g Null 0] le
      by (auto split: if_split_asm)
  qed
qed

lemma run_loop_done:
  "run_loop (Some host) msg code pc f = Some (r, s, h) \<Longrightarrow> vm_inv h0 b (fr_gas f) f \<Longrightarrow>
   sint (fr_gas f) \<le> max 0 (sint gas) \<Longrightarrow> 0 \<le> sint (fr_gas f) \<Longrightarrow> vm_done h0 b gas r s h"
proof (induction "Some host" msg code pc f rule: run_loop.induct)
  case (1 msg code pc f)
  show ?case
  proof (cases "pc < length code")
    case True
    then show ?thesis
    proof (cases "step (Some host) msg code pc f")
      case None
      with True 1(2) show ?thesis by (simp add: run_loop.simps [of _ _ _ pc])
    next
      case (Some o')
      show ?thesis
      proof (cases o')
        case (Continue pc' f')
        have st: "vm_inv h0 b (fr_gas f') f' \<and> sint (fr_gas f') = sint (fr_gas f) - 1 \<and> 0 \<le> sint (fr_gas f')"
          using step_inv [OF Some [unfolded Continue] 1(3)] .
        have "run_loop (Some host) msg code (Suc pc') f' = Some (r, s, h)"
          using 1(2) True Some Continue by (simp add: run_loop.simps [of _ _ _ pc])
        then show ?thesis using 1(1) [OF True Some Continue] st 1(4) by simp
      next
        case (Return r' s' h')
        then have "step (Some host) msg code pc f = Some (Return r s h)"
          using 1(2) True Some by (simp add: run_loop.simps [of _ _ _ pc])
        then show ?thesis using step_done 1(3,4) by blast
      qed
    qed
  next
    case False
    then obtain m where "qrvmc_make_result QRVMC_SUCCESS (fr_gas f) 0 Null 0 (fr_heap f) = Some (r, h)"
      and "s = fr_context f"
      using 1(2) by (auto simp: run_loop.simps [of _ _ _ pc])
    then show ?thesis using made_done [OF 1(3), of QRVMC_SUCCESS "fr_gas f" Null 0] 1(4,5) by simp
  qed
qed

text \<open>The execution, with its buffer allocated and given back.\<close>

lemma initial_inv:
  assumes "heap_wf h0" and "ok s"
  shows "vm_inv h0 (fresh h0) g \<lparr>fr_gas = g, fr_stack = empty_stack,
      fr_memory = \<lparr>memory_size = 0, memory_data = fresh h0\<rparr>, fr_context = s,
      fr_heap = snd (allocate Object (replicate memory_capacity 0) h0)\<rparr>"
proof -
  have fr: "blocks h0 (fresh h0) = None" using assms(1) by (rule heap_wf_fresh)
  have "held_blocks (snd (allocate Object (replicate memory_capacity 0) h0)) = held_blocks h0"
    using fr by (auto simp: held_blocks_def allocate_def)
  then show ?thesis
    using assms heap_wf_allocate [OF assms(1)] fr
    by (auto simp: vm_inv_def stack_wf_def empty_stack_def memory_ok_def extends_heap_def allocate_def)
qed

theorem execute_contract:
  assumes "heap_wf h" and "ok s" and "0 \<le> sint (msg_gas msg)"
    and "example_execute vm (Some host) s h revision msg code = Some (r, vm', s', h')"
  shows "lawful_result h (Some (r, h')) \<and> vm_result_ok (msg_gas msg) r h' \<and> ok s' \<and> vm' = vm"
proof -
  let ?f = "\<lparr>fr_gas = msg_gas msg, fr_stack = empty_stack,
      fr_memory = \<lparr>memory_size = 0, memory_data = fresh h\<rparr>, fr_context = s,
      fr_heap = snd (allocate Object (replicate memory_capacity 0) h)\<rparr>"
  obtain h1 where l: "run_loop (Some host) msg code 0 ?f = Some (r, s', h1)"
    and h': "h' = forget (Some (fresh h)) h1" "vm' = vm"
    using assms(4) by (auto simp: example_execute_def allocate_def Let_def bind_eq_Some_conv)
  have i: "vm_inv h (fresh h) (fr_gas ?f) ?f" using initial_inv [OF assms(1,2)] by simp
  from run_loop_done [OF l i, of "msg_gas msg"] assms(3) h' show ?thesis by (simp add: vm_done_def)
qed

end

end
