(* ===== verification/VMSafety.thy ===== *)
theory VMSafety
  imports VMContract
begin

text \<open>
  Which programs the example VM runs without undefined behaviour. The metrics table of
  \<^verbatim>\<open>instruction_metrics.c\<close> says what every instruction of \<^verbatim>\<open>example_vm.cpp\<close> takes from the stack and
  leaves on it; a check of the program along the table, together with regions that do not wrap around
  32 bits, is enough for the execution to be defined. The check rejects what the VM does not check
  itself: underflow and overflow of the stack, and a push whose data runs past the code.
\<close>

section \<open>The stack effect of the instructions\<close>

lemma vm_metrics:
  "opcode_metrics OP_ADD = im 3 2 (-1)" "opcode_metrics OP_ADDRESS = im 2 0 1"
  "opcode_metrics OP_CALLDATALOAD = im 3 1 0" "opcode_metrics OP_NUMBER = im 2 0 1"
  "opcode_metrics OP_MSTORE = im 3 2 (-2)" "opcode_metrics OP_SLOAD = im 100 1 0"
  "opcode_metrics OP_SSTORE = im 0 2 (-2)" "opcode_metrics OP_MSIZE = im 2 0 1"
  "opcode_metrics OP_DUP1 = im 3 1 1" "opcode_metrics OP_CALL = im 100 7 (-6)"
  "opcode_metrics OP_RETURN = im 0 2 (-2)" "opcode_metrics OP_REVERT = im 0 2 (-2)"
  by (simp_all add: opcode_metrics_def shanghai_metrics_def shanghai_metrics_low_def
      shanghai_metrics_high_def ZERO_def BASE_def VERYLOW_def WARM_STORAGE_READ_COST_def)

lemma push_metrics:
  assumes "OP_PUSH1 \<le> n" and "n \<le> OP_PUSH32"
  shows "opcode_metrics n = im 3 0 1"
proof -
  have "list_all (\<lambda>m. m = im 3 0 1) (take 32 (drop OP_PUSH1 shanghai_metrics))"
    by (simp add: shanghai_metrics_def shanghai_metrics_low_def shanghai_metrics_high_def VERYLOW_def)
  then have "take 32 (drop OP_PUSH1 shanghai_metrics) ! (n - OP_PUSH1) = im 3 0 1"
    using assms unfolding list_all_length by (elim allE [of _ "n - OP_PUSH1"]) simp
  then show ?thesis using assms by (simp add: opcode_metrics_def)
qed

lemma im_fields [simp]:
  "gas_cost (im g r c) = g" "stack_height_required (im g r c) = r" "stack_height_change (im g r c) = c"
  by (simp_all add: im_def)

definition required :: "nat \<Rightarrow> nat" where
  "required n = nat (stack_height_required (opcode_metrics n))"

definition height_after :: "nat \<Rightarrow> nat \<Rightarrow> nat" where
  "height_after n k = nat (int k + stack_height_change (opcode_metrics n))"

text \<open>The bytes of an instruction after its opcode.\<close>

definition push_bytes :: "nat \<Rightarrow> nat" where
  "push_bytes n = (if OP_PUSH1 \<le> n \<and> n \<le> OP_PUSH32 then n - OP_PUSH1 + 1 else 0)"

lemma height_pop: "fr_pop f = Some (v, f') \<Longrightarrow> height f = Suc (height f')"
  by (auto simp: fr_pop_Some height_def)

lemma height_push: "fr_push v f = Some f' \<Longrightarrow> height f' = Suc (height f)"
  by (auto simp: fr_push_Some height_def)

lemma height_expand: "fr_expand off n f = (p, f') \<Longrightarrow> height f' = height f"
  by (auto simp: fr_expand_def height_def split_beta prod_eq_iff)

lemma height_expand_snd [simp]: "height (snd (fr_expand off n f)) = height f"
  by (simp add: fr_expand_def height_def split_beta)

lemma height_store: "fr_store off src n f = Some (s, f') \<Longrightarrow> height f' = height f"
  by (auto simp: fr_store_def height_def bind_eq_Some_conv)

lemma height_updates [simp]:
  "height (f\<lparr>fr_gas := g\<rparr>) = height f" "height (f\<lparr>fr_context := c\<rparr>) = height f"
  "height (f\<lparr>fr_heap := h\<rparr>) = height f"
  by (simp_all add: height_def)

lemmas heights = height_pop height_push height_expand height_store

lemma call_heights:
  "call_operands f = Some (m, off, n, p, f') \<Longrightarrow> height f = height f' + 7"
  unfolding call_operands_def
  by (auto simp: bind_eq_Some_conv Let_def split_beta dest!: height_pop height_expand)

lemma finish_call_height: "finish_call r off n f = Some f' \<Longrightarrow> height f' = Suc (height f)"
  unfolding finish_call_def by (auto simp: bind_eq_Some_conv Let_def dest!: height_push height_store split: if_split_asm)

lemma dispatch_heights:
  assumes "dispatch host msg code pc g f = Some (Continue pc' f')"
  shows "required (unat (code ! pc)) \<le> height f \<and> height f' = height_after (unat (code ! pc)) (height f) \<and>
    pc' = pc + push_bytes (unat (code ! pc))"
proof -
  have ops:
    "op_add f = Some f' \<Longrightarrow> height f = height f' + 1 \<and> 2 \<le> height f"
    "op_calldataload msg f = Some f' \<Longrightarrow> height f' = height f \<and> 1 \<le> height f"
    "op_number host f = Some f' \<Longrightarrow> height f' = height f + 1"
    "op_mstore pc f = Some (Continue pc' f') \<Longrightarrow> height f = height f' + 2 \<and> pc' = pc"
    "op_sload host msg f = Some f' \<Longrightarrow> height f' = height f \<and> 1 \<le> height f"
    "op_sstore host msg f = Some f' \<Longrightarrow> height f = height f' + 2"
    "op_push code pc f = Some (pc', f') \<Longrightarrow> height f' = height f + 1 \<and> pc' = pc + (unat (code ! pc) - OP_PUSH1 + 1)"
    "op_dup1 f = Some f' \<Longrightarrow> height f' = height f + 1 \<and> 1 \<le> height f"
    "op_call host pc f = Some (Continue pc' f') \<Longrightarrow> height f = height f' + 6 \<and> 7 \<le> height f \<and> pc' = pc"
    by (auto simp: op_add_def op_calldataload_def op_number_def op_mstore_def op_sload_def op_sstore_def
        op_push_def op_dup1_def op_call_def bind_eq_Some_conv Let_def return_result_not_continue
        split: if_split_asm dest!: heights call_heights finish_call_height)
  show ?thesis
    using assms unfolding dispatch_def Let_def required_def height_after_def push_bytes_def
    by (auto simp: return_result_not_continue op_return_not_continue vm_metrics push_metrics
        simp del: One_nat_def split: if_split_asm dest!: ops dest: height_push)
qed

section \<open>Programs without undefined behaviour\<close>

text \<open>The \<open>i\<close>-th item from the top of the stack.\<close>

definition item :: "nat \<Rightarrow> 's frame \<Rightarrow> uint256be" where
  "item i f = stack_items (fr_stack f) ! (height f - 1 - i)"

definition region_wraps :: "nat \<Rightarrow> 's frame \<Rightarrow> bool" where
  "region_wraps n f \<longleftrightarrow>
     n = OP_MSTORE \<and> 2 ^ 32 \<le> unat (to_uint32 (item 0 f)) + 32 \<or>
     (n = OP_RETURN \<or> n = OP_REVERT) \<and>
       2 ^ 32 \<le> unat (to_uint32 (item 0 f)) + unat (to_uint32 (item 1 f)) \<or>
     n = OP_CALL \<and>
       (2 ^ 32 \<le> unat (to_uint32 (item 3 f)) + unat (to_uint32 (item 4 f)) \<or>
        2 ^ 32 \<le> unat (to_uint32 (item 5 f)) + unat (to_uint32 (item 6 f)))"

lemma fr_pop_Suc:
  "stack_pointer (fr_stack f) = Suc p \<Longrightarrow>
   fr_pop f = Some (stack_items (fr_stack f) ! p, f\<lparr>fr_stack := (fr_stack f)\<lparr>stack_pointer := p\<rparr>\<rparr>)"
  by (simp add: fr_pop_def pop_def)

lemma pop_defined:
  "0 < height f \<Longrightarrow> \<exists>f'. fr_pop f = Some (item 0 f, f') \<and> height f = Suc (height f') \<and>
     (\<forall>i. item i f' = item (Suc i) f)"
proof -
  assume "0 < height f"
  then obtain p where p: "stack_pointer (fr_stack f) = Suc p"
    by (cases "stack_pointer (fr_stack f)") (auto simp: height_def)
  show ?thesis
    using fr_pop_Suc [OF p] p by (simp add: item_def height_def)
qed

lemma push_defined:
  "stack_wf (fr_stack f) \<Longrightarrow> height f < 1024 \<Longrightarrow> fr_push v f \<noteq> None"
  by (simp add: fr_push_def push_def stack_wf_def height_def)

lemma fr_expand_fst: "fst (fr_expand off n f) = fst (expand off n (fr_memory f))"
  by (simp add: fr_expand_def split_beta)

lemma expand_fits:
  assumes "unat off + unat n < 2 ^ 32" and "fst (expand off n m) \<noteq> Null" and "memory_ok b m"
  shows "fst (expand off n m) = Ptr b (unat off) \<and> unat off + unat n \<le> memory_capacity"
proof -
  have "unat (off + n) = unat off + unat n"
    using assms(1) unat_plus_if' [of off n] by simp
  then show ?thesis
    using assms(2,3) by (auto simp: expand_def Let_def memory_ok_def split: if_splits)
qed

lemma buffer_read:
  "has_buffer b h \<Longrightarrow> off + n \<le> memory_capacity \<Longrightarrow> mem_read h (Ptr b off) n \<noteq> None"
  by (auto simp: has_buffer_def mem_read_def region_def)

lemma buffer_write:
  "has_buffer b h \<Longrightarrow> off + length src \<le> memory_capacity \<Longrightarrow> mem_write h (Ptr b off) src \<noteq> None"
  by (auto simp: has_buffer_def mem_write_def copy_into_def)

lemma mem_read_shorter: "mem_read h p n \<noteq> None \<Longrightarrow> m \<le> n \<Longrightarrow> mem_read h p m \<noteq> None"
  by (cases p; cases "blocks h (the (ptr_block p))") (auto simp: mem_read_def region_def split: if_splits)

lemma store_defined:
  assumes "unat off + unat n < 2 ^ 32" and "memory_ok b (fr_memory f)" and "has_buffer b (fr_heap f)"
    and "src (unat n) = Some bs" and "length bs = unat n"
  shows "fr_store off src n f \<noteq> None"
proof (cases "fst (expand off n (fr_memory f)) = Null")
  case True
  then show ?thesis by (simp add: fr_store_def memory_store_def split_beta Let_def)
next
  case False
  from expand_fits [OF assms(1) False assms(2)] buffer_write [OF assms(3), of "unat off" bs] assms(4,5)
  show ?thesis by (auto simp: fr_store_def memory_store_def split_beta Let_def)
qed

lemma return_null_defined: "return_result st g Null 0 f \<noteq> None"
  by (simp add: return_result_def make_result_no_output)

lemma return_defined:
  assumes "heap_wf (fr_heap f)" and "mem_read (fr_heap f) p n \<noteq> None"
  shows "return_result st g p n f \<noteq> None"
proof -
  have "lawful_result (fr_heap f) (qrvmc_make_result st g 0 p n (fr_heap f))"
    using assms lawful_make_result by auto
  then show ?thesis by (auto simp: return_result_def lawful_at_def)
qed

lemma call_operands_defined:
  assumes "7 \<le> height f"
  obtains m p f' where
    "call_operands f = Some (m, to_uint32 (item 5 f), to_uint32 (item 6 f), p, f')"
    and "msg_input_size m = unat (to_uint32 (item 4 f))"
    and "msg_input_data m = fst (expand (to_uint32 (item 3 f)) (to_uint32 (item 4 f)) (fr_memory f))"
    and "p = fst (expand (to_uint32 (item 5 f)) (to_uint32 (item 6 f))
           (snd (expand (to_uint32 (item 3 f)) (to_uint32 (item 4 f)) (fr_memory f))))"
proof -
  obtain p where p: "stack_pointer (fr_stack f) = Suc (Suc (Suc (Suc (Suc (Suc (Suc p))))))"
    using assms le_Suc_ex [of 7 "stack_pointer (fr_stack f)"] by (auto simp: height_def numeral_eq_Suc)
  then have it: "item 5 f = stack_items (fr_stack f) ! Suc p" "item 6 f = stack_items (fr_stack f) ! p"
    "item 3 f = stack_items (fr_stack f) ! Suc (Suc (Suc p))"
    "item 4 f = stack_items (fr_stack f) ! Suc (Suc p)"
    by (simp_all add: item_def height_def)
  have "\<exists>m f'. call_operands f = Some (m, to_uint32 (item 5 f), to_uint32 (item 6 f),
        fst (expand (to_uint32 (item 5 f)) (to_uint32 (item 6 f))
           (snd (expand (to_uint32 (item 3 f)) (to_uint32 (item 4 f)) (fr_memory f)))), f') \<and>
      msg_input_size m = unat (to_uint32 (item 4 f)) \<and>
      msg_input_data m = fst (expand (to_uint32 (item 3 f)) (to_uint32 (item 4 f)) (fr_memory f))"
    by (simp add: call_operands_def fr_pop_Suc p fr_expand_def split_beta it Let_def)
  then show thesis using that by blast
qed

context vm_host
begin

lemma finish_call_defined:
  assumes i: "vm_inv h0 b g f1" and e: "height f1 < 1024" and c: "call host (fr_context f1) (fr_heap f1) m = Some (r, s, h)"
    and nw: "unat off + unat n < 2 ^ 32"
  shows "finish_call r off n (f1\<lparr>fr_context := s, fr_heap := h\<rparr>) \<noteq> None"
proof -
  have e1: "extends_heap h0 b (fr_heap f1)" and ok1: "ok (fr_context f1)"
    and st1: "stack_wf (fr_stack f1)" and m1: "memory_ok b (fr_memory f1)"
    using i by (auto simp: vm_inv_def)
  have w1: "heap_wf (fr_heap f1)" using e1 by (simp add: extends_heap_def)
  from call_keeps [OF ok1 w1 c] have l: "lawful_result (fr_heap f1) (Some (r, h))"
    and fr: "\<And>c. blocks (fr_heap f1) c \<noteq> None \<Longrightarrow> blocks h c = blocks (fr_heap f1) c"
    and out: "mem_read h (res_output_data r) (res_output_size r) \<noteq> None" by auto
  have buf: "has_buffer b h" using extends_buffer [OF e1] fr [of b] by (auto simp: has_buffer_def)
  let ?f = "f1\<lparr>fr_context := s, fr_heap := h\<rparr>"
  let ?v = "uint256_of_u32 (if res_status_code r = QRVMC_SUCCESS then 1 else 0)"
  let ?n = "if unat n > res_output_size r then of_nat (res_output_size r) else n"
  obtain f2 where p2: "fr_push ?v ?f = Some f2"
    using push_defined [of ?f ?v] st1 e by auto
  then have h2: "fr_heap f2 = h" "fr_memory f2 = fr_memory f1"
    by (auto simp: fr_push_Some)
  have n: "unat ?n \<le> unat n" "unat ?n \<le> res_output_size r"
    using unsigned_less [of n, where ?'a = nat] by (auto simp: unat_of_nat)
  obtain bs where bs: "mem_read h (res_output_data r) (unat ?n) = Some bs"
    using mem_read_shorter [OF out n(2)] by auto
  obtain stored f3 where s3: "fr_store off (mem_read (fr_heap f2) (res_output_data r)) ?n f2 = Some (stored, f3)"
    using store_defined [of off ?n b f2 "mem_read (fr_heap f2) (res_output_data r)" bs] nw n(1) m1 buf bs h2
      mem_read_length [OF bs] by fastforce
  obtain m3 h3 where s3': "memory_store off (mem_read (fr_heap f2) (res_output_data r)) ?n (fr_memory f1, h) =
      Some (stored, m3, h3)" and f3: "f3 = f2\<lparr>fr_memory := m3, fr_heap := h3\<rparr>"
    using s3 h2 by (auto simp: fr_store_def bind_eq_Some_conv)
  have wr: "writes_buffer b h h3" using memory_store_buffer [OF s3' m1 buf] by simp
  have "qrvmc_release_result r (fr_heap f3) \<noteq> None"
    using extends_after_call [OF e1 l fr wr] f3 release_result_Some by fastforce
  then show ?thesis
    using p2 s3 by (auto simp: finish_call_def Let_def qrvmc_release_result_def)
qed

lemma op_call_defined:
  assumes i: "vm_inv h0 b g f" and h7: "7 \<le> height f" and nw: "\<not> region_wraps OP_CALL f"
  shows "op_call (Some host) pc f \<noteq> None"
proof -
  have st: "stack_wf (fr_stack f)" and mem: "memory_ok b (fr_memory f)" using i by (auto simp: vm_inv_def)
  obtain m p f1 where o: "call_operands f = Some (m, to_uint32 (item 5 f), to_uint32 (item 6 f), p, f1)"
    and ms: "msg_input_size m = unat (to_uint32 (item 4 f))"
    and md: "msg_input_data m = fst (expand (to_uint32 (item 3 f)) (to_uint32 (item 4 f)) (fr_memory f))"
    using call_operands_defined [OF h7] by metis
  have i1: "vm_inv h0 b g f1" using call_operands_inv [OF o i] by simp
  show ?thesis
  proof (cases "msg_input_data m = Null \<or> p = Null")
    case True
    then show ?thesis using o return_null_defined by (simp add: op_call_def)
  next
    case False
    have e1: "extends_heap h0 b (fr_heap f1)" and ok1: "ok (fr_context f1)" using i1 by (auto simp: vm_inv_def)
    have w1: "heap_wf (fr_heap f1)" using e1 by (simp add: extends_heap_def)
    have nw3: "unat (to_uint32 (item 3 f)) + unat (to_uint32 (item 4 f)) < 2 ^ 32"
      and nw5: "unat (to_uint32 (item 5 f)) + unat (to_uint32 (item 6 f)) < 2 ^ 32"
      using nw by (auto simp: region_wraps_def)
    have "mem_read (fr_heap f1) (msg_input_data m) (msg_input_size m) \<noteq> None"
      using expand_fits [OF nw3 _ mem] False buffer_read [OF extends_buffer [OF e1]] by (simp add: md ms)
    then obtain r s h where c: "call host (fr_context f1) (fr_heap f1) m = Some (r, s, h)"
      using call_defined [OF ok1 w1] by fastforce
    have "height f1 < 1024" using call_heights [OF o] st by (simp add: stack_wf_def height_def)
    from finish_call_defined [OF i1 this c nw5] show ?thesis
      using False o c by (auto simp: op_call_def Let_def)
  qed
qed

text \<open>The instructions, as far as the stack has the items they require and room for the ones they add.\<close>

lemma op_return_defined:
  assumes i: "vm_inv h0 b g f" and h2: "2 \<le> height f"
    and nw: "unat (to_uint32 (item 0 f)) + unat (to_uint32 (item 1 f)) < 2 ^ 32"
  shows "op_return st g f \<noteq> None"
proof -
  obtain v1 f1 where p1: "fr_pop f = Some (v1, f1)" "v1 = item 0 f" "height f = Suc (height f1)"
    "\<And>i. item i f1 = item (Suc i) f"
    using pop_defined [of f] h2 by auto
  obtain v2 f2 where p2: "fr_pop f1 = Some (v2, f2)" "v2 = item 0 f1"
    using pop_defined [of f1] h2 p1(3) by auto
  have i2: "vm_inv h0 b g f2" using i p1(1) p2(1) inv_pop by blast
  obtain p f3 where e: "fr_expand (to_uint32 v1) (to_uint32 v2) f2 = (p, f3)"
    by (cases "fr_expand (to_uint32 v1) (to_uint32 v2) f2")
  have i3: "vm_inv h0 b g f3" using inv_expand [OF e i2] .
  show ?thesis
  proof (cases "p = Null")
    case True
    then show ?thesis using p1 p2 e return_null_defined by (simp add: op_return_def)
  next
    case False
    have pe: "p = fst (expand (to_uint32 v1) (to_uint32 v2) (fr_memory f2))"
      using e by (metis fr_expand_fst fst_conv)
    have nw': "unat (to_uint32 v1) + unat (to_uint32 v2) < 2 ^ 32"
      using nw p1 p2 by simp
    have x3: "extends_heap h0 b (fr_heap f3)" using i3 by (simp add: vm_inv_def)
    have m2: "memory_ok b (fr_memory f2)" using i2 by (simp add: vm_inv_def)
    have "mem_read (fr_heap f3) p (unat (to_uint32 v2)) \<noteq> None"
      using expand_fits [OF nw' _ m2] False pe buffer_read [OF extends_buffer [OF x3]] by simp
    moreover have "heap_wf (fr_heap f3)" using x3 by (simp add: extends_heap_def)
    ultimately have "return_result st g p (unat (to_uint32 v2)) f3 \<noteq> None"
      by (intro return_defined)
    then show ?thesis using p1 p2 e False by (simp add: op_return_def)
  qed
qed

lemma op_mstore_defined:
  assumes i: "vm_inv h0 b g f" and h2: "2 \<le> height f"
    and nw: "unat (to_uint32 (item 0 f)) + 32 < 2 ^ 32"
  shows "op_mstore pc f \<noteq> None"
proof -
  obtain v1 f1 where p1: "fr_pop f = Some (v1, f1)" "v1 = item 0 f" "height f = Suc (height f1)"
    using pop_defined [of f] h2 by auto
  obtain v2 f2 where p2: "fr_pop f1 = Some (v2, f2)"
    using pop_defined [of f1] h2 p1(3) by auto
  have i2: "vm_inv h0 b g f2" using i p1(1) p2(1) inv_pop by blast
  have "fr_store (to_uint32 v1) (\<lambda>n. region 0 n (bytes v2)) 32 f2 \<noteq> None"
    using i2 nw p1 by (intro store_defined [of _ _ b _ _ "bytes v2"])
      (auto simp: vm_inv_def extends_buffer region_def)
  then show ?thesis using p1 p2 return_null_defined
    by (auto simp: op_mstore_def Let_def bind_eq_None_conv)
qed

lemma calldata_defined:
  assumes "vm_inv h0 b g f" and "1 \<le> height f" and "mem_read h0 (msg_input_data msg) (msg_input_size msg) \<noteq> None"
  shows "op_calldataload msg f \<noteq> None"
proof -
  obtain v1 f1 where p1: "fr_pop f = Some (v1, f1)" "height f = Suc (height f1)"
    using pop_defined [of f] assms(2) by auto
  have i1: "vm_inv h0 b g f1" using assms(1) p1(1) inv_pop by blast
  have "height f1 < 1024" and st: "stack_wf (fr_stack f1)"
    using p1(2) assms(1) i1 by (auto simp: vm_inv_def stack_wf_def height_def)
  then have push: "fr_push v f1 \<noteq> None" for v using push_defined by blast
  show ?thesis
  proof (cases "unat (to_uint32 v1) < msg_input_size msg")
    case True
    obtain input where input: "mem_read h0 (msg_input_data msg) (msg_input_size msg) = Some input"
      using assms(3) by auto
    have "mem_read (fr_heap f1) (msg_input_data msg) (msg_input_size msg) = Some input"
      by (rule mem_read_cong [OF _ input]) (use i1 in \<open>simp add: vm_inv_def extends_heap_def\<close>)
    then have "mem_read (fr_heap f1) (msg_input_data msg)
        (unat (to_uint32 v1) + min (msg_input_size msg - unat (to_uint32 v1)) 32) \<noteq> None"
      using True by (rule_tac mem_read_shorter [of _ _ "msg_input_size msg"]) simp_all
    then obtain bs where bs: "mem_read (fr_heap f1) (msg_input_data msg)
        (unat (to_uint32 v1) + min (msg_input_size msg - unat (to_uint32 v1)) 32) = Some bs" by auto
    have "length bs - unat (to_uint32 v1) \<le> 32" using mem_read_length [OF bs] by simp
    then show ?thesis using True p1 bs push by (simp add: op_calldataload_def Let_def copy_into_def)
  next
    case False
    then show ?thesis using p1 push by (simp add: op_calldataload_def Let_def)
  qed
qed

lemma simple_ops_defined:
  assumes i: "vm_inv h0 b g f"
  shows "2 \<le> height f \<Longrightarrow> op_add f \<noteq> None"
    and "height f < 1024 \<Longrightarrow> op_number (Some host) f \<noteq> None"
    and "1 \<le> height f \<Longrightarrow> op_sload (Some host) msg f \<noteq> None"
    and "2 \<le> height f \<Longrightarrow> op_sstore (Some host) msg f \<noteq> None"
    and "1 \<le> height f \<Longrightarrow> height f < 1024 \<Longrightarrow> op_dup1 f \<noteq> None"
    and "height f < 1024 \<Longrightarrow> pc + 1 + (unat (code ! pc) - OP_PUSH1 + 1) \<le> length code \<Longrightarrow>
      OP_PUSH1 \<le> unat (code ! pc) \<Longrightarrow> unat (code ! pc) \<le> OP_PUSH32 \<Longrightarrow> op_push code pc f \<noteq> None"
proof -
  have st: "stack_wf (fr_stack f)" and ok: "ok (fr_context f)" using i by (auto simp: vm_inv_def)
  then have h: "height f \<le> 1024" by (simp add: stack_wf_def height_def)
  show "op_number (Some host) f \<noteq> None" if "height f < 1024"
    using push_defined [of "f\<lparr>fr_context := snd (get_tx_context host (fr_context f))\<rparr>"] st that
    by (simp add: op_number_def Let_def)
  show "op_push code pc f \<noteq> None" if "height f < 1024" "pc + 1 + (unat (code ! pc) - OP_PUSH1 + 1) \<le> length code"
    "OP_PUSH1 \<le> unat (code ! pc)" "unat (code ! pc) \<le> OP_PUSH32"
    using push_defined [OF st that(1)] that
    by (simp add: op_push_def Let_def region_def copy_into_def bind_eq_None_conv del: not_None_eq)
  show "op_sload (Some host) msg f \<noteq> None" if h1: "1 \<le> height f"
  proof -
    obtain v f1 where p: "fr_pop f = Some (v, f1)" "height f = Suc (height f1)" using pop_defined [of f] h1 by auto
    have "stack_wf (fr_stack f1)" using inv_pop [OF p(1) i] by (simp add: vm_inv_def)
    then show ?thesis
      using push_defined [of "f1\<lparr>fr_context := snd (get_storage host (fr_context f1) (msg_recipient msg) v)\<rparr>"] p h
      by (simp add: op_sload_def Let_def)
  qed
  show "op_dup1 f \<noteq> None" if h1: "1 \<le> height f" "height f < 1024"
  proof -
    obtain v f1 where p: "fr_pop f = Some (v, f1)" "height f = Suc (height f1)" using pop_defined [of f] h1 by auto
    have i1: "vm_inv h0 b g f1" using inv_pop [OF p(1) i] .
    then obtain f2 where p2: "fr_push v f1 = Some f2" using push_defined [of f1 v] p h1 by (auto simp: vm_inv_def)
    have "stack_wf (fr_stack f2)" using inv_push [OF p2 i1] by (simp add: vm_inv_def)
    then show ?thesis using push_defined [of f2 v] height_push [OF p2] p p2 h1 by (simp add: op_dup1_def)
  qed
  assume h2: "2 \<le> height f"
  obtain v1 f1 where p1: "fr_pop f = Some (v1, f1)" "height f = Suc (height f1)" using pop_defined [of f] h2 by auto
  obtain v2 f2 where p2: "fr_pop f1 = Some (v2, f2)" "height f1 = Suc (height f2)"
    using pop_defined [of f1] h2 p1(2) by auto
  have i2: "vm_inv h0 b g f2" using inv_pop [OF p2(1) inv_pop [OF p1(1) i]] .
  then show "op_add f \<noteq> None"
    using push_defined [of f2] p1 p2 h by (simp add: op_add_def Let_def vm_inv_def)
  show "op_sstore (Some host) msg f \<noteq> None"
    using set_ok [OF inv_ok [OF i2], of "msg_recipient msg" v1 v2] p1 p2 by (auto simp: op_sstore_def)
qed

end

text \<open>The instructions the VM implements, and the check of a program from a stack height on.\<close>

definition implemented :: "nat \<Rightarrow> bool" where
  "implemented n \<longleftrightarrow>
     n \<in> {OP_STOP, OP_ADD, OP_ADDRESS, OP_CALLDATALOAD, OP_NUMBER, OP_MSTORE, OP_SLOAD, OP_SSTORE, OP_MSIZE,
          OP_DUP1, OP_CALL, OP_RETURN, OP_REVERT} \<or> OP_PUSH1 \<le> n \<and> n \<le> OP_PUSH32"

function stack_checked :: "u8 list \<Rightarrow> nat \<Rightarrow> bool" where
  "stack_checked [] k = True"
| "stack_checked (c # cs) k =
     (let n = unat c in
      \<not> implemented n \<or> n = OP_STOP \<or>
      required n \<le> k \<and>
        (n = OP_RETURN \<or> n = OP_REVERT \<or>
         height_after n k \<le> 1024 \<and> push_bytes n \<le> length cs \<and>
           stack_checked (drop (push_bytes n) cs) (height_after n k)))"
  by pat_completeness auto
termination
  by (relation "measure (\<lambda>(code, k). length code)") auto

lemma map_option_defined: "x \<noteq> None \<Longrightarrow> map_option g x \<noteq> None"
  by auto

context vm_host
begin

lemma goes_on_defined:
  assumes i: "vm_inv h0 b g f" and nw: "\<not> region_wraps (unat (code ! pc)) f"
    and input: "mem_read h0 (msg_input_data msg) (msg_input_size msg) \<noteq> None"
    and n_def: "n = unat (code ! pc)" and im: "implemented n" "n \<noteq> OP_STOP" "n \<noteq> OP_RETURN" "n \<noteq> OP_REVERT"
    and r: "required n \<le> height f" "height_after n (height f) \<le> 1024" "push_bytes n \<le> length (drop (Suc pc) code)"
  shows "dispatch (Some host) msg code pc g f \<noteq> None"
proof -
  have st: "stack_wf (fr_stack f)" using i by (simp add: vm_inv_def)
  note simple = simple_ops_defined [OF i] calldata_defined [OF i] push_defined [OF st]
  show ?thesis
    using im(1,2) unfolding implemented_def
  proof (elim disjE insertE emptyE)
    assume "n = OP_ADD"
    then show ?thesis using r simple(1) by (simp add: dispatch_def n_def [symmetric] required_def vm_metrics del: One_nat_def)
  next
    assume "n = OP_ADDRESS"
    then show ?thesis using r simple by (simp add: dispatch_def n_def [symmetric] height_after_def vm_metrics nat_add_distrib)
  next
    assume "n = OP_CALLDATALOAD"
    then show ?thesis using r simple input by (simp add: dispatch_def n_def [symmetric] required_def vm_metrics)
  next
    assume "n = OP_NUMBER"
    then show ?thesis using r simple by (simp add: dispatch_def n_def [symmetric] height_after_def vm_metrics nat_add_distrib)
  next
    assume "n = OP_MSTORE"
    then show ?thesis using r op_mstore_defined [OF i] nw
      by (simp add: dispatch_def n_def [symmetric] required_def vm_metrics region_wraps_def)
  next
    assume "n = OP_SLOAD"
    then show ?thesis using r simple by (simp add: dispatch_def n_def [symmetric] required_def vm_metrics)
  next
    assume "n = OP_SSTORE"
    then show ?thesis using r simple by (simp add: dispatch_def n_def [symmetric] required_def vm_metrics)
  next
    assume "n = OP_MSIZE"
    then show ?thesis using r simple by (simp add: dispatch_def n_def [symmetric] height_after_def vm_metrics nat_add_distrib)
  next
    assume "n = OP_DUP1"
    then show ?thesis using r simple
      by (simp add: dispatch_def n_def [symmetric] height_after_def required_def vm_metrics nat_add_distrib)
  next
    assume "n = OP_CALL"
    then show ?thesis using r op_call_defined [OF i] nw
      by (simp add: dispatch_def n_def [symmetric] required_def vm_metrics)
  next
    assume "OP_PUSH1 \<le> n \<and> n \<le> OP_PUSH32"
    then show ?thesis using r simple(6) [of pc code]
      by (auto simp: dispatch_def n_def [symmetric] height_after_def push_bytes_def push_metrics nat_add_distrib Let_def)
  qed (use im in simp_all)
qed

lemma dispatch_defined:
  assumes i: "vm_inv h0 b g f" and pc: "pc < length code"
    and c: "stack_checked (drop pc code) (height f)" and nw: "\<not> region_wraps (unat (code ! pc)) f"
    and input: "mem_read h0 (msg_input_data msg) (msg_input_size msg) \<noteq> None"
  shows "dispatch (Some host) msg code pc g f \<noteq> None"
proof -
  define n where "n = unat (code ! pc)"
  have dr: "drop pc code = code ! pc # drop (Suc pc) code" using pc by (rule Cons_nth_drop_Suc [symmetric])
  consider "n = OP_STOP" | "\<not> implemented n" | "n = OP_RETURN \<or> n = OP_REVERT"
    | "implemented n" "n \<noteq> OP_STOP" "n \<noteq> OP_RETURN" "n \<noteq> OP_REVERT" by blast
  then show ?thesis
  proof cases
    case 1
    then show ?thesis using return_null_defined by (simp add: dispatch_def n_def)
  next
    case 2
    then have "\<not> (OP_PUSH1 \<le> n \<and> n \<le> OP_PUSH32)" by (auto simp: implemented_def)
    with 2 show ?thesis unfolding implemented_def dispatch_def n_def [symmetric] Let_def
      using return_null_defined [of QRVMC_UNDEFINED_INSTRUCTION 0 f] by auto
  next
    case 3
    then have "2 \<le> height f" using c unfolding dr
      by (auto simp: n_def [symmetric] required_def vm_metrics implemented_def)
    then show ?thesis using op_return_defined [OF i] 3 nw
      by (auto simp: dispatch_def n_def [symmetric] region_wraps_def Let_def)
  next
    case 4
    have r: "required n \<le> height f" "height_after n (height f) \<le> 1024"
      "push_bytes n \<le> length (drop (Suc pc) code)"
      using c 4 unfolding dr by (auto simp: n_def [symmetric])
    from goes_on_defined [OF i nw input n_def 4 r] show ?thesis .
  qed
qed

lemma step_defined:
  assumes i: "vm_inv h0 b (fr_gas f) f" and gas: "0 \<le> sint (fr_gas f)" and pc: "pc < length code"
    and c: "stack_checked (drop pc code) (height f)" and nw: "\<not> region_wraps (unat (code ! pc)) f"
    and input: "mem_read h0 (msg_input_data msg) (msg_input_size msg) \<noteq> None"
  shows "step (Some host) msg code pc f \<noteq> None"
proof -
  have "i64_range (sint (fr_gas f) - 1)"
    using gas sint_i64_range [of "fr_gas f"] by (simp add: i64_range_def)
  then have g: "i64_sub (fr_gas f) 1 = Some (fr_gas f - 1)" by (simp add: i64_sub_def)
  let ?f = "f\<lparr>fr_gas := fr_gas f - 1\<rparr>"
  have "vm_inv h0 b (fr_gas f - 1) ?f" using i by (simp add: vm_inv_def)
  from dispatch_defined [OF this pc _ _ input] c nw show ?thesis
    using g return_null_defined
    by (auto simp: step_def region_wraps_def item_def height_def Let_def)
qed

lemma step_checked:
  assumes "step (Some host) msg code pc f = Some (Continue pc' f')" and pc: "pc < length code"
    and c: "stack_checked (drop pc code) (height f)"
  shows "stack_checked (drop (Suc pc') code) (height f')"
proof -
  define n where "n = unat (code ! pc)"
  obtain g where d: "dispatch (Some host) msg code pc g (f\<lparr>fr_gas := g\<rparr>) = Some (Continue pc' f')"
    using assms(1)
    by (auto simp: step_def bind_eq_Some_conv Let_def return_result_not_continue split: if_split_asm)
  have dr: "drop pc code = code ! pc # drop (Suc pc) code" using pc by (rule Cons_nth_drop_Suc [symmetric])
  have h: "height f' = height_after n (height f)" "pc' = pc + push_bytes n"
    using dispatch_heights [OF d] by (auto simp: n_def)
  have "implemented n" "n \<noteq> OP_STOP" "n \<noteq> OP_RETURN" "n \<noteq> OP_REVERT"
    using d by (auto simp: dispatch_def n_def [symmetric] implemented_def return_result_not_continue
        op_return_not_continue Let_def split: if_split_asm)
  then show ?thesis using c h unfolding dr by (simp add: n_def [symmetric] add.commute)
qed

end

text \<open>The frames a run of the loop goes through.\<close>

inductive reaches ::
  "'s qrvmc_host_interface option \<Rightarrow> qrvmc_message \<Rightarrow> u8 list \<Rightarrow> nat \<times> 's frame \<Rightarrow> nat \<times> 's frame \<Rightarrow> bool"
  for host msg code where
  reaches_refl: "reaches host msg code c c"
| reaches_step: "pc < length code \<Longrightarrow> step host msg code pc f = Some (Continue pc' f') \<Longrightarrow>
    reaches host msg code (Suc pc', f') c \<Longrightarrow> reaches host msg code (pc, f) c"

definition initial_frame :: "qrvmc_message \<Rightarrow> 's \<Rightarrow> heap \<Rightarrow> 's frame" where
  "initial_frame msg s h =
     \<lparr>fr_gas = msg_gas msg, fr_stack = empty_stack,
      fr_memory = \<lparr>memory_size = 0, memory_data = fresh h\<rparr>, fr_context = s,
      fr_heap = snd (allocate Object (replicate memory_capacity 0) h)\<rparr>"

definition no_wrap :: "'s qrvmc_host_interface option \<Rightarrow> qrvmc_message \<Rightarrow> u8 list \<Rightarrow> nat \<times> 's frame \<Rightarrow> bool" where
  "no_wrap host msg code c \<longleftrightarrow>
     (\<forall>pc f. reaches host msg code c (pc, f) \<and> pc < length code \<longrightarrow> \<not> region_wraps (unat (code ! pc)) f)"

lemma no_wrap_next:
  "no_wrap host msg code (pc, f) \<Longrightarrow> pc < length code \<Longrightarrow> step host msg code pc f = Some (Continue pc' f') \<Longrightarrow>
   no_wrap host msg code (Suc pc', f')"
  by (auto simp: no_wrap_def intro: reaches_step)

lemma execute_initial:
  "example_execute vm host s h revision msg code =
     map_option (\<lambda>(r, s', h'). (r, vm, s', forget (Some (fresh h)) h'))
       (run_loop host msg code 0 (initial_frame msg s h))"
  by (cases "run_loop host msg code 0 (initial_frame msg s h)")
    (auto simp: example_execute_def allocate_def initial_frame_def Let_def)

context vm_host
begin

lemma run_loop_defined:
  "vm_inv h0 b (fr_gas f) f \<Longrightarrow> 0 \<le> sint (fr_gas f) \<Longrightarrow> stack_checked (drop pc code) (height f) \<Longrightarrow>
   no_wrap (Some host) msg code (pc, f) \<Longrightarrow> mem_read h0 (msg_input_data msg) (msg_input_size msg) \<noteq> None \<Longrightarrow>
   run_loop (Some host) msg code pc f \<noteq> None"
proof (induction "Some host" msg code pc f rule: run_loop.induct)
  case (1 msg code pc f)
  show ?case
  proof (cases "pc < length code")
    case False
    then show ?thesis by (simp add: run_loop.simps [of _ _ _ pc] make_result_no_output)
  next
    case True
    have "\<not> region_wraps (unat (code ! pc)) f"
      using 1(5) True reaches_refl unfolding no_wrap_def by blast
    from step_defined [OF 1(2,3) True 1(4) this 1(6)]
    obtain o' where s: "step (Some host) msg code pc f = Some o'" by auto
    show ?thesis
    proof (cases o')
      case (Return r s' h)
      then show ?thesis using s True by (simp add: run_loop.simps [of _ _ _ pc])
    next
      case (Continue pc' f')
      note sc = s [unfolded Continue]
      have "run_loop (Some host) msg code (Suc pc') f' \<noteq> None"
        using 1(1) [OF True s Continue] step_inv [OF sc 1(2)] step_checked [OF sc True 1(4)]
          no_wrap_next [OF 1(5) True sc] 1(6) by blast
      then show ?thesis using s Continue True by (simp add: run_loop.simps [of _ _ _ pc])
    qed
  qed
qed

theorem execute_defined:
  assumes "heap_wf h" and "ok s" and "0 \<le> sint (msg_gas msg)"
    and "mem_read h (msg_input_data msg) (msg_input_size msg) \<noteq> None"
    and "stack_checked code 0" and "no_wrap (Some host) msg code (0, initial_frame msg s h)"
  shows "example_execute vm (Some host) s h revision msg code \<noteq> None"
proof -
  have "height (initial_frame msg s h) = 0"
    by (simp add: initial_frame_def height_def empty_stack_def)
  moreover have "vm_inv h (fresh h) (fr_gas (initial_frame msg s h)) (initial_frame msg s h)"
    using initial_inv [OF assms(1,2)] by (simp add: initial_frame_def)
  ultimately have "run_loop (Some host) msg code 0 (initial_frame msg s h) \<noteq> None"
    using assms by (intro run_loop_defined) (simp_all add: initial_frame_def)
  then show ?thesis by (simp add: execute_initial)
qed

end

end
