(* ===== verification/MockedHost.thy ===== *)
theory MockedHost
  imports Hosts Hex
begin

text \<open>
  \<^verbatim>\<open>mocked_host.hpp\<close>: the Host used to test VMs. Its state is the accounts with their storage, the
  canned answers (\<open>tx_context\<close>, \<open>block_hash\<close>, \<open>call_result\<close>) and the records of what the VM did. The
  storage status of \<^verbatim>\<open>set_storage\<close> is the state machine of EIP-2200; it is proved equal to the table
  of \<^verbatim>\<open>docs/QRVM_Storage_Change_Status.md\<close>, and to account for gas as the EIP intends over any
  sequence of writes. The inputs kept for \<open>recorded_calls\<close> are strings in memory of their own, which
  is why \<^verbatim>\<open>call\<close> works on the heap; the vector of these strings is taken not to reallocate, which its
  \<^verbatim>\<open>reserve\<close> ensures for a record that starts empty.
\<close>

section \<open>State\<close>

record storage_value =
  sv_current :: bytes32
  sv_original :: bytes32
  sv_access_status :: qrvmc_access_status

definition storage_value_default :: storage_value where
  "storage_value_default = \<lparr>sv_current = 0, sv_original = 0, sv_access_status = QRVMC_ACCESS_COLD\<rparr>"

definition storage_value_of :: "bytes32 \<Rightarrow> qrvmc_access_status \<Rightarrow> storage_value" where
  "storage_value_of v acc = \<lparr>sv_current = v, sv_original = v, sv_access_status = acc\<rparr>"

definition storage_value_with :: "bytes32 \<Rightarrow> bytes32 \<Rightarrow> qrvmc_access_status \<Rightarrow> storage_value" where
  "storage_value_with v orig acc = \<lparr>sv_current = v, sv_original = orig, sv_access_status = acc\<rparr>"

record mocked_account =
  acc_nonce :: i32
  acc_code :: "u8 list"
  acc_codehash :: bytes32
  acc_balance :: uint256be
  acc_storage :: "bytes32 \<Rightarrow> storage_value option"

definition mocked_account_default :: mocked_account where
  "mocked_account_default =
     \<lparr>acc_nonce = 0, acc_code = [], acc_codehash = 0, acc_balance = 0, acc_storage = Map.empty\<rparr>"

text \<open>\<^verbatim>\<open>set_balance\<close>: the loop writes byte \<open>i\<close> of the number at index \<open>31 - i\<close>, for \<open>i\<close> from 0 to 7.\<close>

function set_balance_loop :: "nat \<Rightarrow> u64 \<Rightarrow> u8 list \<Rightarrow> u8 list" where
  "set_balance_loop i x bs =
     (if i < 8 then set_balance_loop (Suc i) x (bs[32 - 1 - i := ucast (drop_bit (8 * i) x)]) else bs)"
  by pat_completeness auto
termination
  by (relation "measure (\<lambda>(i, x, bs). 8 - i)") auto

declare set_balance_loop.simps [simp del]

definition set_balance :: "u64 \<Rightarrow> mocked_account \<Rightarrow> mocked_account" where
  "set_balance x acc =
     acc\<lparr>acc_balance := barray_init (set_balance_loop 0 x (bytes (0 :: uint256be)))\<rparr>"

record log_record =
  log_creator :: address
  log_data :: "u8 list"
  log_topics :: "bytes32 list"

definition log_record_eq :: "log_record \<Rightarrow> log_record \<Rightarrow> bool" where
  "log_record_eq a b \<longleftrightarrow>
     address_eq (log_creator a) (log_creator b) \<and> log_data a = log_data b \<and>
     list_all2 bytes32_eq (log_topics a) (log_topics b)"

record mocked_host =
  mh_accounts :: "address \<Rightarrow> mocked_account option"
  mh_tx_context :: qrvmc_tx_context
  mh_block_hash :: bytes32
  mh_call_result :: qrvmc_result
  recorded_blockhashes :: "i64 list"
  recorded_account_accesses :: "address list"
  recorded_calls :: "qrvmc_message list"
  recorded_logs :: "log_record list"
  m_recorded_calls_inputs :: "ptr list"

definition mocked_host_init :: mocked_host where
  "mocked_host_init = \<lparr>mh_accounts = Map.empty, mh_tx_context = zero_tx_context, mh_block_hash = 0,
     mh_call_result = zero_result, recorded_blockhashes = [], recorded_account_accesses = [],
     recorded_calls = [], recorded_logs = [], m_recorded_calls_inputs = []\<rparr>"

definition max_recorded_account_accesses :: nat where
  "max_recorded_account_accesses = 200"

definition max_recorded_calls :: nat where
  "max_recorded_calls = 100"

section \<open>Operations\<close>

definition record_account_access :: "address \<Rightarrow> mocked_host \<Rightarrow> mocked_host" where
  "record_account_access addr s =
     (if length (recorded_account_accesses s) < max_recorded_account_accesses
      then s\<lparr>recorded_account_accesses := recorded_account_accesses s @ [addr]\<rparr> else s)"

definition mocked_account_exists :: "mocked_host \<Rightarrow> address \<Rightarrow> bool \<times> mocked_host" where
  "mocked_account_exists s addr =
     (let s = record_account_access addr s in (mh_accounts s addr \<noteq> None, s))"

definition mocked_get_storage :: "mocked_host \<Rightarrow> address \<Rightarrow> bytes32 \<Rightarrow> bytes32 \<times> mocked_host" where
  "mocked_get_storage s addr key =
     (let s = record_account_access addr s in
      case mh_accounts s addr of
        None \<Rightarrow> (0, s)
      | Some acc \<Rightarrow>
          (case acc_storage acc key of
             Some sv \<Rightarrow> (sv_current sv, s)
           | None \<Rightarrow> (0, s)))"

text \<open>\<^verbatim>\<open>accounts[addr]\<close> and \<^verbatim>\<open>storage[key]\<close> create a default entry when there is none.\<close>

definition account_at :: "mocked_host \<Rightarrow> address \<Rightarrow> mocked_account" where
  "account_at s addr = (case mh_accounts s addr of Some acc \<Rightarrow> acc | None \<Rightarrow> mocked_account_default)"

definition slot_at :: "mocked_host \<Rightarrow> address \<Rightarrow> bytes32 \<Rightarrow> storage_value" where
  "slot_at s addr key =
     (case acc_storage (account_at s addr) key of Some sv \<Rightarrow> sv | None \<Rightarrow> storage_value_default)"

definition put_slot :: "address \<Rightarrow> bytes32 \<Rightarrow> storage_value \<Rightarrow> mocked_host \<Rightarrow> mocked_host" where
  "put_slot addr key sv s =
     (let acc = account_at s addr in
      s\<lparr>mh_accounts := (mh_accounts s)(addr \<mapsto> acc\<lparr>acc_storage := (acc_storage acc)(key \<mapsto> sv)\<rparr>)\<rparr>)"

text \<open>The clauses of EIP-2200 a dirty write triggers.\<close>

definition RemoveClearsSchedule :: int where "RemoveClearsSchedule = push_bit 0 1"
definition AddClearsSchedule :: int where "AddClearsSchedule = push_bit 1 1"
definition RestoredBySet :: int where "RestoredBySet = push_bit 2 1"
definition RestoredByReset :: int where "RestoredByReset = push_bit 3 1"

text \<open>The lambda of \<^verbatim>\<open>set_storage\<close>; a failed assertion aborts, which is the value \<^const>\<open>None\<close>.\<close>

definition storage_status :: "bytes32 \<Rightarrow> bytes32 \<Rightarrow> bytes32 \<Rightarrow> qrvmc_storage_status option" where
  "storage_status original current val =
     (if bytes32_eq current val then Some QRVMC_STORAGE_ASSIGNED
      else if bytes32_eq original current then
        (if bytes32_is_zero original then Some QRVMC_STORAGE_ADDED
         else
           let st = QRVMC_STORAGE_MODIFIED;
               st = (if bytes32_is_zero val then QRVMC_STORAGE_DELETED else st)
           in Some st)
      else do {
        let triggered_clauses = 0;
        triggered_clauses \<leftarrow>
          (if \<not> bytes32_is_zero original then do {
             triggered_clauses \<leftarrow>
               (if bytes32_is_zero current then
                  (if \<not> bytes32_is_zero val then Some (triggered_clauses OR RemoveClearsSchedule) else None)
                else Some triggered_clauses);
             (if bytes32_is_zero val then
                (if \<not> bytes32_is_zero current then Some (triggered_clauses OR AddClearsSchedule) else None)
              else Some triggered_clauses)
           } else Some triggered_clauses);
        let triggered_clauses =
          (if bytes32_eq original val then
             (if bytes32_is_zero original then triggered_clauses OR RestoredBySet
              else triggered_clauses OR RestoredByReset)
           else triggered_clauses);
        (if triggered_clauses = RemoveClearsSchedule then Some QRVMC_STORAGE_DELETED_ADDED
         else if triggered_clauses = AddClearsSchedule then Some QRVMC_STORAGE_MODIFIED_DELETED
         else if triggered_clauses = RemoveClearsSchedule OR RestoredByReset
           then Some QRVMC_STORAGE_DELETED_RESTORED
         else if triggered_clauses = RestoredBySet then Some QRVMC_STORAGE_ADDED_DELETED
         else if triggered_clauses = RestoredByReset then Some QRVMC_STORAGE_MODIFIED_RESTORED
         else if triggered_clauses = 0 then Some QRVMC_STORAGE_ASSIGNED
         else None)
      })"

definition mocked_set_storage ::
  "mocked_host \<Rightarrow> address \<Rightarrow> bytes32 \<Rightarrow> bytes32 \<Rightarrow> (qrvmc_storage_status \<times> mocked_host) option" where
  "mocked_set_storage s addr key val = do {
     let s = record_account_access addr s;
     let sv = slot_at s addr key;
     status \<leftarrow> storage_status (sv_original sv) (sv_current sv) val;
     Some (status, put_slot addr key (sv\<lparr>sv_current := val\<rparr>) s)
   }"

definition mocked_get_balance :: "mocked_host \<Rightarrow> address \<Rightarrow> uint256be \<times> mocked_host" where
  "mocked_get_balance s addr =
     (let s = record_account_access addr s in
      case mh_accounts s addr of None \<Rightarrow> (0, s) | Some acc \<Rightarrow> (acc_balance acc, s))"

definition mocked_get_code_size :: "mocked_host \<Rightarrow> address \<Rightarrow> nat \<times> mocked_host" where
  "mocked_get_code_size s addr =
     (let s = record_account_access addr s in
      case mh_accounts s addr of None \<Rightarrow> (0, s) | Some acc \<Rightarrow> (length (acc_code acc), s))"

definition mocked_get_code_hash :: "mocked_host \<Rightarrow> address \<Rightarrow> bytes32 \<times> mocked_host" where
  "mocked_get_code_hash s addr =
     (let s = record_account_access addr s in
      case mh_accounts s addr of None \<Rightarrow> (0, s) | Some acc \<Rightarrow> (acc_codehash acc, s))"

text \<open>\<^verbatim>\<open>copy_code\<close> returns the changed bytes of the buffer; a write past its end is undefined, as is reading
  more data or topics than there are in \<^verbatim>\<open>emit_log\<close>.\<close>

definition mocked_copy_code ::
  "mocked_host \<Rightarrow> address \<Rightarrow> nat \<Rightarrow> u8 list \<Rightarrow> nat \<Rightarrow> (nat \<times> u8 list \<times> mocked_host) option" where
  "mocked_copy_code s addr code_offset buffer buffer_size =
     (let s = record_account_access addr s in
      case mh_accounts s addr of
        None \<Rightarrow> Some (0, buffer, s)
      | Some acc \<Rightarrow>
          if code_offset \<ge> length (acc_code acc) then Some (0, buffer, s)
          else
            let n = min buffer_size (length (acc_code acc) - code_offset) in
            if n > 0 then do {
              src \<leftarrow> region code_offset n (acc_code acc);
              buffer \<leftarrow> copy_into buffer 0 src;
              Some (n, buffer, s)
            } else Some (n, buffer, s))"

text \<open>The last recorded call is the copy whose input pointer is redirected to the kept string.\<close>

definition mocked_call ::
  "mocked_host \<Rightarrow> heap \<Rightarrow> qrvmc_message \<Rightarrow> (qrvmc_result \<times> mocked_host \<times> heap) option" where
  "mocked_call s h msg = do {
     let s = record_account_access (msg_recipient msg) s;
     (s, h) \<leftarrow>
       (if length (recorded_calls s) < max_recorded_calls then
          (if msg_input_size msg > 0 then do {
             input \<leftarrow> mem_read h (msg_input_data msg) (msg_input_size msg);
             let (input_copy, h) = allocate Object input h;
             Some (s\<lparr>recorded_calls := recorded_calls s @ [msg\<lparr>msg_input_data := input_copy\<rparr>],
                     m_recorded_calls_inputs := m_recorded_calls_inputs s @ [input_copy]\<rparr>, h)
           } else Some (s\<lparr>recorded_calls := recorded_calls s @ [msg]\<rparr>, h))
        else Some (s, h));
     Some (result_from_raw (mh_call_result s), s, h)
   }"

definition mocked_get_tx_context :: "mocked_host \<Rightarrow> qrvmc_tx_context \<times> mocked_host" where
  "mocked_get_tx_context s = (mh_tx_context s, s)"

definition mocked_get_block_hash :: "mocked_host \<Rightarrow> i64 \<Rightarrow> bytes32 \<times> mocked_host" where
  "mocked_get_block_hash s number =
     (mh_block_hash s, s\<lparr>recorded_blockhashes := recorded_blockhashes s @ [number]\<rparr>)"

definition mocked_emit_log ::
  "mocked_host \<Rightarrow> address \<Rightarrow> u8 list \<Rightarrow> nat \<Rightarrow> bytes32 list \<Rightarrow> nat \<Rightarrow> mocked_host option" where
  "mocked_emit_log s addr data data_size topics topics_count = do {
     bs \<leftarrow> region 0 data_size data;
     ts \<leftarrow> region 0 topics_count topics;
     Some (s\<lparr>recorded_logs := recorded_logs s @ [\<lparr>log_creator = addr, log_data = bs, log_topics = ts\<rparr>]\<rparr>)
   }"

text \<open>The literals of \<^verbatim>\<open>qrvmc.hpp\<close>; a literal that does not parse terminates, which is \<^const>\<open>None\<close>.\<close>

definition parse_prefixed :: "string \<Rightarrow> string \<Rightarrow> ('n::len) barray option" where
  "parse_prefixed s prefix = Option.bind (from_prefixed_hex s prefix) (\<lambda>r. r)"

definition parse_T :: "string \<Rightarrow> ('n::len) barray option" where
  "parse_T s = Option.bind (from_hex_T s) (\<lambda>r. r)"

definition literal_address :: "string \<Rightarrow> address option" where
  "literal_address s = parse_prefixed s ''Q''"

definition literal_bytes32 :: "string \<Rightarrow> bytes32 option" where
  "literal_bytes32 s = parse_T s"

text \<open>The two literals of \<^verbatim>\<open>access_account\<close>; \<open>precompile_literals\<close> below shows what they parse to.\<close>

definition first_precompile :: address where
  "first_precompile = barray_init (replicate 19 0 @ [1])"

definition last_precompile :: address where
  "last_precompile = barray_init (replicate 19 0 @ [9])"

definition mocked_access_account :: "mocked_host \<Rightarrow> address \<Rightarrow> qrvmc_access_status \<times> mocked_host" where
  "mocked_access_account s addr =
     (let already_accessed = (\<exists>a \<in> set (recorded_account_accesses s). address_eq a addr);
          s = record_account_access addr s
      in if address_ge addr first_precompile \<and> address_le addr last_precompile
         then (QRVMC_ACCESS_WARM, s)
         else (if already_accessed then QRVMC_ACCESS_WARM else QRVMC_ACCESS_COLD, s))"

definition mocked_access_storage ::
  "mocked_host \<Rightarrow> address \<Rightarrow> bytes32 \<Rightarrow> qrvmc_access_status \<times> mocked_host" where
  "mocked_access_storage s addr key =
     (let sv = slot_at s addr key in
      (sv_access_status sv, put_slot addr key (sv\<lparr>sv_access_status := QRVMC_ACCESS_WARM\<rparr>) s))"

text \<open>The class as a \<^verbatim>\<open>Host\<close>.\<close>

definition MockedHost :: "mocked_host host_methods" where
  "MockedHost = \<lparr>
     account_exists = mocked_account_exists, get_storage = mocked_get_storage,
     set_storage = mocked_set_storage, get_balance = mocked_get_balance,
     get_code_size = mocked_get_code_size, get_code_hash = mocked_get_code_hash,
     copy_code = mocked_copy_code, call = mocked_call, get_tx_context = mocked_get_tx_context,
     get_block_hash = mocked_get_block_hash, emit_log = mocked_emit_log,
     access_account = mocked_access_account, access_storage = mocked_access_storage\<rparr>"

lemma nineteen_zeros: "replicate 19 (0 :: u8) = [0, 0, 0, 0, 0, 0, 0, 0, 0, 0, 0, 0, 0, 0, 0, 0, 0, 0, 0]"
  by (simp add: numeral_eq_Suc)

lemma precompile_literals:
  "literal_address ''Q0000000000000000000000000000000000000001'' = Some first_precompile"
  "literal_address ''Q0000000000000000000000000000000000000009'' = Some last_precompile"
proof -
  have lit: "literal_address (''Q'' @ hex bs) = Some (barray_init bs)" if "length bs = 20" for bs
    unfolding literal_address_def parse_prefixed_def
      from_prefixed_hex_prefix [of "''Q''" "hex bs", OF list.distinct(2)]
    using that by (simp add: from_hex_into_eq hex_spec_hex)
  have "''Q0000000000000000000000000000000000000001'' = ''Q'' @ hex (replicate 19 0 @ [1])"
    and "''Q0000000000000000000000000000000000000009'' = ''Q'' @ hex (replicate 19 0 @ [9])"
    by (simp_all add: nineteen_zeros hex_byte_def hex_digits_def)
  then show "literal_address ''Q0000000000000000000000000000000000000001'' = Some first_precompile"
    "literal_address ''Q0000000000000000000000000000000000000009'' = Some last_precompile"
    by (simp_all only: lit length_append length_replicate list.size first_precompile_def
        last_precompile_def)
qed

section \<open>Storage status\<close>

text \<open>The clause constants and the \<^verbatim>\<open>switch\<close>, evaluated.\<close>

lemma clause_values:
  "RemoveClearsSchedule = 1" "AddClearsSchedule = 2" "RestoredBySet = 4" "RestoredByReset = 8"
  by (simp_all add: RemoveClearsSchedule_def AddClearsSchedule_def RestoredBySet_def RestoredByReset_def)

lemma storage_status_cases:
  "storage_status orig cur v = Some
     (if cur = v then QRVMC_STORAGE_ASSIGNED
      else if orig = cur then
        (if orig = 0 then QRVMC_STORAGE_ADDED
         else if v = 0 then QRVMC_STORAGE_DELETED else QRVMC_STORAGE_MODIFIED)
      else if orig = v then
        (if orig = 0 then QRVMC_STORAGE_ADDED_DELETED
         else if cur = 0 then QRVMC_STORAGE_DELETED_RESTORED else QRVMC_STORAGE_MODIFIED_RESTORED)
      else if orig = 0 then QRVMC_STORAGE_ASSIGNED
      else if cur = 0 then QRVMC_STORAGE_DELETED_ADDED
      else if v = 0 then QRVMC_STORAGE_MODIFIED_DELETED else QRVMC_STORAGE_ASSIGNED)"
  by (simp add: storage_status_def clause_values Let_def)

text \<open>
  The "efficient implementation" of \<^verbatim>\<open>docs/QRVM_Storage_Change_Status.md\<close>: four checks make a number
  that selects the status. The numbers without a status are the rows marked impossible.
\<close>

definition status_checksum :: "bytes32 \<Rightarrow> bytes32 \<Rightarrow> bytes32 \<Rightarrow> nat" where
  "status_checksum orig cur v =
     8 * of_bool (orig \<noteq> cur) + 4 * of_bool (orig = v) + 2 * of_bool (cur \<noteq> 0) + of_bool (v \<noteq> 0)"

definition checksum_status :: "nat \<Rightarrow> qrvmc_storage_status option" where
  "checksum_status n =
     map_of [(4, QRVMC_STORAGE_ASSIGNED), (8, QRVMC_STORAGE_ASSIGNED), (11, QRVMC_STORAGE_ASSIGNED),
       (7, QRVMC_STORAGE_ASSIGNED), (1, QRVMC_STORAGE_ADDED), (2, QRVMC_STORAGE_DELETED),
       (3, QRVMC_STORAGE_MODIFIED), (9, QRVMC_STORAGE_DELETED_ADDED),
       (10, QRVMC_STORAGE_MODIFIED_DELETED), (13, QRVMC_STORAGE_DELETED_RESTORED),
       (14, QRVMC_STORAGE_ADDED_DELETED), (15, QRVMC_STORAGE_MODIFIED_RESTORED)] n"

text \<open>C3: the clauses of \<^verbatim>\<open>set_storage\<close> compute the documented status. For all original, current and new
  values the two assertions hold, the impossible default branch is not reached, and the status is
  the one the four checks of the documentation select.\<close>

theorem storage_status_checksum:
  "storage_status orig cur v = checksum_status (status_checksum orig cur v) \<and>
   storage_status orig cur v \<noteq> None"
  by (auto simp: storage_status_cases status_checksum_def checksum_status_def)

text \<open>
  Gas, from the same document: what a status costs on top of a warm access, and its refund, for
  arbitrary values of the four cost constants.
\<close>

record gas_costs =
  warm_access :: int
  sset :: int
  sreset :: int
  sclear :: int

fun status_cost :: "gas_costs \<Rightarrow> qrvmc_storage_status \<Rightarrow> int" where
  "status_cost g QRVMC_STORAGE_ADDED = sset g"
| "status_cost g QRVMC_STORAGE_DELETED = sreset g"
| "status_cost g QRVMC_STORAGE_MODIFIED = sreset g"
| "status_cost g st = warm_access g"

fun status_refund :: "gas_costs \<Rightarrow> qrvmc_storage_status \<Rightarrow> int" where
  "status_refund g QRVMC_STORAGE_DELETED = sclear g"
| "status_refund g QRVMC_STORAGE_DELETED_ADDED = - sclear g"
| "status_refund g QRVMC_STORAGE_MODIFIED_DELETED = sclear g"
| "status_refund g QRVMC_STORAGE_DELETED_RESTORED = - sclear g + sreset g - warm_access g"
| "status_refund g QRVMC_STORAGE_ADDED_DELETED = sset g - warm_access g"
| "status_refund g QRVMC_STORAGE_MODIFIED_RESTORED = sreset g - warm_access g"
| "status_refund g st = 0"

definition net_gas :: "gas_costs \<Rightarrow> qrvmc_storage_status \<Rightarrow> int" where
  "net_gas g st = status_cost g st - status_refund g st - warm_access g"

text \<open>What one write from the original to the final value would cost in one step.\<close>

definition change_charge :: "gas_costs \<Rightarrow> bytes32 \<Rightarrow> bytes32 \<Rightarrow> int" where
  "change_charge g orig v =
     (if orig = v then 0
      else if orig = 0 then sset g - warm_access g
      else if v = 0 then sreset g - warm_access g - sclear g
      else sreset g - warm_access g)"

lemma net_gas_step:
  "storage_status orig cur v = Some st \<Longrightarrow> net_gas g st = change_charge g orig v - change_charge g orig cur"
  by (auto simp: storage_status_cases net_gas_def change_charge_def split: if_splits)

section \<open>Storage\<close>

lemma record_access_frame [host_simps]:
  "mh_accounts (record_account_access a s) = mh_accounts s"
  "recorded_calls (record_account_access a s) = recorded_calls s"
  "recorded_logs (record_account_access a s) = recorded_logs s"
  "recorded_blockhashes (record_account_access a s) = recorded_blockhashes s"
  "m_recorded_calls_inputs (record_account_access a s) = m_recorded_calls_inputs s"
  "mh_call_result (record_account_access a s) = mh_call_result s"
  "account_at (record_account_access a s) = account_at s"
  "slot_at (record_account_access a s) = slot_at s"
  by (simp_all add: record_account_access_def account_at_def slot_at_def fun_eq_iff)

lemma slot_at_put [host_simps]:
  "slot_at (put_slot a k sv s) a' k' = (if a' = a \<and> k' = k then sv else slot_at s a' k')"
  by (simp add: slot_at_def put_slot_def account_at_def Let_def)

lemma put_slot_frame [host_simps]:
  "recorded_account_accesses (put_slot a k sv s) = recorded_account_accesses s"
  "recorded_calls (put_slot a k sv s) = recorded_calls s"
  "recorded_logs (put_slot a k sv s) = recorded_logs s"
  "recorded_blockhashes (put_slot a k sv s) = recorded_blockhashes s"
  "m_recorded_calls_inputs (put_slot a k sv s) = m_recorded_calls_inputs s"
  by (simp_all add: put_slot_def Let_def)

lemma get_storage_eq:
  "mocked_get_storage s a k = (sv_current (slot_at s a k), record_account_access a s)"
  by (simp add: mocked_get_storage_def slot_at_def account_at_def storage_value_default_def
      mocked_account_default_def record_access_frame split: option.split)

lemma set_storage_eq:
  "\<exists>st. storage_status (sv_original (slot_at s a k)) (sv_current (slot_at s a k)) v = Some st \<and>
     mocked_set_storage s a k v =
       Some (st, put_slot a k ((slot_at s a k)\<lparr>sv_current := v\<rparr>) (record_account_access a s))"
  by (simp add: mocked_set_storage_def storage_status_cases record_access_frame)

definition mocked_value :: "mocked_host \<Rightarrow> address \<Rightarrow> bytes32 \<Rightarrow> bytes32" where
  "mocked_value s a k = sv_current (slot_at s a k)"

interpretation mocked: storage_host mocked_get_storage mocked_set_storage mocked_value
proof
  fix s a k v
  show "fst (mocked_get_storage s a k) = mocked_value s a k"
    by (simp add: get_storage_eq mocked_value_def)
  show "mocked_value (snd (mocked_get_storage s a k)) = mocked_value s"
    by (simp add: get_storage_eq mocked_value_def fun_eq_iff record_access_frame)
  show "\<exists>st s'. mocked_set_storage s a k v = Some (st, s') \<and>
      mocked_value s' = (mocked_value s)(a := (mocked_value s a)(k := v))"
    using set_storage_eq [of s a k v]
    by (auto simp: mocked_value_def fun_eq_iff slot_at_put record_access_frame)
qed

text \<open>C4: the storage of the MockedHost is a two-level map. Any sequence of reads and writes through
  \<^verbatim>\<open>get_storage\<close> and \<^verbatim>\<open>set_storage\<close> runs without failing, and every read returns the last value written
  at its address and key, or the value at the start, zero where there was no entry.\<close>

theorem mocked_storage_is_map:
  "\<exists>s'. run_accesses mocked_get_storage mocked_set_storage xs s =
          Some (fst (map_accesses xs (mocked_value s)), s') \<and>
        mocked_value s' = snd (map_accesses xs (mocked_value s)) \<and>
        mocked_value mocked_host_init = (\<lambda>a k. 0)"
proof -
  have "mocked_value mocked_host_init = (\<lambda>a k. 0)"
    by (simp add: mocked_value_def slot_at_def account_at_def mocked_host_init_def fun_eq_iff
        mocked_account_default_def storage_value_default_def)
  then show ?thesis using mocked.run_accesses_refines [of xs s] by blast
qed

text \<open>Writes at one address and key, one after the other, with the statuses they return.\<close>

fun mocked_writes ::
  "address \<Rightarrow> bytes32 \<Rightarrow> bytes32 list \<Rightarrow> mocked_host \<Rightarrow> (qrvmc_storage_status list \<times> mocked_host) option" where
  "mocked_writes a k [] s = Some ([], s)"
| "mocked_writes a k (v # vs) s = do {
     (st, s) \<leftarrow> mocked_set_storage s a k v;
     (sts, s) \<leftarrow> mocked_writes a k vs s;
     Some (st # sts, s)
   }"

text \<open>C2: the statuses account for gas as EIP-2200 intends. Over any sequence of writes to one slot
  the costs less the refunds and less a warm access for each write add up to the charge for changing the
  original value to the last one, less the charge already paid for the current one, whatever
  values the sequence goes through. So writing and restoring is refunded in full.\<close>

theorem storage_gas_telescopes:
  "\<exists>sts s'. mocked_writes a k vs s = Some (sts, s') \<and> length sts = length vs \<and>
     mocked_value s' a k = last (mocked_value s a k # vs) \<and>
     sv_original (slot_at s' a k) = sv_original (slot_at s a k) \<and>
     sum_list (map (net_gas g) sts) =
       change_charge g (sv_original (slot_at s a k)) (last (mocked_value s a k # vs)) -
       change_charge g (sv_original (slot_at s a k)) (mocked_value s a k)"
proof (induction vs arbitrary: s)
  case Nil
  then show ?case by simp
next
  case (Cons v vs)
  obtain st where st: "storage_status (sv_original (slot_at s a k)) (sv_current (slot_at s a k)) v = Some st"
    "mocked_set_storage s a k v =
       Some (st, put_slot a k ((slot_at s a k)\<lparr>sv_current := v\<rparr>) (record_account_access a s))"
    using set_storage_eq by blast
  let ?s = "put_slot a k ((slot_at s a k)\<lparr>sv_current := v\<rparr>) (record_account_access a s)"
  have v: "mocked_value ?s a k = v" and o: "sv_original (slot_at ?s a k) = sv_original (slot_at s a k)"
    by (simp_all add: mocked_value_def slot_at_put)
  from Cons.IH [of ?s] net_gas_step [OF st(1), of g] show ?case
    unfolding v o by (auto simp: st(2) mocked_value_def)
qed

end
