(* ===== verification/Precompiles.thy ===== *)
theory Precompiles
  imports Results "HOL-Library.Signed_Division"
begin

text \<open>
  \<^verbatim>\<open>examples/example_precompiles_vm/example_precompiles_vm.cpp\<close>: a VM that runs precompiled contracts by
  the last two bytes of the code address. The gas of the identity contract is computed in \<^verbatim>\<open>int64_t\<close>
  with the overflows undefined; its output is a \<^verbatim>\<open>new[]\<close> block the result owns.
\<close>

section \<open>Checked arithmetic on \<^verbatim>\<open>int64_t\<close>\<close>

definition i64_of_int :: "int \<Rightarrow> i64 option" where
  "i64_of_int z = (if i64_range z then Some (word_of_int z) else None)"

definition i64_add :: "i64 \<Rightarrow> i64 \<Rightarrow> i64 option" where
  "i64_add a b = i64_of_int (sint a + sint b)"

definition i64_mul :: "i64 \<Rightarrow> i64 \<Rightarrow> i64 option" where
  "i64_mul a b = i64_of_int (sint a * sint b)"

text \<open>Division truncates toward zero.\<close>

definition i64_div :: "i64 \<Rightarrow> i64 \<Rightarrow> i64 option" where
  "i64_div a b = (if b = 0 then None else i64_of_int (sint a sdiv sint b))"

section \<open>The contracts\<close>

text \<open>\<^verbatim>\<open>new uint8_t[n]\<close>; an exception of the allocator leaves the C function, which is \<^const>\<open>None\<close>.\<close>

definition new_array :: "nat \<Rightarrow> heap \<Rightarrow> (ptr \<times> heap) option" where
  "new_array n h =
     (if granted h (fresh h) n then Some (allocate New_array (replicate n (junk h)) h) else None)"

text \<open>The conversion of \<^verbatim>\<open>size_t\<close> to \<^verbatim>\<open>int64_t\<close> is modulo \<open>2 ^ 64\<close>.\<close>

definition identity_gas_cost :: "nat \<Rightarrow> i64 option" where
  "identity_gas_cost input_size = do {
     a \<leftarrow> i64_add (of_nat input_size) 31;
     b \<leftarrow> i64_div a 32;
     c \<leftarrow> i64_mul 3 b;
     i64_add 15 c
   }"

definition execute_identity :: "qrvmc_message \<Rightarrow> heap \<Rightarrow> (qrvmc_result \<times> heap) option" where
  "execute_identity msg h = do {
     let result = zero_result;
     gas_cost \<leftarrow> identity_gas_cost (msg_input_size msg);
     gas_left \<leftarrow> i64_sub (msg_gas msg) gas_cost;
     if sint gas_left < 0 then Some (result\<lparr>res_status_code := QRVMC_OUT_OF_GAS\<rparr>, h)
     else do {
       (data, h) \<leftarrow> new_array (msg_input_size msg) h;
       src \<leftarrow> mem_read h (msg_input_data msg) (msg_input_size msg);
       h \<leftarrow> mem_write h data src;
       Some (result\<lparr>res_status_code := QRVMC_SUCCESS, res_output_data := data,
               res_output_size := msg_input_size msg, res_release := Delete_output,
               res_gas_left := gas_left\<rparr>, h)
     }
   }"

definition execute_empty :: "qrvmc_message \<Rightarrow> qrvmc_result" where
  "execute_empty msg = zero_result\<lparr>res_status_code := QRVMC_SUCCESS, res_gas_left := msg_gas msg\<rparr>"

definition not_implemented :: qrvmc_result where
  "not_implemented = zero_result\<lparr>res_status_code := QRVMC_REJECTED\<rparr>"

definition precompile_id :: "address \<Rightarrow> nat" where
  "precompile_id addr = unat (push_bit 8 (ucast (bytes addr ! 18)) OR ucast (bytes addr ! 19) :: u32)"

definition precompiles_execute ::
  "unit \<Rightarrow> 's qrvmc_host_interface option \<Rightarrow> 's \<Rightarrow> heap \<Rightarrow> qrvmc_revision \<Rightarrow> qrvmc_message \<Rightarrow> u8 list \<Rightarrow>
   (qrvmc_result \<times> unit \<times> 's \<times> heap) option" where
  "precompiles_execute vm host ctx h revision msg code =
     (let addr = msg_code_address msg in
      if \<exists>x \<in> set (take 18 (bytes addr)). x \<noteq> 0
      then Some (zero_result\<lparr>res_status_code := QRVMC_REJECTED\<rparr>, vm, ctx, h)
      else
        let id = precompile_id addr in
        if id \<in> {0x0001, 0x0002, 0x0004}
        then map_option (\<lambda>(r, h). (r, vm, ctx, h)) (execute_identity msg h)
        else if id \<in> {0x0005, 0x0006, 0x0007, 0x0008} then Some (not_implemented, vm, ctx, h)
        else Some (execute_empty msg, vm, ctx, h))"

definition qrvmc_create_example_precompiles_vm :: "string \<Rightarrow> (unit, 's) qrvmc_vm" where
  "qrvmc_create_example_precompiles_vm project_version =
     \<lparr>abi_version = QRVMC_ABI_VERSION, vm_name = ''example_precompiles_vm'', vm_version = project_version,
      vm_destroy = Destroy_nothing, vm_execute = precompiles_execute,
      vm_get_capabilities = (\<lambda>vm. QRVMC_CAPABILITY_PRECOMPILES), vm_set_option = None\<rparr>"

section \<open>Addresses\<close>

lemma list_all_zero_replicate: "\<forall>x \<in> set xs. x = a \<Longrightarrow> xs = replicate (length xs) a"
  by (induction xs) auto

lemma be_val_zeros: "be_val bs = 0 \<longleftrightarrow> (\<forall>x \<in> set bs. x = 0)"
  by (induction bs) (auto simp: unat_eq_0)

lemma precompile_range:
  "(\<exists>x \<in> set (take 18 (bytes a)). x \<noteq> 0) \<longleftrightarrow> 2 ^ 16 \<le> uint_of (a :: address)"
proof -
  have "uint_of a = be_val (take 18 (bytes a)) * 2 ^ 16 + be_val (drop 18 (bytes a))"
    using be_val_append [of "take 18 (bytes a)" "drop 18 (bytes a)"] by (simp add: uint_of_def)
  moreover have "be_val (drop 18 (bytes a)) < 2 ^ 16"
    using be_val_less [of "drop 18 (bytes a)"] by simp
  ultimately have "2 ^ 16 \<le> uint_of a \<longleftrightarrow> be_val (take 18 (bytes a)) \<noteq> 0" by auto
  then show ?thesis by (simp add: be_val_zeros)
qed

lemma precompile_id_eq:
  assumes "uint_of a < 2 ^ 16"
  shows "precompile_id a = uint_of a"
proof -
  obtain x y where xy: "drop 18 (bytes a) = [x, y]"
  proof -
    have "length (drop 18 (bytes a)) = 2" by simp
    then show thesis using that by (metis (no_types, opaque_lifting) length_0_conv length_Suc_conv numeral_2_eq_2)
  qed
  then have n: "bytes a ! 18 = x" "bytes a ! 19 = y"
    using nth_drop [of 18 "bytes a" 0] nth_drop [of 18 "bytes a" 1] by simp_all
  have "be_val (take 18 (bytes a)) = 0"
    using assms precompile_range [of a] be_val_zeros by (metis not_less)
  moreover have "be_val (bytes a) = be_val (take 18 (bytes a)) * 256 ^ length [x, y] + be_val [x, y]"
    using be_val_append [of "take 18 (bytes a)" "[x, y]"] xy by (metis append_take_drop_id)
  ultimately have "uint_of a = unat x * 256 + unat y" by (simp add: uint_of_def)
  moreover have "unat (push_bit 8 (ucast x) OR ucast y :: u32) = unat x * 256 + unat y"
    using unat_shift_in_list [of "0 :: u32" "[x, y]"] by simp
  ultimately show ?thesis by (simp add: precompile_id_def n)
qed

text \<open>Which precompile runs. The VM rejects code addresses from \<open>2 ^ 16\<close> on and the contracts 5 to 8,
  runs the identity for 1, 2 and 4, and for every other address below \<open>2 ^ 16\<close> behaves as empty code
  does, returning the gas it was given. It never looks at the Host, the code or the revision.\<close>

theorem precompiles_dispatch:
  "precompiles_execute vm host ctx h revision msg code =
     (let id = uint_of (msg_code_address msg) in
      if id \<in> {1, 2, 4} then map_option (\<lambda>(r, h). (r, vm, ctx, h)) (execute_identity msg h)
      else if id \<in> {5..8} \<or> 2 ^ 16 \<le> id
        then Some (zero_result\<lparr>res_status_code := QRVMC_REJECTED\<rparr>, vm, ctx, h)
      else Some (zero_result\<lparr>res_status_code := QRVMC_SUCCESS, res_gas_left := msg_gas msg\<rparr>, vm, ctx, h))"
proof (cases "2 ^ 16 \<le> uint_of (msg_code_address msg)")
  case True
  then show ?thesis using precompile_range [of "msg_code_address msg"]
    by (auto simp: precompiles_execute_def Let_def)
next
  case False
  have range: "id \<in> {5..8} \<longleftrightarrow> id \<in> {5, 6, 7, 8}" for id :: nat by auto
  show ?thesis
    using False precompile_range [of "msg_code_address msg"] precompile_id_eq [of "msg_code_address msg"]
    unfolding range
    by (simp add: precompiles_execute_def Let_def not_implemented_def execute_empty_def)
qed

lemma i64_ops_Some:
  "i64_range (sint a + sint b) \<Longrightarrow> \<exists>c. i64_add a b = Some c \<and> sint c = sint a + sint b"
  "i64_range (sint a * sint b) \<Longrightarrow> \<exists>c. i64_mul a b = Some c \<and> sint c = sint a * sint b"
  "b \<noteq> 0 \<Longrightarrow> i64_range (sint a sdiv sint b) \<Longrightarrow> \<exists>c. i64_div a b = Some c \<and> sint c = sint a sdiv sint b"
  using sint_of_int_i64 [of "sint a + sint b"] sint_of_int_i64 [of "sint a * sint b"]
    sint_of_int_i64 [of "sint a sdiv sint b"]
  by (simp_all add: i64_add_def i64_mul_def i64_div_def i64_of_int_def)

lemma identity_gas_cost_value:
  assumes "n < 2 ^ 62"
  obtains c where "identity_gas_cost n = Some c" and "sint c = 15 + 3 * ((int n + 31) div 32)"
proof -
  have n: "sint (of_nat n :: i64) = int n"
    using assms sint_of_int_i64 [of "int n"] by (simp add: i64_range_def)
  have d: "0 \<le> (int n + 31) div 32" "(int n + 31) div 32 \<le> 2 ^ 58"
    using assms by simp_all
  obtain a where a: "i64_add (of_nat n) 31 = Some a" "sint a = int n + 31"
    using i64_ops_Some(1) [of "of_nat n" 31] assms n by (auto simp: i64_range_def)
  have sd: "(int n + 31) sdiv 32 = (int n + 31) div 32"
    by (simp add: signed_divide_int_def)
  obtain b where b: "i64_div a 32 = Some b" "sint b = (int n + 31) div 32"
    using i64_ops_Some(3) [of 32 a] a d sd by (auto simp: i64_range_def)
  obtain m where m: "i64_mul 3 b = Some m" "sint m = 3 * ((int n + 31) div 32)"
    using i64_ops_Some(2) [of 3 b] b d by (auto simp: i64_range_def)
  obtain c where "i64_add 15 m = Some c" "sint c = 15 + 3 * ((int n + 31) div 32)"
    using i64_ops_Some(1) [of 15 m] m d by (auto simp: i64_range_def)
  then show thesis using that a b m by (simp add: identity_gas_cost_def)
qed

text \<open>C32: the identity precompile. For an input of less than \<open>2 ^ 62\<close> bytes that can be read and gas that is not negative it costs 15
  plus 3 for every started word; with less gas it reports so and touches no memory; otherwise, when
  the allocator grants the memory, the output is a copy of the input in a block of its own, the
  result can be released once, and releasing it leaves the blocks as they were.\<close>

theorem identity_copies:
  assumes "heap_wf h" and "mem_read h (msg_input_data msg) (msg_input_size msg) = Some input"
    and "msg_input_size msg < 2 ^ 62" and "0 \<le> sint (msg_gas msg)" and "granted h (fresh h) (msg_input_size msg)"
  defines "cost \<equiv> 15 + 3 * ((int (msg_input_size msg) + 31) div 32)"
  shows "if sint (msg_gas msg) < cost
    then execute_identity msg h = Some (zero_result\<lparr>res_status_code := QRVMC_OUT_OF_GAS\<rparr>, h)
    else \<exists>r h' h''. execute_identity msg h = Some (r, h') \<and> res_status_code r = QRVMC_SUCCESS \<and>
      sint (res_gas_left r) = sint (msg_gas msg) - cost \<and> res_output_size r = msg_input_size msg \<and>
      mem_read h' (res_output_data r) (res_output_size r) = Some input \<and> lawful_result h (Some (r, h')) \<and>
      call_release r h' = Some h'' \<and> blocks h'' = blocks h"
proof -
  let ?n = "msg_input_size msg"
  obtain c where c: "identity_gas_cost ?n = Some c" "sint c = cost"
    using identity_gas_cost_value [OF assms(3)] unfolding cost_def by metis
  have "0 \<le> cost" "cost < 2 ^ 63" using assms(3) by (simp_all add: cost_def)
  then have "i64_range (sint (msg_gas msg) - sint c)"
    using c(2) assms(4) sint_i64_range [of "msg_gas msg"] by (simp add: i64_range_def)
  then obtain g where g: "i64_sub (msg_gas msg) c = Some g" by (simp add: i64_sub_def)
  have gs: "sint g = sint (msg_gas msg) - cost" using i64_sub_Some [OF g] c(2) by simp
  show ?thesis
  proof (cases "sint (msg_gas msg) < cost")
    case True
    then show ?thesis using c(1) g gs by (simp add: execute_identity_def)
  next
    case False
    let ?r = "zero_result\<lparr>res_status_code := QRVMC_SUCCESS, res_output_data := Ptr (fresh h) 0,
      res_output_size := ?n, res_release := Delete_output, res_gas_left := g\<rparr>"
    let ?h1 = "snd (allocate New_array (replicate ?n (junk h)) h)"
    let ?h2 = "snd (allocate New_array input h)"
    have len: "length input = ?n" using assms(2) by (rule mem_read_length)
    have "mem_read ?h1 (msg_input_data msg) ?n = Some input"
      using mem_read_allocate_other [OF assms(1,2)] .
    moreover have "mem_write ?h1 (Ptr (fresh h) 0) input = Some ?h2"
      using len by (cases "input = []") (simp_all add: mem_write_def allocate_def copy_into_def patch_def)
    ultimately have e: "execute_identity msg h = Some (?r, ?h2)"
      using c(1) g gs False assms(5)
      by (simp add: execute_identity_def new_array_def Let_def allocate_def)
    have "lawful_result h (Some (?r, ?h2))"
      by (rule lawful_allocated [OF assms(1)]) (simp_all add: release_kind_def)
    moreover have "mem_read ?h2 (Ptr (fresh h) 0) ?n = Some input"
      using mem_read_allocate [of New_array input h] len by (simp add: allocate_def)
    moreover have "call_release ?r ?h2 = Some (?h2\<lparr>blocks := (blocks ?h2)(fresh h := None)\<rparr>)"
      by (simp add: call_release_def deallocate_def allocate_def)
    moreover have "(blocks ?h2)(fresh h := None) = blocks h"
      using heap_wf_fresh [OF assms(1)] by (auto simp: allocate_def fun_eq_iff)
    ultimately show ?thesis using e gs False by auto
  qed
qed

theorem identity_copies_witness:
  "\<exists>r h'. execute_identity (zero_message\<lparr>msg_gas := 100, msg_input_data := Ptr 0 0, msg_input_size := 3\<rparr>) sample_heap =
      Some (r, h') \<and> sint (res_gas_left r) = 82 \<and>
     mem_read h' (res_output_data r) 3 = mem_read sample_heap (Ptr 0 0) 3"
proof -
  let ?m = "zero_message\<lparr>msg_gas := 100, msg_input_data := Ptr 0 0, msg_input_size := 3\<rparr>"
  have "heap_wf sample_heap" by (simp add: heap_wf_def sample_heap_def)
  moreover obtain bs where "mem_read sample_heap (Ptr 0 0) 3 = Some bs"
    by (simp add: sample_heap_def mem_read_def region_def)
  ultimately show ?thesis
    using identity_copies [of sample_heap ?m bs] by (auto simp: sample_heap_def)
qed

end
