(* ===== verification/VmTester.thy ===== *)
theory VmTester
  imports VMSafety MockedHost Precompiles
begin

text \<open>
  \<^verbatim>\<open>tools/vmtester/tests.cpp\<close>: the tests every VM should pass, as functions of the VM instance, and the
  proofs that the two VMs of the repository pass them. The Host of a test is a local object; the
  strings it may have recorded are not given back in the model.
\<close>

section \<open>The tests\<close>

text \<open>
  A test is a function of the data of the instance under test and the memory; the flag says whether
  no expectation failed, and the value is undefined where the test itself would be.
\<close>

type_synonym 'v vm_test = "'v \<Rightarrow> heap \<Rightarrow> (bool \<times> 'v \<times> heap) option"

text \<open>Reading every byte of a buffer shows that it is there.\<close>

definition read_buffer :: "heap \<Rightarrow> ptr \<Rightarrow> nat \<Rightarrow> unit option" where
  "read_buffer h p n = map_option (\<lambda>_. ()) (mem_read h p n)"

definition test_abi_version_match :: "('v, 's) qrvmc_vm \<Rightarrow> bool" where
  "test_abi_version_match vm \<longleftrightarrow> abi_version vm = QRVMC_ABI_VERSION"

text \<open>The names and versions are compared with what the wrapper \<^verbatim>\<open>owned_vm\<close> returns, which reads them from the
  instance it owns; the fixture takes \<^verbatim>\<open>vm\<close> from it.\<close>

definition test_name :: "('v, 's) qrvmc_vm \<Rightarrow> ('v, 's) qrvmc_vm \<Rightarrow> bool" where
  "test_name owned_vm vm \<longleftrightarrow> length (vm_name vm) \<noteq> 0 \<and> vm_name owned_vm = vm_name vm"

definition test_version :: "('v, 's) qrvmc_vm \<Rightarrow> ('v, 's) qrvmc_vm \<Rightarrow> bool" where
  "test_version owned_vm vm \<longleftrightarrow> length (vm_version vm) \<noteq> 0 \<and> vm_version owned_vm = vm_version vm"

definition test_capabilities :: "('v, 's) qrvmc_vm \<Rightarrow> 'v \<Rightarrow> bool" where
  "test_capabilities vm v \<longleftrightarrow>
     qrvmc_vm_has_capability vm v QRVMC_CAPABILITY_QRVM1 \<or>
     qrvmc_vm_has_capability vm v QRVMC_CAPABILITY_PRECOMPILES"

text \<open>The expectation on the gas that all execution tests share.\<close>

definition gas_left_expected :: "qrvmc_result \<Rightarrow> bool" where
  "gas_left_expected result \<longleftrightarrow>
     (if res_status_code result \<noteq> QRVMC_SUCCESS \<and> res_status_code result \<noteq> QRVMC_REVERT
      then res_gas_left result = 0 else True)"

definition test_code :: "u8 list" where
  "test_code = [0xfe, 0x00]"

definition create_test_message :: qrvmc_message where
  "create_test_message = \<lparr>msg_kind = QRVMC_CREATE, msg_flags = 0, msg_depth = 0, msg_gas = 65536,
     msg_recipient = 0, msg_sender = 0, msg_input_data = Null, msg_input_size = 0, msg_value = 0,
     msg_create2_salt = 0, msg_code_address = 0\<rparr>"

text \<open>The body both execution tests have, for a message.\<close>

definition test_execute :: "qrvmc_message \<Rightarrow> ('v, mocked_host) qrvmc_vm \<Rightarrow> 'v vm_test" where
  "test_execute msg vm v h = do {
     (result, v, _, h) \<leftarrow> vm_execute vm v (Some (get_interface MockedHost)) mocked_host_init h
        QRVMC_MAX_REVISION msg test_code;
     output_ok \<leftarrow>
       (if res_output_data result = Null then Some (res_output_size result = 0)
        else do {
          _ \<leftarrow> read_buffer h (res_output_data result) (res_output_size result);
          Some (res_output_size result \<noteq> 0)
        });
     h \<leftarrow> (if res_release result \<noteq> No_release then call_release result h else Some h);
     Some (gas_left_expected result \<and> output_ok \<and> address_is_zero (res_create_address result), v, h)
   }"

definition test_execute_call :: "('v, mocked_host) qrvmc_vm \<Rightarrow> 'v vm_test" where
  "test_execute_call = test_execute zero_message"

definition test_execute_create :: "('v, mocked_host) qrvmc_vm \<Rightarrow> 'v vm_test" where
  "test_execute_create = test_execute create_test_message"

definition test_set_option_unknown_name :: "('v, 's) qrvmc_vm \<Rightarrow> 'v vm_test" where
  "test_set_option_unknown_name vm v h =
     (case vm_set_option vm of
        None \<Rightarrow> Some (True, v, h)
      | Some f \<Rightarrow>
          let (r1, v) = f v ''unknown_option_csk9twq'' (Some ''v'');
              (r2, v) = f v ''unknown_option_csk9twq'' (Some ''x'')
          in Some (r1 = QRVMC_SET_OPTION_INVALID_NAME \<and> r2 = QRVMC_SET_OPTION_INVALID_NAME, v, h))"

definition test_set_option_empty_value :: "('v, 's) qrvmc_vm \<Rightarrow> 'v vm_test" where
  "test_set_option_empty_value vm v h =
     (case vm_set_option vm of
        None \<Rightarrow> Some (True, v, h)
      | Some f \<Rightarrow>
          let (r, v) = f v ''unknown_option_csk9twq'' None
          in Some (r = QRVMC_SET_OPTION_INVALID_NAME, v, h))"

definition test_set_option_unknown_value :: "('v, 's) qrvmc_vm \<Rightarrow> 'v vm_test" where
  "test_set_option_unknown_value vm v h =
     (let (r, v) = qrvmc_set_option vm v ''verbose'' (Some ''1'') in
      if r \<noteq> QRVMC_SET_OPTION_INVALID_NAME then
        let (r2, v) = qrvmc_set_option vm v ''verbose'' (Some ''GjNOONsbUl'');
            (r3, v) = qrvmc_set_option vm v ''verbose'' None
        in Some (r2 = QRVMC_SET_OPTION_INVALID_VALUE \<and> r3 = QRVMC_SET_OPTION_INVALID_VALUE, v, h)
      else Some (True, v, h))"

text \<open>The loop of \<^verbatim>\<open>precompile_test\<close>: the message for the address \<open>i\<close>, one round, and all rounds.\<close>

definition precompile_address :: "nat \<Rightarrow> address" where
  "precompile_address i =
     barray_init ((bytes (0 :: address))[18 := of_nat (drop_bit 8 i), 19 := of_nat (i AND 0xff)])"

definition precompile_message :: "nat \<Rightarrow> qrvmc_message" where
  "precompile_message i = \<lparr>msg_kind = QRVMC_CALL, msg_flags = 0, msg_depth = 0, msg_gas = 65536,
     msg_recipient = 0, msg_sender = 0, msg_input_data = Null, msg_input_size = 0, msg_value = 0,
     msg_create2_salt = 0, msg_code_address = precompile_address i\<rparr>"

definition precompile_round ::
  "('v, 's) qrvmc_vm \<Rightarrow> 's \<Rightarrow> nat \<Rightarrow> 'v vm_test" where
  "precompile_round vm null_context i v h = do {
     (result, v, _, h) \<leftarrow> vm_execute vm v None null_context h QRVMC_MAX_REVISION (precompile_message i) [];
     let status_ok = res_status_code result \<in>
       {QRVMC_SUCCESS, QRVMC_OUT_OF_GAS, QRVMC_FAILURE, QRVMC_REVERT, QRVMC_REJECTED};
     output_ok \<leftarrow>
       (if res_output_data result = Null then Some (res_output_size result = 0)
        else if res_output_size result \<noteq> 0 then do {
          _ \<leftarrow> read_buffer h (res_output_data result) (res_output_size result);
          Some True
        } else Some True);
     h \<leftarrow> (if res_release result \<noteq> No_release then call_release result h else Some h);
     Some (status_ok \<and> gas_left_expected result \<and> output_ok, v, h)
   }"

fun precompile_rounds :: "('v, 's) qrvmc_vm \<Rightarrow> 's \<Rightarrow> nat list \<Rightarrow> 'v vm_test" where
  "precompile_rounds vm null_context [] v h = Some (True, v, h)"
| "precompile_rounds vm null_context (i # is) v h = do {
     (ok1, v, h) \<leftarrow> precompile_round vm null_context i v h;
     (ok2, v, h) \<leftarrow> precompile_rounds vm null_context is v h;
     Some (ok1 \<and> ok2, v, h)
   }"

definition test_precompiles :: "('v, 's) qrvmc_vm \<Rightarrow> 's \<Rightarrow> 'v vm_test" where
  "test_precompiles vm null_context v h =
     (if \<not> qrvmc_vm_has_capability vm v QRVMC_CAPABILITY_PRECOMPILES then Some (True, v, h)
      else precompile_rounds vm null_context [0..<0xffff] v h)"

text \<open>All tests, one after the other, on one instance.\<close>

definition run_all_tests :: "('v, mocked_host) qrvmc_vm \<Rightarrow> mocked_host \<Rightarrow> 'v vm_test" where
  "run_all_tests vm null_context v h = do {
     let constants_ok = test_abi_version_match vm \<and> test_name vm vm \<and> test_version vm vm \<and> test_capabilities vm v;
     (ok1, v, h) \<leftarrow> test_execute_call vm v h;
     (ok2, v, h) \<leftarrow> test_execute_create vm v h;
     (ok3, v, h) \<leftarrow> test_set_option_unknown_name vm v h;
     (ok4, v, h) \<leftarrow> test_set_option_empty_value vm v h;
     (ok5, v, h) \<leftarrow> test_set_option_unknown_value vm v h;
     (ok6, v, h) \<leftarrow> test_precompiles vm null_context v h;
     Some (constants_ok \<and> ok1 \<and> ok2 \<and> ok3 \<and> ok4 \<and> ok5 \<and> ok6, v, h)
   }"

section \<open>The VMs of the repository pass\<close>

lemma capability_bits [simp]:
  "QRVMC_CAPABILITY_QRVM1 \<noteq> 0" "QRVMC_CAPABILITY_PRECOMPILES \<noteq> 0"
  "QRVMC_CAPABILITY_QRVM1 AND QRVMC_CAPABILITY_PRECOMPILES = 0"
  by (simp_all add: QRVMC_CAPABILITY_QRVM1_def QRVMC_CAPABILITY_PRECOMPILES_def push_bit_eq_mult)

lemma result_without_output:
  "res_output_data r = Null \<Longrightarrow> res_output_size r = 0 \<Longrightarrow> res_release r = No_release \<Longrightarrow>
   res_create_address r = 0 \<Longrightarrow> gas_left_expected r \<Longrightarrow>
   vm_execute vm v (Some (get_interface MockedHost)) mocked_host_init h QRVMC_MAX_REVISION msg test_code =
     Some (r, v', s, h') \<Longrightarrow> test_execute msg vm v h = Some (True, v', h')"
  by (simp add: test_execute_def)

text \<open>The first instruction \<^verbatim>\<open>0xfe\<close> ends an execution of the example VM, for lack of gas or as undefined.\<close>

lemma example_vm_test_execute:
  assumes "i64_range (sint (msg_gas msg) - 1)"
  obtains h' where "test_execute msg (fst (ExampleVM_init version)) v h = Some (True, v, h')"
proof -
  let ?f = "initial_frame msg mocked_host_init h"
  define st where "st = (if sint (msg_gas msg - 1) < 0 then QRVMC_OUT_OF_GAS else QRVMC_UNDEFINED_INSTRUCTION)"
  have "step (Some (get_interface MockedHost)) msg test_code 0 ?f =
      Some (Return (zero_result\<lparr>res_status_code := st, res_gas_left := 0, res_gas_refund := 0\<rparr>) mocked_host_init (fr_heap ?f))"
    using assms by (simp add: step_def i64_sub_def initial_frame_def test_code_def dispatch_def st_def
        return_result_def make_result_no_output Let_def)
  then have "vm_execute (fst (ExampleVM_init version)) v (Some (get_interface MockedHost)) mocked_host_init h
      QRVMC_MAX_REVISION msg test_code =
    Some (zero_result\<lparr>res_status_code := st, res_gas_left := 0, res_gas_refund := 0\<rparr>, v, mocked_host_init,
      forget (Some (fresh h)) (fr_heap ?f))"
    by (simp add: ExampleVM_init_def execute_initial run_loop.simps [of _ _ _ 0]) (simp add: test_code_def)
  from result_without_output [OF _ _ _ _ _ this] show thesis
    using that by (simp add: zero_result_def gas_left_expected_def)
qed

lemma verbose_values:
  "example_set_option v ''verbose'' (Some ''1'') = (QRVMC_SET_OPTION_SUCCESS, v\<lparr>verbose := 1\<rparr>)"
  "example_set_option v ''verbose'' (Some ''GjNOONsbUl'') = (QRVMC_SET_OPTION_INVALID_VALUE, v)"
proof -
  have "strtol0 ''1'' = (1, 1)" "strtol0 ''GjNOONsbUl'' = (0, 0)" by code_simp+
  then show "example_set_option v ''verbose'' (Some ''1'') = (QRVMC_SET_OPTION_SUCCESS, v\<lparr>verbose := 1\<rparr>)"
    "example_set_option v ''verbose'' (Some ''GjNOONsbUl'') = (QRVMC_SET_OPTION_INVALID_VALUE, v)"
    by (simp_all add: example_set_option_def)
qed

lemma example_vm_all_tests:
  assumes "version \<noteq> []"
  shows "\<exists>v h'. run_all_tests (fst (ExampleVM_init version)) null_context \<lparr>verbose = 0\<rparr> h = Some (True, v, h')"
proof -
  let ?vm = "fst (ExampleVM_init version) :: (example_vm, mocked_host) qrvmc_vm" and ?v = "\<lparr>verbose = 0\<rparr>"
  have r: "i64_range (sint (msg_gas zero_message) - 1)" "i64_range (sint (msg_gas create_test_message) - 1)"
    by (simp_all add: zero_message_def create_test_message_def i64_range_def)
  obtain h1 where h1: "test_execute zero_message ?vm ?v h = Some (True, ?v, h1)"
    using example_vm_test_execute [OF r(1)] by metis
  obtain h2 where h2: "test_execute create_test_message ?vm ?v h1 = Some (True, ?v, h2)"
    using example_vm_test_execute [OF r(2)] by metis
  show ?thesis
    using h1 h2 assms
    by (simp add: run_all_tests_def test_execute_call_def test_execute_create_def)
      (simp add: test_set_option_unknown_name_def test_set_option_empty_value_def test_set_option_unknown_value_def
        test_precompiles_def test_abi_version_match_def test_name_def test_version_def test_capabilities_def
        qrvmc_vm_has_capability_def ExampleVM_init_def example_get_capabilities_def example_set_option_def [of _ "''unknown_option_csk9twq''"]
        qrvmc_set_option_def verbose_values Let_def, simp add: example_set_option_def)
qed

text \<open>The example VM, freshly made, passes every test of the VM tester.\<close>

theorem example_vm_passes_tester:
  assumes "version \<noteq> []"
  shows "case ExampleVM_init version of (vm, v) \<Rightarrow> \<exists>v' h'. run_all_tests vm null_context v h = Some (True, v', h')"
  using example_vm_all_tests [OF assms] by (simp add: ExampleVM_init_def split_beta)

theorem example_vm_passes_tester_witness:
  "case ExampleVM_init ''0.0.0'' of (vm, v) \<Rightarrow> \<exists>v' h'. run_all_tests vm mocked_host_init v sample_heap = Some (True, v', h')"
  by (rule example_vm_passes_tester) simp

text \<open>The precompiles VM. Its identity contract runs on an empty input, so it needs memory of size zero.\<close>

lemma precompile_address_value:
  assumes "i < 2 ^ 16"
  shows "uint_of (precompile_address i) = i"
proof -
  have "(replicate 20 (0 :: u8))[18 := a, 19 := b] = replicate 18 0 @ [a, b]" for a b
    by (simp add: numeral_eq_Suc)
  then have "bytes (precompile_address i) = replicate 18 0 @ [of_nat (drop_bit 8 i), of_nat (i AND 0xff)]"
    by (simp add: precompile_address_def bytes_init_full)
  then have "uint_of (precompile_address i) = unat (of_nat (drop_bit 8 i) :: u8) * 256 + unat (of_nat (i AND 0xff) :: u8)"
    by (simp add: uint_of_def be_val_append)
  moreover have "drop_bit 8 i = i div 256" by (simp add: drop_bit_eq_div)
  moreover have "i AND 0xff = i mod 256"
    using take_bit_eq_mask [of 8 i] by (simp add: mask_eq_exp_minus_1 take_bit_eq_mod)
  moreover have "i div 256 < 256" using assms by auto
  ultimately show ?thesis by (simp add: unat_of_nat)
qed

definition grants_empty :: "heap \<Rightarrow> bool" where
  "grants_empty h \<longleftrightarrow> heap_wf h \<and> (\<forall>k. granted h k 0)"

lemma identity_round:
  assumes "grants_empty h"
  obtains r h' h'' where "execute_identity (precompile_message i) h = Some (r, h')" and "res_status_code r = QRVMC_SUCCESS"
    and "res_output_data r \<noteq> Null" and "res_output_size r = 0" and "res_release r = Delete_output"
    and "call_release r h' = Some h''" and "grants_empty h''"
proof -
  obtain c where c: "identity_gas_cost 0 = Some c" "sint c = 15" using identity_gas_cost_value [of 0] by auto
  have g: "i64_sub 65536 c = Some (65536 - c)" using c(2) by (simp add: i64_sub_def i64_range_def)
  have s: "sint (65536 - c) = 65521" using i64_sub_Some [OF g] c(2) by simp
  let ?r = "zero_result\<lparr>res_status_code := QRVMC_SUCCESS, res_output_data := Ptr (fresh h) 0,
      res_output_size := 0, res_release := Delete_output, res_gas_left := 65536 - c\<rparr>"
  let ?h = "snd (allocate New_array [] h)"
  have e: "execute_identity (precompile_message i) h = Some (?r, ?h)"
    using assms c(1) g s by (simp add: execute_identity_def precompile_message_def new_array_def grants_empty_def
        allocate_def mem_read_def mem_write_def Let_def)
  have l: "call_release ?r ?h = Some (?h\<lparr>blocks := (blocks ?h)(fresh h := None)\<rparr>)"
    by (simp add: call_release_def deallocate_def allocate_def)
  have "grants_empty (?h\<lparr>blocks := (blocks ?h)(fresh h := None)\<rparr>)"
    using assms by (auto simp: grants_empty_def heap_wf_def allocate_def less_Suc_eq)
  then show thesis using that [OF e _ _ _ _ l] by simp
qed

lemma precompiles_round:
  assumes "grants_empty h" and "i < 2 ^ 16"
  shows "\<exists>h'. precompile_round (qrvmc_create_example_precompiles_vm version) ctx i v h = Some (True, v, h') \<and> grants_empty h'"
proof -
  obtain r h' h'' where r: "execute_identity (precompile_message i) h = Some (r, h')" "res_status_code r = QRVMC_SUCCESS"
    "res_output_data r \<noteq> Null" "res_output_size r = 0" "res_release r = Delete_output"
    "call_release r h' = Some h''" "grants_empty h''" using identity_round [OF assms(1)] by metis
  show ?thesis
    using r assms precompile_address_value [OF assms(2)]
    by (simp add: precompile_round_def qrvmc_create_example_precompiles_vm_def precompiles_dispatch Let_def
        gas_left_expected_def zero_result_def precompile_message_def)
qed

lemma precompiles_rounds:
  "grants_empty h \<Longrightarrow> \<forall>i \<in> set is. i < 2 ^ 16 \<Longrightarrow>
   \<exists>h'. precompile_rounds (qrvmc_create_example_precompiles_vm version) ctx is v h = Some (True, v, h') \<and> grants_empty h'"
proof (induction "is" arbitrary: h)
  case Nil
  then show ?case by simp
next
  case (Cons i "is")
  then obtain h1 where "precompile_round (qrvmc_create_example_precompiles_vm version) ctx i v h = Some (True, v, h1)"
    "grants_empty h1" using precompiles_round by fastforce
  with Cons.IH [of h1] Cons.prems show ?case by auto
qed

text \<open>C31: the precompiles VM passes every test of the VM tester, its loop over the precompile addresses
  included, on a heap whose allocator grants requests for no bytes.\<close>

theorem precompiles_vm_passes_tester:
  assumes "version \<noteq> []" and "grants_empty h"
  shows "\<exists>h'. run_all_tests (qrvmc_create_example_precompiles_vm version) null_context () h = Some (True, (), h')"
proof -
  let ?vm = "qrvmc_create_example_precompiles_vm version :: (unit, mocked_host) qrvmc_vm"
  have "uint_of (0 :: address) = 0" by (simp add: uint_of_eq_0_iff)
  then have e: "test_execute zero_message ?vm () h = Some (True, (), h)"
    "test_execute create_test_message ?vm () h = Some (True, (), h)"
    by (simp_all add: test_execute_def qrvmc_create_example_precompiles_vm_def precompiles_dispatch zero_message_def
        create_test_message_def gas_left_expected_def zero_result_def)
  obtain h' where p: "precompile_rounds ?vm null_context [0..<65535] () h = Some (True, (), h')"
    using precompiles_rounds [OF assms(2), of "[0..<65535]" version null_context] by auto
  show ?thesis
    using assms(1) e p
    by (simp add: run_all_tests_def test_execute_call_def test_execute_create_def test_precompiles_def)
      (simp add: test_set_option_unknown_name_def test_set_option_empty_value_def test_set_option_unknown_value_def
        test_abi_version_match_def test_name_def test_version_def test_capabilities_def qrvmc_vm_has_capability_def
        qrvmc_create_example_precompiles_vm_def qrvmc_set_option_def)
qed

theorem precompiles_vm_passes_tester_witness:
  "\<exists>h'. run_all_tests (qrvmc_create_example_precompiles_vm ''0.0.0'') mocked_host_init () sample_heap = Some (True, (), h')"
  by (rule precompiles_vm_passes_tester) (simp_all add: grants_empty_def sample_heap_def heap_wf_def)

text \<open>The loop of \<^verbatim>\<open>precompile_test\<close> stops before the last precompile address. Two VMs that differ only
  in what they do at the address \<open>0xffff\<close> (or above) get the same verdict, so the test cannot see a
  wrong result there.\<close>

theorem tester_skips_last_precompile:
  assumes "\<And>v h i. i < 0xffff \<Longrightarrow>
      vm_execute vm v None ctx h QRVMC_MAX_REVISION (precompile_message i) [] =
      vm_execute vm' v None ctx h QRVMC_MAX_REVISION (precompile_message i) []"
    and "vm_get_capabilities vm = vm_get_capabilities vm'"
  shows "test_precompiles vm ctx v h = test_precompiles vm' ctx v h \<and>
    uint_of (msg_code_address (precompile_message 0xffff)) = 0xffff"
proof -
  have "precompile_rounds vm ctx is v h = precompile_rounds vm' ctx is v h" if "\<forall>i \<in> set is. i < 0xffff" for "is" v h
    using that
  proof (induction "is" arbitrary: v h)
    case (Cons i "is")
    then have "precompile_round vm ctx i v h = precompile_round vm' ctx i v h" for v h
      using assms(1) by (simp add: precompile_round_def)
    then show ?case using Cons by simp
  qed simp
  from this [of "[0..<0xffff]"] show ?thesis
    using assms(2) precompile_address_value [of "0xffff"]
    by (simp add: test_precompiles_def qrvmc_vm_has_capability_def) (simp add: precompile_message_def)
qed

text \<open>A VM that breaks the rule about the gas at the address \<open>0xffff\<close>.\<close>

definition wrong_at_last :: "(unit, mocked_host) qrvmc_vm" where
  "wrong_at_last = (qrvmc_create_example_precompiles_vm ''0.0.0'')
     \<lparr>vm_execute := (\<lambda>v host ctx h revision msg code.
        if uint_of (msg_code_address msg) = 0xffff
        then Some (zero_result\<lparr>res_status_code := QRVMC_FAILURE, res_gas_left := 1\<rparr>, v, ctx, h)
        else precompiles_execute v host ctx h revision msg code)\<rparr>"

theorem tester_skips_last_precompile_witness:
  "test_precompiles (qrvmc_create_example_precompiles_vm ''0.0.0'') mocked_host_init () sample_heap =
   test_precompiles wrong_at_last mocked_host_init () sample_heap"
proof -
  have "vm_execute (qrvmc_create_example_precompiles_vm ''0.0.0'') v None mocked_host_init h QRVMC_MAX_REVISION
      (precompile_message i) [] =
    vm_execute wrong_at_last v None mocked_host_init h QRVMC_MAX_REVISION (precompile_message i) []"
    if "i < 0xffff" for v h i
    using that precompile_address_value [of i]
    by (simp add: wrong_at_last_def qrvmc_create_example_precompiles_vm_def precompile_message_def)
  from tester_skips_last_precompile [OF this] show ?thesis
    by (simp add: wrong_at_last_def qrvmc_create_example_precompiles_vm_def)
qed

end
