(* ===== verification/MockedRecords.thy ===== *)
theory MockedRecords
  imports MockedHost
begin

text \<open>
  What the MockedHost remembers of a VM's requests: the bounded records of accessed accounts and
  calls, the unbounded records of logs and block numbers, the access statuses of EIP-2929 that are
  derived from them, the copies of call inputs, and the answers to queries about accounts.
\<close>

section \<open>Records over sequences of operations\<close>

text \<open>The accounts an operation records; note that \<^verbatim>\<open>access_storage\<close> records none.\<close>

fun touched :: "host_op \<Rightarrow> address list" where
  "touched (Op_account_exists a) = [a]"
| "touched (Op_get_storage a k) = [a]"
| "touched (Op_set_storage a k v) = [a]"
| "touched (Op_get_balance a) = [a]"
| "touched (Op_get_code_size a) = [a]"
| "touched (Op_get_code_hash a) = [a]"
| "touched (Op_copy_code a off buf n) = [a]"
| "touched (Op_call msg) = [msg_recipient msg]"
| "touched (Op_access_account a) = [a]"
| "touched op = []"

fun logged :: "host_op \<Rightarrow> log_record list" where
  "logged (Op_emit_log a d n ts k) = [\<lparr>log_creator = a, log_data = take n d, log_topics = take k ts\<rparr>]"
| "logged op = []"

fun asked_block :: "host_op \<Rightarrow> i64 list" where
  "asked_block (Op_get_block_hash n) = [n]"
| "asked_block op = []"

text \<open>A recorded call, without the pointer that is redirected.\<close>

fun called :: "host_op \<Rightarrow> qrvmc_message list" where
  "called (Op_call msg) = [msg\<lparr>msg_input_data := Null\<rparr>]"
| "called op = []"

definition recorded_messages :: "mocked_host \<Rightarrow> qrvmc_message list" where
  "recorded_messages s = map (\<lambda>m. m\<lparr>msg_input_data := Null\<rparr>) (recorded_calls s)"

lemma recorded_accesses_record:
  "length (recorded_account_accesses s) \<le> 200 \<Longrightarrow>
   recorded_account_accesses (record_account_access a s) = take 200 (recorded_account_accesses s @ [a])"
  by (auto simp: record_account_access_def max_recorded_account_accesses_def)

lemma take_take_append: "take n (take n xs @ ys) = take n (xs @ ys)"
  by (cases "n \<le> length xs") auto

lemmas mocked_defs = mocked_account_exists_def get_storage_eq mocked_get_balance_def
  mocked_get_code_size_def mocked_get_code_hash_def mocked_get_tx_context_def
  mocked_get_block_hash_def mocked_access_account_def mocked_access_storage_def

lemma copy_code_state:
  "mocked_copy_code s a off buf sz = Some (n, buf', s') \<Longrightarrow> s' = record_account_access a s"
  by (auto simp: mocked_copy_code_def Let_def split: option.splits if_splits bind_splits)

lemma emit_log_state:
  "mocked_emit_log s a d n ts k = Some s' \<Longrightarrow>
   s' = s\<lparr>recorded_logs := recorded_logs s @ [\<lparr>log_creator = a, log_data = take n d, log_topics = take k ts\<rparr>]\<rparr>"
  by (auto simp: mocked_emit_log_def region_def bind_eq_Some_conv split: if_split_asm)

lemma set_storage_state:
  "mocked_set_storage s a k v = Some (st, s') \<Longrightarrow>
   s' = put_slot a k ((slot_at s a k)\<lparr>sv_current := v\<rparr>) (record_account_access a s)"
  using set_storage_eq [of s a k v] by auto

lemma call_state:
  assumes "mocked_call s h msg = Some (r, s', h')"
  shows "recorded_account_accesses s' = recorded_account_accesses (record_account_access (msg_recipient msg) s)"
    and "recorded_logs s' = recorded_logs s" and "recorded_blockhashes s' = recorded_blockhashes s"
    and "recorded_messages s' =
      (if length (recorded_calls s) < 100 then recorded_messages s @ [msg\<lparr>msg_input_data := Null\<rparr>]
       else recorded_messages s)"
    and "mh_accounts s' = mh_accounts s"
  using assms
  by (auto simp: mocked_call_def Let_def record_access_frame max_recorded_calls_def recorded_messages_def
      split: if_splits bind_splits prod.splits)

lemma records_step:
  assumes "host_step MockedHost op (s, h) = Some (s', h')"
    and "length (recorded_account_accesses s) \<le> 200" and "length (recorded_calls s) \<le> 100"
  shows "recorded_account_accesses s' = take 200 (recorded_account_accesses s @ touched op) \<and>
    recorded_messages s' = take 100 (recorded_messages s @ called op) \<and>
    recorded_logs s' = recorded_logs s @ logged op \<and>
    recorded_blockhashes s' = recorded_blockhashes s @ asked_block op"
proof (cases op)
  case (Op_call msg)
  with assms(1) obtain r where c: "mocked_call s h msg = Some (r, s', h')"
    by (auto simp: MockedHost_def)
  then show ?thesis
    using call_state [OF c] assms(2,3) Op_call
    by (auto simp: recorded_accesses_record recorded_messages_def)
next
  case (Op_copy_code a off buf n)
  then show ?thesis using assms
    by (auto simp: MockedHost_def recorded_messages_def host_simps recorded_accesses_record dest!: copy_code_state)
next
  case (Op_emit_log a d n ts k)
  then show ?thesis using assms by (auto simp: MockedHost_def recorded_messages_def dest!: emit_log_state)
next
  case (Op_set_storage a k v)
  then show ?thesis using assms
    by (auto simp: MockedHost_def recorded_messages_def host_simps recorded_accesses_record dest!: set_storage_state)
qed (use assms in \<open>auto simp: MockedHost_def mocked_defs recorded_messages_def record_access_frame
      put_slot_frame recorded_accesses_record Let_def split: option.splits\<close>)

lemma records_run:
  assumes "host_runs MockedHost c ops c'"
    and "length (recorded_account_accesses (fst c)) \<le> 200" and "length (recorded_calls (fst c)) \<le> 100"
  shows "recorded_account_accesses (fst c') =
      take 200 (recorded_account_accesses (fst c) @ concat (map touched ops)) \<and>
    recorded_messages (fst c') = take 100 (recorded_messages (fst c) @ concat (map called ops)) \<and>
    recorded_logs (fst c') = recorded_logs (fst c) @ concat (map logged ops) \<and>
    recorded_blockhashes (fst c') = recorded_blockhashes (fst c) @ concat (map asked_block ops)"
  using assms
proof (induction rule: host_runs.induct)
  case (host_runs_nil c)
  then show ?case by (simp add: recorded_messages_def)
next
  case (host_runs_cons op c c' ops c'')
  obtain s h s' h' where c: "c = (s, h)" "c' = (s', h')" by fastforce
  have st: "recorded_account_accesses s' = take 200 (recorded_account_accesses s @ touched op) \<and>
    recorded_messages s' = take 100 (recorded_messages s @ called op) \<and>
    recorded_logs s' = recorded_logs s @ logged op \<and>
    recorded_blockhashes s' = recorded_blockhashes s @ asked_block op"
    using records_step [of op s h s' h'] host_runs_cons c by simp
  have "length (recorded_messages s') = length (recorded_calls s')"
    and m: "length (recorded_messages s) = length (recorded_calls s)"
    by (simp_all add: recorded_messages_def)
  with st have le: "length (recorded_account_accesses s') \<le> 200" "length (recorded_calls s') \<le> 100"
    by (metis length_take min.cobounded2)+
  from host_runs_cons.IH le have
    "recorded_account_accesses (fst c'') = take 200 (recorded_account_accesses s' @ concat (map touched ops)) \<and>
     recorded_messages (fst c'') = take 100 (recorded_messages s' @ concat (map called ops)) \<and>
     recorded_logs (fst c'') = recorded_logs s' @ concat (map logged ops) \<and>
     recorded_blockhashes (fst c'') = recorded_blockhashes s' @ concat (map asked_block ops)"
    by (simp add: c)
  with st show ?case
    by (simp only: c fst_conv take_take_append append_assoc list.map concat.simps simp_thms)
qed

text \<open>C11: the records are the requests, in order, up to their bounds. After any sequence of Host
  operations on a MockedHost with empty records, \<^verbatim>\<open>recorded_account_accesses\<close> holds the first 200
  accounts touched by the operations that record an access, \<^verbatim>\<open>recorded_calls\<close> the first 100 call
  messages (up to the redirected input pointer), and logs and block numbers are recorded in full.
  \<^verbatim>\<open>access_account\<close> then answers WARM exactly for precompiles and for recorded accounts.\<close>

theorem mocked_records_requests:
  assumes "host_runs MockedHost (s, h) ops (s', h')"
    and "recorded_account_accesses s = []" and "recorded_calls s = []" and "recorded_logs s = []"
    and "recorded_blockhashes s = []"
  shows "recorded_account_accesses s' = take 200 (concat (map touched ops)) \<and>
    map (\<lambda>m. m\<lparr>msg_input_data := Null\<rparr>) (recorded_calls s') = take 100 (concat (map called ops)) \<and>
    recorded_logs s' = concat (map logged ops) \<and>
    recorded_blockhashes s' = concat (map asked_block ops) \<and>
    (fst (mocked_access_account s' a) = QRVMC_ACCESS_WARM \<longleftrightarrow>
       1 \<le> uint_of a \<and> uint_of a \<le> 9 \<or> a \<in> set (take 200 (concat (map touched ops))))"
proof -
  have r: "recorded_account_accesses s' = take 200 (concat (map touched ops))"
    "recorded_messages s' = take 100 (concat (map called ops))"
    "recorded_logs s' = concat (map logged ops)"
    "recorded_blockhashes s' = concat (map asked_block ops)"
    using records_run [OF assms(1)] assms(2-) by (simp_all add: recorded_messages_def)
  have "uint_of first_precompile = 1" "uint_of last_precompile = 9"
    by (simp_all add: first_precompile_def last_precompile_def uint_of_def bytes_init_full be_val_append)
  then have "first_precompile \<le> a \<longleftrightarrow> 1 \<le> uint_of a" "a \<le> last_precompile \<longleftrightarrow> uint_of a \<le> 9"
    using uint_of_le_iff [of first_precompile a] uint_of_le_iff [of a last_precompile] by simp_all
  then show ?thesis
    using r by (auto simp: mocked_access_account_def Let_def recorded_messages_def
        address_ge_def address_le_def address_gt_def)
qed

theorem mocked_records_requests_witness:
  "\<exists>s'. host_runs MockedHost (mocked_host_init, sample_heap)
       [Op_get_balance (address_of_u64 77), Op_access_account (address_of_u64 3), Op_get_block_hash 5]
       (s', sample_heap) \<and>
     recorded_account_accesses s' = [address_of_u64 77, address_of_u64 3] \<and>
     fst (mocked_access_account s' (address_of_u64 77)) = QRVMC_ACCESS_WARM"
proof -
  let ?ops = "[Op_get_balance (address_of_u64 77), Op_access_account (address_of_u64 3), Op_get_block_hash 5]"
  have "\<exists>s'. host_runs MockedHost (mocked_host_init, sample_heap) ?ops (s', sample_heap)"
    by (simp add: host_runs_cons_iff MockedHost_def)
  then obtain s' where r: "host_runs MockedHost (mocked_host_init, sample_heap) ?ops (s', sample_heap)"
    by blast
  from mocked_records_requests [OF r, of "address_of_u64 77"] r show ?thesis
    by (auto simp: mocked_host_init_def)
qed

section \<open>Warm storage\<close>

lemma slot_status_step:
  assumes "host_step MockedHost op (s, h) = Some (s', h')"
  shows "sv_access_status (slot_at s' a k) =
      (if op = Op_access_storage a k then QRVMC_ACCESS_WARM else sv_access_status (slot_at s a k)) \<and>
    sv_original (slot_at s' a k) = sv_original (slot_at s a k)"
proof (cases op)
  case (Op_call msg)
  with assms obtain r where c: "mocked_call s h msg = Some (r, s', h')" by (auto simp: MockedHost_def)
  then show ?thesis using call_state(5) [OF c] Op_call by (simp add: slot_at_def account_at_def)
next
  case (Op_copy_code a off buf n)
  then show ?thesis using assms by (auto simp: MockedHost_def host_simps dest!: copy_code_state)
next
  case (Op_set_storage a k v)
  then show ?thesis using assms by (auto simp: MockedHost_def host_simps dest!: set_storage_state)
next
  case (Op_get_block_hash n)
  then show ?thesis using assms
    by (auto simp: MockedHost_def mocked_defs slot_at_def account_at_def)
next
  case (Op_emit_log a d n ts k)
  then show ?thesis using assms
    by (auto simp: MockedHost_def slot_at_def account_at_def dest!: emit_log_state)
qed (use assms in \<open>auto simp: MockedHost_def mocked_defs host_simps Let_def split: option.splits\<close>)

text \<open>C12: a storage slot is cold until it is accessed with \<^verbatim>\<open>access_storage\<close>, and warm ever after. No other
  Host operation changes the access status of any slot, and none at all changes an original value.\<close>

theorem mocked_access_storage_warm:
  assumes "host_runs MockedHost (s, h) ops (s', h')"
  shows "fst (mocked_access_storage s' a k) =
      (if Op_access_storage a k \<in> set ops then QRVMC_ACCESS_WARM else fst (mocked_access_storage s a k)) \<and>
    sv_original (slot_at s' a k) = sv_original (slot_at s a k)"
  using assms
proof (induction ops arbitrary: s h)
  case Nil
  then show ?case by simp
next
  case (Cons op ops)
  then obtain s1 h1 where "host_step MockedHost op (s, h) = Some (s1, h1)"
    "host_runs MockedHost (s1, h1) ops (s', h')"
    by (auto simp: host_runs_cons_iff)
  with Cons.IH [of s1 h1] slot_status_step [of op s h s1 h1 a k] show ?case
    by (simp add: mocked_access_storage_def Let_def)
qed

theorem mocked_access_storage_warm_witness:
  "\<exists>s'. host_runs MockedHost (mocked_host_init, sample_heap)
       [Op_access_storage 0 (bytes32_of_u64 5), Op_get_storage 0 (bytes32_of_u64 6)] (s', sample_heap) \<and>
     fst (mocked_access_storage s' 0 (bytes32_of_u64 5)) = QRVMC_ACCESS_WARM"
proof -
  let ?ops = "[Op_access_storage 0 (bytes32_of_u64 5), Op_get_storage 0 (bytes32_of_u64 6)]"
  have "\<exists>s'. host_runs MockedHost (mocked_host_init, sample_heap) ?ops (s', sample_heap)"
    by (simp add: host_runs_cons_iff MockedHost_def)
  then obtain s' where r: "host_runs MockedHost (mocked_host_init, sample_heap) ?ops (s', sample_heap)"
    by blast
  from mocked_access_storage_warm [OF r, of 0 "bytes32_of_u64 5"] r show ?thesis by auto
qed

section \<open>Recorded calls\<close>

text \<open>C13: a recorded call keeps its input. When a call is recorded, the stored message is the one given
  except that its input pointer leads to a new string with the same bytes, so the input can be
  read back whatever later happens to the memory of the caller. Nothing else in memory changes, and the
  result returned is the canned one.\<close>

theorem mocked_call_keeps_input:
  assumes "heap_wf h" and "length (recorded_calls s) < 100"
    and "mem_read h (msg_input_data msg) (msg_input_size msg) = Some input"
  shows "\<exists>s' h' p. mocked_call s h msg = Some (mh_call_result s, s', h') \<and>
    recorded_calls s' = recorded_calls s @ [msg\<lparr>msg_input_data := p\<rparr>] \<and>
    (\<forall>b. blocks h b \<noteq> None \<longrightarrow> blocks h' b = blocks h b) \<and>
    (msg_input_size msg \<noteq> 0 \<longrightarrow>
      (\<forall>h''. (\<forall>b. blocks h b = None \<longrightarrow> blocks h'' b = blocks h' b) \<longrightarrow>
         mem_read h'' p (msg_input_size msg) = Some input))"
proof (cases "msg_input_size msg = 0")
  case True
  have "msg = msg\<lparr>msg_input_data := msg_input_data msg\<rparr>" by simp
  then have "\<exists>p. msg = msg\<lparr>msg_input_data := p\<rparr>" ..
  with True assms(2) show ?thesis
    by (simp add: mocked_call_def record_access_frame max_recorded_calls_def Let_def result_from_raw_def)
next
  case False
  have "length input = msg_input_size msg" using assms(3) by (rule mem_read_length)
  moreover have "blocks h (fresh h) = None" using assms(1) by (rule heap_wf_fresh)
  ultimately show ?thesis using False assms(2,3)
    by (auto simp: mocked_call_def record_access_frame max_recorded_calls_def Let_def result_from_raw_def
        allocate_def mem_read_def region_def)
qed

definition sample_message :: qrvmc_message where
  "sample_message = zero_message\<lparr>msg_input_data := Ptr 0 1, msg_input_size := 2\<rparr>"

theorem mocked_call_keeps_input_witness:
  "\<exists>s' h' p. mocked_call mocked_host_init sample_heap sample_message = Some (zero_result, s', h') \<and>
     recorded_calls s' = [sample_message\<lparr>msg_input_data := p\<rparr>] \<and> mem_read h' p 2 = Some [8, 9]"
proof -
  have "mem_read sample_heap (msg_input_data sample_message) (msg_input_size sample_message) = Some [8, 9]"
    by (simp add: sample_message_def sample_heap_def mem_read_def region_def)
  moreover have "heap_wf sample_heap" by (simp add: heap_wf_def sample_heap_def)
  ultimately show ?thesis
    using mocked_call_keeps_input [of sample_heap mocked_host_init sample_message "[8, 9]"]
    by (fastforce simp: mocked_host_init_def sample_message_def)
qed

text \<open>
  The canned result is handed out as a \<^verbatim>\<open>Result\<close> that owns what it owns: when it has a release
  function, destroying the results of two calls releases the same block twice.
\<close>

lemma canned_result_released_twice:
  assumes "owned_block r = Some b" and "qrvmc_release_result r h = Some h'"
  shows "qrvmc_release_result r h' = None"
proof (rule release_result_None)
  have "releasable r h" using assms(2) release_result_None by fastforce
  then have "h' = forget (Some b) h" using assms release_result_Some by fastforce
  then show "\<not> releasable r h'"
    using assms(1) by (cases "res_output_data r")
      (auto simp: releasable_def owned_block_def forget_simps split: if_splits)
qed

section \<open>Queries\<close>

definition code_at :: "mocked_host \<Rightarrow> address \<Rightarrow> u8 list" where
  "code_at s a = acc_code (account_at s a)"

lemma set_balance_bytes: "acc_balance (set_balance x acc) = bytes32_of_u64 x"
proof -
  have "set_balance_loop 0 x (replicate 32 0) = replicate 24 0 @ u64_bytes x"
    by (simp add: set_balance_loop.simps numeral_eq_Suc u64_bytes_def)
  then show ?thesis by (simp add: set_balance_def bytes32_of_u64_def)
qed

text \<open>Queries about an account. \<^verbatim>\<open>get_code_size\<close> is the length of the code, zero for an account that
  is not there; \<^verbatim>\<open>copy_code\<close> writes the part of the code from the offset on that fits in the given size of
  the buffer, which is undefined when the buffer is shorter than that, leaves the rest of the buffer alone
  and returns the number of bytes written; a balance set by \<^verbatim>\<open>set_balance\<close> is the number given.\<close>

theorem mocked_queries:
  "fst (mocked_get_code_size s a) = length (code_at s a) \<and>
   mocked_copy_code s a off buffer sz =
     (let n = min sz (length (code_at s a) - off) in
      if n \<le> length buffer then Some (n, take n (drop off (code_at s a)) @ drop n buffer, record_account_access a s)
      else None) \<and>
   (fst (mocked_account_exists s a) \<longleftrightarrow> mh_accounts s a \<noteq> None) \<and>
   fst (mocked_get_balance (s\<lparr>mh_accounts := (mh_accounts s)(a \<mapsto> set_balance x acc)\<rparr>) a) =
     acc_balance (set_balance x acc) \<and>
   uint_of (acc_balance (set_balance x acc)) = unat x"
proof -
  have "uint_of (bytes32_of_u64 x) = unat x"
    by (simp add: uint_of_def bytes_bytes32_of_u64 be_val_append be_val_u64_bytes)
  moreover have "fst (mocked_get_code_size s a) = length (code_at s a)"
    by (simp add: mocked_get_code_size_def code_at_def account_at_def mocked_account_default_def
        record_access_frame Let_def split: option.split)
  moreover have "mocked_copy_code s a off buffer sz =
     (let n = min sz (length (code_at s a) - off) in
      if n \<le> length buffer then Some (n, take n (drop off (code_at s a)) @ drop n buffer, record_account_access a s)
      else None)"
    by (auto simp: mocked_copy_code_def code_at_def account_at_def mocked_account_default_def
        record_access_frame Let_def copy_into_def region_def patch_def split: option.split)
  ultimately show ?thesis
    by (simp add: set_balance_bytes mocked_account_exists_def mocked_get_balance_def record_access_frame Let_def)
qed

end
