(* ===== verification/ExampleHost.thy ===== *)
theory ExampleHost
  imports MockedHost "HOL-Library.Multiset"
begin

text \<open>
  \<^verbatim>\<open>examples/example_host.cpp\<close>: a Host over a map of accounts. Its storage has no original values, so
  \<^verbatim>\<open>set_storage\<close> knows two statuses only; its \<^verbatim>\<open>call\<close> returns the input; its code hash is a sum of the
  bytes by position classes. The lemmas interpret \<open>storage_host\<close> on it and compare it with the
  MockedHost. In \<^verbatim>\<open>get_block_hash\<close> the lower bound is computed in unbounded integers; the C++ subtraction
  overflows for block numbers below \<open>256 - 2 ^ 63\<close>.
\<close>

section \<open>State\<close>

record account =
  eh_balance :: uint256be
  eh_code :: "u8 list"
  eh_storage :: "bytes32 \<Rightarrow> bytes32 option"

definition account_default :: account where
  "account_default = \<lparr>eh_balance = 0, eh_code = [], eh_storage = Map.empty\<rparr>"

text \<open>One round of the loop of \<^verbatim>\<open>code_hash\<close>, and the loop.\<close>

definition hash_byte :: "u8 \<Rightarrow> bytes32 \<Rightarrow> bytes32" where
  "hash_byte v ret =
     barray_init ((bytes ret)[unat v mod 32 := (bytes ret ! (unat v mod 32)) XOR v])"

definition code_hash :: "account \<Rightarrow> bytes32" where
  "code_hash acc = fold hash_byte (eh_code acc) 0"

record example_host =
  eh_accounts :: "address \<Rightarrow> account option"
  eh_tx_context :: qrvmc_tx_context

text \<open>The constructors: without arguments, with a transaction context, and with accounts too.\<close>

definition example_host_init :: example_host where
  "example_host_init = \<lparr>eh_accounts = Map.empty, eh_tx_context = zero_tx_context\<rparr>"

definition example_host_with :: "qrvmc_tx_context \<Rightarrow> example_host" where
  "example_host_with tx = \<lparr>eh_accounts = Map.empty, eh_tx_context = tx\<rparr>"

definition example_host_with_accounts ::
  "qrvmc_tx_context \<Rightarrow> (address \<Rightarrow> account option) \<Rightarrow> example_host" where
  "example_host_with_accounts tx accs = \<lparr>eh_accounts = accs, eh_tx_context = tx\<rparr>"

section \<open>Operations\<close>

definition eh_account_exists :: "example_host \<Rightarrow> address \<Rightarrow> bool \<times> example_host" where
  "eh_account_exists s addr = (eh_accounts s addr \<noteq> None, s)"

definition eh_get_storage :: "example_host \<Rightarrow> address \<Rightarrow> bytes32 \<Rightarrow> bytes32 \<times> example_host" where
  "eh_get_storage s addr key =
     (case eh_accounts s addr of
        None \<Rightarrow> (0, s)
      | Some acc \<Rightarrow>
          (case eh_storage acc key of
             Some v \<Rightarrow> (v, s)
           | None \<Rightarrow> (0, s)))"

text \<open>\<^verbatim>\<open>accounts[addr]\<close> and \<^verbatim>\<open>storage[key]\<close> insert defaults; the write then replaces the value.\<close>

definition eh_set_storage ::
  "example_host \<Rightarrow> address \<Rightarrow> bytes32 \<Rightarrow> bytes32 \<Rightarrow> (qrvmc_storage_status \<times> example_host) option" where
  "eh_set_storage s addr key val =
     (let acc = (case eh_accounts s addr of Some acc \<Rightarrow> acc | None \<Rightarrow> account_default);
          prev_value = (case eh_storage acc key of Some v \<Rightarrow> v | None \<Rightarrow> 0);
          acc = acc\<lparr>eh_storage := (eh_storage acc)(key \<mapsto> val)\<rparr>
      in Some (if bytes32_eq prev_value val then QRVMC_STORAGE_ASSIGNED else QRVMC_STORAGE_MODIFIED,
               s\<lparr>eh_accounts := (eh_accounts s)(addr \<mapsto> acc)\<rparr>))"

definition eh_get_balance :: "example_host \<Rightarrow> address \<Rightarrow> uint256be \<times> example_host" where
  "eh_get_balance s addr =
     (case eh_accounts s addr of Some acc \<Rightarrow> (eh_balance acc, s) | None \<Rightarrow> (0, s))"

definition eh_get_code_size :: "example_host \<Rightarrow> address \<Rightarrow> nat \<times> example_host" where
  "eh_get_code_size s addr =
     (case eh_accounts s addr of Some acc \<Rightarrow> (length (eh_code acc), s) | None \<Rightarrow> (0, s))"

definition eh_get_code_hash :: "example_host \<Rightarrow> address \<Rightarrow> bytes32 \<times> example_host" where
  "eh_get_code_hash s addr =
     (case eh_accounts s addr of Some acc \<Rightarrow> (code_hash acc, s) | None \<Rightarrow> (0, s))"

definition eh_copy_code ::
  "example_host \<Rightarrow> address \<Rightarrow> nat \<Rightarrow> u8 list \<Rightarrow> nat \<Rightarrow> (nat \<times> u8 list \<times> example_host) option" where
  "eh_copy_code s addr code_offset buffer buffer_size =
     (case eh_accounts s addr of
        None \<Rightarrow> Some (0, buffer, s)
      | Some acc \<Rightarrow>
          let code = eh_code acc in
          if code_offset \<ge> length code then Some (0, buffer, s)
          else
            let n = min buffer_size (length code - code_offset) in
            if n > 0 then do {
              src \<leftarrow> region code_offset n code;
              buffer \<leftarrow> copy_into buffer 0 src;
              Some (n, buffer, s)
            } else Some (n, buffer, s))"

definition eh_call ::
  "example_host \<Rightarrow> heap \<Rightarrow> qrvmc_message \<Rightarrow> (qrvmc_result \<times> example_host \<times> heap) option" where
  "eh_call s h msg = do {
     (r, h) \<leftarrow> qrvmc_make_result QRVMC_REVERT (msg_gas msg) 0 (msg_input_data msg) (msg_input_size msg) h;
     Some (r, s, h)
   }"

definition eh_get_tx_context :: "example_host \<Rightarrow> qrvmc_tx_context \<times> example_host" where
  "eh_get_tx_context s = (eh_tx_context s, s)"

text \<open>The literal of \<^verbatim>\<open>get_block_hash\<close>; \<open>known_block_hash_literal\<close> below shows what it parses to.\<close>

definition known_block_hash :: bytes32 where
  "known_block_hash = barray_init (concat (replicate 8 [0xb1, 0x0c, 0x8a, 0x5f]))"

definition eh_get_block_hash :: "example_host \<Rightarrow> i64 \<Rightarrow> bytes32 \<times> example_host" where
  "eh_get_block_hash s number =
     (let current_block_number = block_number (fst (eh_get_tx_context s)) in
      (if sint number < sint current_block_number \<and> sint number \<ge> sint current_block_number - 256
       then known_block_hash else 0, s))"

definition eh_emit_log ::
  "example_host \<Rightarrow> address \<Rightarrow> u8 list \<Rightarrow> nat \<Rightarrow> bytes32 list \<Rightarrow> nat \<Rightarrow> example_host option" where
  "eh_emit_log s addr data data_size topics topics_count = Some s"

definition eh_access_account :: "example_host \<Rightarrow> address \<Rightarrow> qrvmc_access_status \<times> example_host" where
  "eh_access_account s addr = (QRVMC_ACCESS_COLD, s)"

definition eh_access_storage :: "example_host \<Rightarrow> address \<Rightarrow> bytes32 \<Rightarrow> qrvmc_access_status \<times> example_host" where
  "eh_access_storage s addr key = (QRVMC_ACCESS_COLD, s)"

definition ExampleHost_methods :: "example_host host_methods" where
  "ExampleHost_methods = \<lparr>
     account_exists = eh_account_exists, get_storage = eh_get_storage, set_storage = eh_set_storage,
     get_balance = eh_get_balance, get_code_size = eh_get_code_size, get_code_hash = eh_get_code_hash,
     copy_code = eh_copy_code, call = eh_call, get_tx_context = eh_get_tx_context,
     get_block_hash = eh_get_block_hash, emit_log = eh_emit_log,
     access_account = eh_access_account, access_storage = eh_access_storage\<rparr>"

text \<open>The C functions; the opaque context pointer is the object, so destroying it leaves nothing to model.\<close>

definition example_host_get_interface :: "example_host qrvmc_host_interface" where
  "example_host_get_interface = get_interface ExampleHost_methods"

definition example_host_create_context :: "qrvmc_tx_context \<Rightarrow> example_host" where
  "example_host_create_context tx = example_host_with tx"

lemma known_block_hash_literal:
  "literal_bytes32 (''0x'' @ concat (replicate 8 ''b10c8a5f'')) = Some known_block_hash"
proof -
  have "concat (replicate n (hex bs)) = hex (concat (replicate n bs))" for n bs
    by (induction n) (simp_all add: hex_append)
  from this [of 8 "[0xb1, 0x0c, 0x8a, 0x5f]"]
  have "concat (replicate 8 ''b10c8a5f'') = hex (concat (replicate 8 [0xb1, 0x0c, 0x8a, 0x5f]))"
    by (simp add: hex_byte_def hex_digits_def)
  then show ?thesis
    by (simp add: literal_bytes32_def parse_T_def from_hex_T_eq from_hex_into_eq hex_spec_hex
        known_block_hash_def length_concat sum_list_replicate)
qed

section \<open>Storage\<close>

definition example_value :: "example_host \<Rightarrow> address \<Rightarrow> bytes32 \<Rightarrow> bytes32" where
  "example_value s a k =
     (case eh_accounts s a of None \<Rightarrow> 0
      | Some acc \<Rightarrow> (case eh_storage acc k of None \<Rightarrow> 0 | Some v \<Rightarrow> v))"

interpretation example_storage: storage_host eh_get_storage eh_set_storage example_value
proof
  fix s a k v
  show "fst (eh_get_storage s a k) = example_value s a k"
    by (simp add: eh_get_storage_def example_value_def split: option.split)
  show "example_value (snd (eh_get_storage s a k)) = example_value s"
    by (simp add: eh_get_storage_def split: option.split)
  show "\<exists>st s'. eh_set_storage s a k v = Some (st, s') \<and>
      example_value s' = (example_value s)(a := (example_value s a)(k := v))"
    by (auto simp: eh_set_storage_def Let_def example_value_def fun_eq_iff account_default_def split: option.split)
qed

text \<open>The two Hosts of the repository agree on storage. Started without accounts, any sequence of
  reads and writes runs on the ExampleHost and on the MockedHost, and every read returns the same
  value on both, whatever the statuses of the writes are.\<close>

theorem hosts_agree_on_storage:
  "\<exists>values s s'. run_accesses eh_get_storage eh_set_storage xs example_host_init = Some (values, s) \<and>
     run_accesses mocked_get_storage mocked_set_storage xs mocked_host_init = Some (values, s') \<and>
     example_value s = mocked_value s'"
proof -
  have "example_value example_host_init = mocked_value mocked_host_init"
    by (simp add: example_value_def mocked_value_def slot_at_def account_at_def mocked_host_init_def
        mocked_account_default_def storage_value_default_def example_host_init_def fun_eq_iff)
  then show ?thesis
    using example_storage.run_accesses_refines [of xs example_host_init]
      mocked.run_accesses_refines [of xs mocked_host_init] by auto
qed

text \<open>The status of a write against the state machine of EIP-2200 the MockedHost follows.\<close>

lemma example_status_coarser:
  assumes "eh_set_storage s a k v = Some (st, s')"
  shows "(st = QRVMC_STORAGE_ASSIGNED \<longleftrightarrow> example_value s a k = v) \<and>
    (st = QRVMC_STORAGE_ASSIGNED \<or> st = QRVMC_STORAGE_MODIFIED)"
  using assms
  by (auto simp: eh_set_storage_def Let_def example_value_def account_default_def split: option.splits if_splits)

section \<open>Code hash\<close>

lemma hash_byte_commute: "hash_byte v \<circ> hash_byte w = hash_byte w \<circ> hash_byte v"
proof
  fix ret
  show "(hash_byte v \<circ> hash_byte w) ret = (hash_byte w \<circ> hash_byte v) ret"
    by (cases "unat v mod 32 = unat w mod 32")
      (simp_all add: hash_byte_def bytes_init_full xor.commute xor.left_commute list_update_swap)
qed

lemma hash_byte_twice: "hash_byte v (hash_byte v ret) = ret"
  by (simp add: hash_byte_def bytes_init_full xor.assoc)

lemma fold_hash_mset: "mset code = mset code' \<Longrightarrow> fold hash_byte code = fold hash_byte code'"
  by (rule fold_multiset_equiv) (rule hash_byte_commute)

text \<open>The hash of the ExampleHost depends on the multiset of the code bytes only, and a byte that
  occurs twice cancels, so different codes share a hash.\<close>

theorem code_hash_collisions:
  assumes "mset (eh_code acc) = mset (eh_code acc') \<or>
    mset (eh_code acc) = add_mset v (add_mset v (mset (eh_code acc')))"
  shows "code_hash acc = code_hash acc'"
proof -
  have "fold hash_byte (v # v # code) = fold hash_byte code" for code
    by (simp add: hash_byte_twice fun_eq_iff)
  then show ?thesis
    using assms fold_hash_mset [of "eh_code acc" "eh_code acc'"]
      fold_hash_mset [of "eh_code acc" "v # v # eh_code acc'"]
    by (auto simp: code_hash_def)
qed

theorem code_hash_collisions_witness:
  "code_hash (account_default\<lparr>eh_code := [1, 2]\<rparr>) = code_hash (account_default\<lparr>eh_code := [2, 5, 1, 5]\<rparr>)"
  by (rule code_hash_collisions [of "account_default\<lparr>eh_code := [2, 5, 1, 5]\<rparr>" _ 5, symmetric]) simp

end
