(* ===== verification/VMRuns.thy ===== *)
theory VMRuns
  imports VMSafety MockedRecords ExampleHost
begin

text \<open>
  The example VM on the Hosts of the repository: both interpret \<open>vm_host\<close>, so what is proved for any such
  Host holds for executions on them. The gas of an execution counts its instructions, and the effect of
  every instruction on the stack is the one in the metrics table, whatever the Host does.
\<close>

section \<open>The Hosts of the repository run the VM\<close>

text \<open>The canned result of the MockedHost owns nothing and has no output.\<close>

definition plain_result :: "mocked_host \<Rightarrow> bool" where
  "plain_result s \<longleftrightarrow> res_release (mh_call_result s) = No_release \<and> res_output_size (mh_call_result s) = 0"

lemma lawful_object:
  assumes w: "heap_wf h" and r: "res_release r = No_release"
  shows "lawful_result h (Some (r, snd (allocate Object bs h)))"
proof -
  have fr: "blocks h (fresh h) = None" using w by (rule heap_wf_fresh)
  have "releasable p (snd (allocate Object bs h))" if "releasable p h" for p
  proof (rule releasable_cong [OF that])
    fix b
    assume "owned_block p = Some b"
    then have "blocks h b \<noteq> None" using owned_releasable [OF that] by auto
    then show "blocks (snd (allocate Object bs h)) b = blocks h b" using fr by (auto simp: allocate_def)
  qed
  moreover have "held_blocks (snd (allocate Object bs h)) = held_blocks h"
    using fr by (auto simp: held_blocks_def allocate_def)
  ultimately show ?thesis
    using heap_wf_allocate [OF w] r
    by (auto simp: lawful_at_def result_owned_def result_usable_def owned_block_def releasable_def split: ptr.split)
qed

lemma mocked_call_cases:
  assumes "mocked_call s h m = Some (r, s', h')"
  shows "r = mh_call_result s \<and> mh_call_result s' = mh_call_result s \<and>
    (h' = h \<or> (\<exists>bs. h' = snd (allocate Object bs h)))"
  using assms
  by (auto simp: mocked_call_def bind_eq_Some_conv Let_def split_beta record_access_frame result_from_raw_def
      split: if_split_asm)

lemma mocked_call_defined:
  "mem_read h (msg_input_data m) (msg_input_size m) \<noteq> None \<Longrightarrow> mocked_call s h m \<noteq> None"
  by (auto simp: mocked_call_def Let_def split_beta)

lemma mocked_set_plain:
  "\<exists>st s'. mocked_set_storage s a k v = Some (st, s') \<and> mh_call_result s' = mh_call_result s"
  using set_storage_eq [of s a k v] by (auto simp: put_slot_def Let_def record_access_frame)

lemmas mocked_methods = MockedHost_def get_interface_def host_wrapper_defs internal_call_forwards

interpretation mocked_vm: vm_host "get_interface MockedHost" plain_result
proof
  fix s a k v h m r s' h'
  show "plain_result s \<Longrightarrow> plain_result (snd (get_tx_context (get_interface MockedHost) s))"
    by (simp add: mocked_methods mocked_get_tx_context_def)
  show "plain_result s \<Longrightarrow> plain_result (snd (get_storage (get_interface MockedHost) s a k))"
    by (simp add: mocked_methods get_storage_eq plain_result_def record_access_frame)
  show "plain_result s \<Longrightarrow> \<exists>st s'. set_storage (get_interface MockedHost) s a k v = Some (st, s') \<and> plain_result s'"
    using mocked_set_plain [of s a k v] by (auto simp: mocked_methods plain_result_def)
  show "plain_result s \<Longrightarrow> heap_wf h \<Longrightarrow> mem_read h (msg_input_data m) (msg_input_size m) \<noteq> None \<Longrightarrow>
      call (get_interface MockedHost) s h m \<noteq> None"
    using mocked_call_defined by (simp add: mocked_methods)
  assume ok: "plain_result s" and w: "heap_wf h" and c: "call (get_interface MockedHost) s h m = Some (r, s', h')"
  from c have "mocked_call s h m = Some (r, s', h')" by (simp add: mocked_methods)
  from mocked_call_cases [OF this] obtain bs where r: "r = mh_call_result s" "mh_call_result s' = mh_call_result s"
    and h': "h' = h \<or> h' = snd (allocate Object bs h)" by auto
  have "blocks h' c = blocks h c" if "blocks h c \<noteq> None" for c
    using h' that heap_wf_fresh [OF w] by (auto simp: allocate_def)
  moreover have "lawful_result h (Some (r, h'))"
    using h' lawful_unowned [OF w] lawful_object [OF w] ok r by (auto simp: plain_result_def)
  ultimately show "plain_result s' \<and> lawful_result h (Some (r, h')) \<and>
      (\<forall>c. blocks h c \<noteq> None \<longrightarrow> blocks h' c = blocks h c) \<and>
      mem_read h' (res_output_data r) (res_output_size r) \<noteq> None"
    using ok r by (simp add: plain_result_def mem_read_def)
qed

interpretation example_host_vm: vm_host example_host_get_interface "\<lambda>s. True"
proof
  fix s a k v h m r s' h'
  show "\<exists>st s'. set_storage example_host_get_interface s a k v = Some (st, s') \<and> True"
    by (simp add: example_host_get_interface_def mocked_methods ExampleHost_methods_def eh_set_storage_def Let_def)
  have c: "call example_host_get_interface s h m = eh_call s h m"
    by (simp add: example_host_get_interface_def mocked_methods ExampleHost_methods_def)
  show "heap_wf h \<Longrightarrow> mem_read h (msg_input_data m) (msg_input_size m) \<noteq> None \<Longrightarrow>
      call example_host_get_interface s h m \<noteq> None"
    unfolding c using make_result_defined [of h "msg_input_data m" "msg_input_size m" QRVMC_REVERT "msg_gas m" 0]
    by (auto simp: eh_call_def)
  assume w: "heap_wf h" and "call example_host_get_interface s h m = Some (r, s', h')"
  then have m: "qrvmc_make_result QRVMC_REVERT (msg_gas m) 0 (msg_input_data m) (msg_input_size m) h = Some (r, h')"
    unfolding c by (auto simp: eh_call_def bind_eq_Some_conv)
  show "True \<and> lawful_result h (Some (r, h')) \<and> (\<forall>c. blocks h c \<noteq> None \<longrightarrow> blocks h' c = blocks h c) \<and>
      mem_read h' (res_output_data r) (res_output_size r) \<noteq> None"
    using make_result_lawful [OF w m] make_result_frame [OF w m] make_result_fields [OF m]
    by (auto simp: mem_read_def zero_result_def)
qed simp_all

section \<open>Safe programs\<close>

text \<open>A program without memory instructions cannot wrap around.\<close>

lemma no_wrap_without_regions:
  assumes "\<forall>c \<in> set code. unat c \<notin> {OP_MSTORE, OP_RETURN, OP_REVERT, OP_CALL}"
  shows "no_wrap host msg code c"
  using assms by (auto simp: no_wrap_def region_wraps_def dest: nth_mem)

text \<open>C23: a program the metrics table accepts runs to the end on a MockedHost whose configured call result is
  plain, that is, owns nothing and has no output; this is how the Host starts, and a call would otherwise hand
  out the same allocation again and again. When moreover the check of the stack heights succeeds, no memory
  region wraps around, the gas is not negative and the input can be read, the execution is defined and
  returns; and the result is lawful (its owner can release it exactly once, and nothing else was allocated or
  lost), its fields meet the constraints the tester demands of a VM, the VM instance is unchanged, and the
  configured result of the Host is still plain.\<close>

theorem checked_programs_execute:
  assumes "heap_wf h" and "plain_result s" and "0 \<le> sint (msg_gas msg)"
    and "mem_read h (msg_input_data msg) (msg_input_size msg) \<noteq> None"
    and "stack_checked code 0"
    and "no_wrap (Some (get_interface MockedHost)) msg code (0, initial_frame msg s h)"
  shows "\<exists>r s' h'. example_execute vm (Some (get_interface MockedHost)) s h revision msg code = Some (r, vm, s', h') \<and>
    lawful_result h (Some (r, h')) \<and> vm_result_ok (msg_gas msg) r h' \<and> plain_result s'"
proof -
  obtain r vm' s' h' where
    e: "example_execute vm (Some (get_interface MockedHost)) s h revision msg code = Some (r, vm', s', h')"
    using mocked_vm.execute_defined [OF assms] by fastforce
  from mocked_vm.execute_contract [OF assms(1-3) e] e show ?thesis by auto
qed

theorem checked_programs_execute_witness:
  "\<exists>r s' h'. example_execute \<lparr>verbose = 0\<rparr> (Some (get_interface MockedHost)) mocked_host_init sample_heap
       QRVMC_SHANGHAI (zero_message\<lparr>msg_gas := 100\<rparr>) [0x60, 1, 0x60, 2, 1, 0x80, 0x55] = Some (r, \<lparr>verbose = 0\<rparr>, s', h') \<and>
    lawful_result sample_heap (Some (r, h')) \<and> vm_result_ok 100 r h' \<and> plain_result s'"
proof -
  have "heap_wf sample_heap" by (simp add: heap_wf_def sample_heap_def)
  moreover have "plain_result mocked_host_init"
    by (simp add: plain_result_def mocked_host_init_def zero_result_def)
  moreover have "stack_checked [0x60, 1, 0x60, 2, 1, 0x80, 0x55] 0"
    by (simp add: required_def height_after_def implemented_def vm_metrics push_metrics push_bytes_def Let_def
        vm_metrics(1) [unfolded One_nat_def])
  moreover have "no_wrap (Some (get_interface MockedHost)) (zero_message\<lparr>msg_gas := 100\<rparr>)
      [0x60, 1, 0x60, 2, 1, 0x80, 0x55] (0, initial_frame (zero_message\<lparr>msg_gas := 100\<rparr>) mocked_host_init sample_heap)"
    by (rule no_wrap_without_regions) simp
  ultimately show ?thesis
    using checked_programs_execute [of sample_heap mocked_host_init "zero_message\<lparr>msg_gas := 100\<rparr>"
        "[0x60, 1, 0x60, 2, 1, 0x80, 0x55]" "\<lparr>verbose = 0\<rparr>" QRVMC_SHANGHAI]
    by (simp add: zero_message_def mem_read_def)
qed

section \<open>Gas\<close>

text \<open>The number of instructions an execution reads.\<close>

function executed ::
  "'s qrvmc_host_interface option \<Rightarrow> qrvmc_message \<Rightarrow> u8 list \<Rightarrow> nat \<Rightarrow> 's frame \<Rightarrow> nat" where
  "executed host msg code pc f =
     (if pc < length code then
        (case step host msg code pc f of
           None \<Rightarrow> 0
         | Some (Return r ctx h) \<Rightarrow> 1
         | Some (Continue pc' f') \<Rightarrow> Suc (executed host msg code (Suc pc') f'))
      else 0)"
  by pat_completeness auto
termination
  by (relation "measure (\<lambda>(host, msg, code, pc, f). length code - pc)") (auto dest: step_pc)

declare executed.simps [simp del]

lemma gas_pop: "fr_pop f = Some (v, f') \<Longrightarrow> fr_gas f' = fr_gas f"
  by (auto simp: fr_pop_Some)

lemma gas_push: "fr_push v f = Some f' \<Longrightarrow> fr_gas f' = fr_gas f"
  by (auto simp: fr_push_Some)

lemma gas_expand: "fr_expand off n f = (p, f') \<Longrightarrow> fr_gas f' = fr_gas f"
  by (auto simp: fr_expand_def split_beta prod_eq_iff)

lemma gas_expand_snd [simp]: "fr_gas (snd (fr_expand off n f)) = fr_gas f"
  by (simp add: fr_expand_def split_beta)

lemma gas_store: "fr_store off src n f = Some (s, f') \<Longrightarrow> fr_gas f' = fr_gas f"
  by (auto simp: fr_store_def bind_eq_Some_conv)

lemmas gas_rules = gas_pop gas_push gas_expand gas_store

lemma gas_call_operands: "call_operands f = Some (m, off, n, p, f') \<Longrightarrow> fr_gas f' = fr_gas f"
  unfolding call_operands_def
  by (auto simp: bind_eq_Some_conv Let_def split_beta prod_eq_iff dest!: gas_pop gas_expand)

lemma gas_finish_call: "finish_call r off n f = Some f' \<Longrightarrow> fr_gas f' = fr_gas f"
  unfolding finish_call_def by (auto simp: bind_eq_Some_conv Let_def dest!: gas_push gas_store split: if_split_asm)

lemma dispatch_gas:
  assumes "dispatch host msg code pc g f = Some (Continue pc' f')"
  shows "fr_gas f' = fr_gas f"
proof -
  have ops:
    "op_add f = Some f' \<Longrightarrow> fr_gas f' = fr_gas f"
    "op_calldataload msg f = Some f' \<Longrightarrow> fr_gas f' = fr_gas f"
    "op_number host f = Some f' \<Longrightarrow> fr_gas f' = fr_gas f"
    "op_mstore pc f = Some (Continue pc' f') \<Longrightarrow> fr_gas f' = fr_gas f"
    "op_sload host msg f = Some f' \<Longrightarrow> fr_gas f' = fr_gas f"
    "op_sstore host msg f = Some f' \<Longrightarrow> fr_gas f' = fr_gas f"
    "op_push code pc f = Some (pc', f') \<Longrightarrow> fr_gas f' = fr_gas f"
    "op_dup1 f = Some f' \<Longrightarrow> fr_gas f' = fr_gas f"
    "op_call host pc f = Some (Continue pc' f') \<Longrightarrow> fr_gas f' = fr_gas f"
    by (auto simp: op_add_def op_calldataload_def op_number_def op_mstore_def op_sload_def op_sstore_def
        op_push_def op_dup1_def op_call_def bind_eq_Some_conv Let_def return_result_not_continue
        split: if_split_asm dest!: gas_rules gas_call_operands gas_finish_call)
  show ?thesis
    using assms unfolding dispatch_def Let_def
    by (auto simp: return_result_not_continue op_return_not_continue
        split: if_split_asm dest!: ops dest: gas_push)
qed

text \<open>A result with the status success or revert holds the gas of the frame it was made in.\<close>

abbreviation ended_well :: "qrvmc_result \<Rightarrow> bool" where
  "ended_well r \<equiv> res_status_code r = QRVMC_SUCCESS \<or> res_status_code r = QRVMC_REVERT"

lemma return_gas:
  assumes "return_result st g p n f = Some (Return r s h)" and "ended_well r"
  shows "res_status_code r = st \<and> res_gas_left r = g"
  using assms by (auto simp: return_result_def bind_eq_Some_conv zero_result_def dest!: make_result_fields)

lemma dispatch_return_gas:
  assumes d: "dispatch host msg code pc g f = Some (Return r s h)" and w: "ended_well r"
  shows "res_gas_left r = g"
proof -
  have ops:
    "op_return st g f = Some (Return r s h) \<Longrightarrow> res_gas_left r = g"
    "op_mstore pc f = Some (Return r s h) \<Longrightarrow> False"
    "op_call host pc f = Some (Return r s h) \<Longrightarrow> False" for st
    using w return_gas [OF _ w]
    by (fastforce simp: op_return_def op_mstore_def op_call_def bind_eq_Some_conv Let_def split_beta
        split: if_split_asm)+
  show ?thesis
    using d w unfolding dispatch_def Let_def
    by (auto split: if_split_asm dest: ops return_gas [OF _ w])
qed

lemma step_gas:
  assumes "step host msg code pc f = Some (Continue pc' f')"
  shows "sint (fr_gas f') = sint (fr_gas f) - 1 \<and> 0 \<le> sint (fr_gas f')"
  using assms dispatch_gas
  by (fastforce simp: step_def bind_eq_Some_conv Let_def return_result_not_continue not_less
      split: if_split_asm dest: i64_sub_Some)

lemma step_return_gas:
  assumes "step host msg code pc f = Some (Return r s h)" and "ended_well r"
  shows "sint (res_gas_left r) = sint (fr_gas f) - 1"
  using assms dispatch_return_gas [OF _ assms(2)] return_gas [OF _ assms(2)]
  by (fastforce simp: step_def bind_eq_Some_conv Let_def split: if_split_asm dest: i64_sub_Some)

lemma run_loop_gas:
  "run_loop host msg code pc f = Some (r, s, h) \<Longrightarrow> ended_well r \<Longrightarrow>
   sint (res_gas_left r) = sint (fr_gas f) - int (executed host msg code pc f)"
proof (induction host msg code pc f rule: run_loop.induct)
  case (1 host msg code pc f)
  show ?case
  proof (cases "pc < length code")
    case True
    then obtain o' where o: "step host msg code pc f = Some o'"
      using 1(2) by (cases "step host msg code pc f") (auto simp: run_loop.simps [of _ _ _ pc])
    show ?thesis
    proof (cases o')
      case (Continue pc' f')
      then have "run_loop host msg code (Suc pc') f' = Some (r, s, h)"
        using 1(2) o True by (simp add: run_loop.simps [of _ _ _ pc])
      from 1(1) [OF True o Continue this 1(3)] show ?thesis
        using step_gas [OF o [unfolded Continue]] o Continue True
        by (simp add: executed.simps [of _ _ _ pc])
    next
      case (Return r' s' h')
      with 1(2,3) o True show ?thesis
        using step_return_gas [of host msg code pc f r s h]
        by (simp add: run_loop.simps [of _ _ _ pc] executed.simps [of _ _ _ pc])
    qed
  next
    case False
    then show ?thesis using 1(2,3)
      by (auto simp: run_loop.simps [of _ _ _ pc] executed.simps [of _ _ _ pc] zero_result_def
          dest!: make_result_fields)
  qed
qed

lemma executed_bounds:
  "executed host msg code pc f \<le> length code - pc \<and> int (executed host msg code pc f) \<le> max 0 (sint (fr_gas f)) + 1"
proof (induction host msg code pc f rule: executed.induct)
  case (1 host msg code pc f)
  show ?case
  proof (cases "step host msg code pc f")
    case None
    then show ?thesis by (simp add: executed.simps [of _ _ _ pc])
  next
    case (Some o')
    then show ?thesis
    proof (cases o')
      case (Continue pc' f')
      show ?thesis
      proof (cases "pc < length code")
        case True
        from 1 [OF True Some Continue] step_gas [OF Some [unfolded Continue]] step_pc [OF Some [unfolded Continue]]
        show ?thesis using True Some Continue by (auto simp: executed.simps [of _ _ _ pc])
      qed (simp add: executed.simps [of _ _ _ pc])
    next
      case (Return r s h)
      then show ?thesis using Some by (auto simp: executed.simps [of _ _ _ pc])
    qed
  qed
qed

lemma gas_of_execution:
  assumes "example_execute vm host s h revision msg code = Some (r, vm', s', h')"
  shows "ended_well r \<Longrightarrow>
    sint (res_gas_left r) = sint (msg_gas msg) - int (executed host msg code 0 (initial_frame msg s h))"
proof -
  obtain h1 where "run_loop host msg code 0 (initial_frame msg s h) = Some (r, s', h1)"
    using assms by (auto simp: execute_initial)
  moreover have "fr_gas (initial_frame msg s h) = msg_gas msg" by (simp add: initial_frame_def)
  ultimately show "ended_well r \<Longrightarrow> ?thesis" using run_loop_gas by fastforce
qed

text \<open>\<^verbatim>\<open>MSIZE; STOP\<close> with five units of gas, on any Host.\<close>

lemma msize_stop:
  assumes "msg_gas msg = 5"
  shows "executed host msg [0x59, 0x00] 0 (initial_frame msg s h) = 2"
    and "\<exists>r h'. example_execute vm host s h revision msg [0x59, 0x00] = Some (r, vm, s, h') \<and>
      r = zero_result\<lparr>res_gas_left := 3\<rparr>"
proof -
  let ?f = "initial_frame msg s h" and ?c = "[0x59, 0x00]"
  have c: "\<exists>f'. step host msg ?c 0 ?f = Some (Continue 0 f') \<and> fr_gas f' = 4 \<and> fr_context f' = s"
    using assms by (simp add: step_def dispatch_def fr_push_def push_def i64_sub_def i64_range_def initial_frame_def
        empty_stack_def Let_def)
  have r: "\<exists>h. step host msg ?c 1 f' = Some (Return (zero_result\<lparr>res_gas_left := 3\<rparr>) s h)"
    if "fr_gas f' = 4" "fr_context f' = s" for f'
    using that by (simp add: step_def dispatch_def i64_sub_def i64_range_def Let_def return_result_def
        make_result_no_output zero_result_def)
  obtain f' where f': "step host msg ?c 0 ?f = Some (Continue 0 f')" "fr_gas f' = 4" "fr_context f' = s" using c by blast
  from r [OF f'(2,3)] obtain h1 where r: "step host msg ?c 1 f' = Some (Return (zero_result\<lparr>res_gas_left := 3\<rparr>) s h1)"
    by blast
  show "executed host msg ?c 0 ?f = 2"
    using f'(1) r by (simp add: executed.simps [of _ _ _ 0] executed.simps [of _ _ _ "Suc 0"])
  show "\<exists>r h'. example_execute vm host s h revision msg ?c = Some (r, vm, s, h') \<and> r = zero_result\<lparr>res_gas_left := 3\<rparr>"
    using f'(1) r by (simp add: execute_initial run_loop.simps [of _ _ _ 0] run_loop.simps [of _ _ _ "Suc 0"])
qed

text \<open>C25: every instruction costs one unit of gas and there are no loops. However the Host behaves, an
  execution reads no more instructions than the code has bytes, and at most one more than there is
  gas; and an execution that ends with success or a revert leaves the gas it was given less the
  number of instructions.\<close>

theorem gas_counts_instructions:
  assumes "example_execute vm host s h revision msg code = Some (r, vm', s', h')"
  defines "n \<equiv> executed host msg code 0 (initial_frame msg s h)"
  shows "n \<le> length code \<and> int n \<le> max 0 (sint (msg_gas msg)) + 1 \<and>
    (ended_well r \<longrightarrow> sint (res_gas_left r) = sint (msg_gas msg) - int n)"
  using gas_of_execution [OF assms(1)] executed_bounds [of host msg code 0 "initial_frame msg s h"]
  unfolding n_def by (simp add: initial_frame_def)

theorem gas_counts_instructions_witness:
  "\<exists>r h'. example_execute \<lparr>verbose = 0\<rparr> None () sample_heap QRVMC_SHANGHAI (zero_message\<lparr>msg_gas := 5\<rparr>) [0x59, 0x00] =
       Some (r, \<lparr>verbose = 0\<rparr>, (), h') \<and> sint (res_gas_left r) = 3"
proof -
  let ?m = "zero_message\<lparr>msg_gas := 5\<rparr>"
  obtain r h' where x: "example_execute \<lparr>verbose = 0\<rparr> None () sample_heap QRVMC_SHANGHAI ?m [0x59, 0x00] =
      Some (r, \<lparr>verbose = 0\<rparr>, (), h')" and r: "ended_well r"
    using msize_stop(2) [of ?m "\<lparr>verbose = 0\<rparr>" None "()" sample_heap QRVMC_SHANGHAI] by (auto simp: zero_result_def)
  have "executed None ?m [0x59, 0x00] 0 (initial_frame ?m () sample_heap) = 2" by (rule msize_stop(1)) simp
  with gas_counts_instructions [OF x] r x show ?thesis by simp
qed

section \<open>The stack follows the metrics table\<close>

text \<open>C24: the metrics table describes the VM. Whenever an instruction is executed and the loop goes on, on
  any Host, the stack held the items the table requires, its height changed by what the table says,
  and the program counter moved past the instruction and its data.\<close>

theorem step_follows_metrics:
  assumes "step host msg code pc f = Some (Continue pc' f')"
  defines "m \<equiv> opcode_metrics (unat (code ! pc))"
  shows "stack_height_required m \<le> int (height f) \<and>
    int (height f') = int (height f) + stack_height_change m \<and>
    pc' = pc + push_bytes (unat (code ! pc))"
proof -
  obtain g where d: "dispatch host msg code pc g (f\<lparr>fr_gas := g\<rparr>) = Some (Continue pc' f')"
    using assms(1) by (auto simp: step_def bind_eq_Some_conv Let_def return_result_not_continue split: if_split_asm)
  have "unat (code ! pc) < 256" using unsigned_less [of "code ! pc"] by simp
  then have "metrics_ok m (shanghai_names ! unat (code ! pc))"
    using list_all2_nthD [OF metrics_checked, of "unat (code ! pc)"] by (simp add: m_def opcode_metrics_def)
  then show ?thesis
    using dispatch_heights [OF d] unfolding m_def by (auto simp: required_def height_after_def metrics_ok_def)
qed

theorem step_follows_metrics_witness:
  "\<exists>f'. step None zero_message [0x60, 7] 0 (initial_frame (zero_message\<lparr>msg_gas := 5\<rparr>) () sample_heap) =
          Some (Continue 1 f') \<and>
        height f' = 1"
proof -
  let ?f = "initial_frame (zero_message\<lparr>msg_gas := 5\<rparr>) () sample_heap"
  have h: "height ?f = 0" by (simp add: initial_frame_def height_def empty_stack_def)
  have "\<exists>f'. step None zero_message [0x60, 7] 0 ?f = Some (Continue 1 f')"
    by (simp add: step_def dispatch_def op_push_def region_def copy_into_def fr_push_Some i64_sub_def
        i64_range_def initial_frame_def empty_stack_def Let_def bind_eq_Some_conv)
  then obtain f' where f': "step None zero_message [0x60, 7] 0 ?f = Some (Continue 1 f')" ..
  from step_follows_metrics [OF f'] h have "height f' = 1" by (simp add: push_metrics)
  with f' show ?thesis by blast
qed

end
