(* ===== verification/VMPrograms.thy ===== *)
theory VMPrograms
  imports VMRuns
begin

text \<open>
  What programs compute on the example VM: its conversions between words and machine integers as
  arithmetic, frames with their stack as a list, one lemma per instruction about a run, and two
  programs on the ExampleHost, a counter and the one of \<^verbatim>\<open>example.c\<close>.
\<close>

section \<open>Numbers\<close>

lemma bytes_uint256_of_u32: "bytes (uint256_of_u32 x) = replicate 28 0 @ be_digits 4 (unat x)"
proof -
  have "(replicate 32 0)[31 := d, 30 := c, 29 := b, 28 := a] = replicate 28 0 @ [a, b, c, d]" for a b c d :: u8
    by (simp add: numeral_eq_Suc)
  then show ?thesis
    using ucast_drop_bit [of 24 x] ucast_drop_bit [of 16 x] ucast_drop_bit [of 8 x] ucast_drop_bit [of 0 x]
    by (simp add: uint256_of_u32_def bytes_init_full)
qed

lemma uint_of_uint256_of_u32: "uint_of (uint256_of_u32 x) = unat x"
  using unsigned_less [of x, where ?'a = nat] be_val_be_digits [of 4 "unat x"]
  by (simp add: uint_of_def bytes_uint256_of_u32 be_val_append del: be_digits_numeral)

lemma be_val_drop: "be_val (drop k bs) = be_val bs mod 256 ^ (length bs - k)"
proof -
  have "be_val bs = be_val (take k bs) * 256 ^ length (drop k bs) + be_val (drop k bs)"
    by (metis append_take_drop_id be_val_append)
  then show ?thesis using be_val_less [of "drop k bs"] by simp
qed

lemma unat_to_uint32: "unat (to_uint32 v) = uint_of v mod 2 ^ 32"
proof -
  have "to_uint32 v = load32be (drop 28 (bytes v))"
    by (simp add: to_uint32_def load32be_def)
  then have "unat (to_uint32 v) = be_val (drop 28 (bytes v))"
    by (simp add: unat_load32be)
  then show ?thesis by (simp add: be_val_drop uint_of_def)
qed

lemma uint_of_uint256_of_address: "uint_of (uint256_of_address a) = uint_of a"
proof -
  have "bytes (uint256_of_address a) = replicate 12 0 @ bytes a"
    by (simp add: uint256_of_address_def bytes_init_full patch_def)
  then show ?thesis by (simp add: uint_of_def be_val_append)
qed

lemma uint_of_to_address: "uint_of (to_address v) = uint_of v mod 2 ^ 160"
proof -
  have "bytes (to_address v) = drop 12 (bytes v)"
    by (simp add: to_address_def bytes_init_full patch_def)
  then show ?thesis by (simp add: uint_of_def be_val_drop)
qed

lemma to_uint32_of_u32 [simp]: "to_uint32 (uint256_of_u32 x) = x"
  using unsigned_less [of x, where ?'a = nat]
  by (simp add: word_unat_eq_iff unat_to_uint32 uint_of_uint256_of_u32)

lemma to_address_of_address [simp]: "to_address (uint256_of_address a) = a"
  using be_val_bytes_less [of a]
  by (simp add: uint_of_inject [symmetric] uint_of_to_address uint_of_uint256_of_address) (simp add: uint_of_def)

text \<open>C22: the conversions of the VM are reductions of big-endian integers, \<^verbatim>\<open>to_uint32\<close> modulo \<open>2 ^ 32\<close> and
  \<^verbatim>\<open>to_address\<close> modulo \<open>2 ^ 160\<close>, and the conversions back keep the number; so each pair is a round trip
  on its smaller type.\<close>

theorem conversions_modular:
  "uint_of (uint256_of_u32 x) = unat x \<and> unat (to_uint32 v) = uint_of v mod 2 ^ 32 \<and>
   uint_of (uint256_of_address a) = uint_of a \<and> uint_of (to_address v) = uint_of v mod 2 ^ 160 \<and>
   to_uint32 (uint256_of_u32 x) = x \<and> to_address (uint256_of_address a) = a"
  by (simp add: uint_of_uint256_of_u32 unat_to_uint32 uint_of_uint256_of_address uint_of_to_address)

lemma uint256_of_u32_byte: "uint256_of_u32 (ucast (b :: u8)) = barray_init (replicate 31 0 @ [b])"
proof -
  have "uint_of (barray_init (replicate 31 0 @ [b]) :: uint256be) = unat b"
    by (simp add: uint_of_def bytes_init_full be_val_append)
  moreover have "unat (ucast b :: u32) = unat b"
    using unat_u8_less [of b] by (simp add: unat_ucast_mod)
  ultimately show ?thesis
    by (simp add: uint_of_inject [symmetric] uint_of_uint256_of_u32)
qed

section \<open>Programs\<close>

text \<open>The stack of a frame as a list, top first, and the rest of the frame.\<close>

definition stack_of :: "'s frame \<Rightarrow> uint256be list" where
  "stack_of f = rev (take (height f) (stack_items (fr_stack f)))"

definition frame_is :: "'s frame \<Rightarrow> int \<Rightarrow> uint256be list \<Rightarrow> vm_memory \<Rightarrow> 's \<Rightarrow> heap \<Rightarrow> bool" where
  "frame_is f g st m c h \<longleftrightarrow>
     stack_wf (fr_stack f) \<and> sint (fr_gas f) = g \<and> stack_of f = st \<and> fr_memory f = m \<and>
     fr_context f = c \<and> fr_heap f = h"

lemma pop_frame:
  assumes "frame_is f g (v # st) m c h"
  obtains f' where "fr_pop f = Some (v, f')" and "frame_is f' g st m c h"
proof -
  have w: "stack_wf (fr_stack f)" and s: "stack_of f = v # st" using assms by (auto simp: frame_is_def)
  then obtain p where p: "stack_pointer (fr_stack f) = Suc p"
    by (cases "stack_pointer (fr_stack f)") (auto simp: stack_of_def height_def)
  have "v = stack_items (fr_stack f) ! p \<and> st = rev (take p (stack_items (fr_stack f)))"
    using s w p by (simp add: stack_of_def height_def take_Suc_conv_app_nth stack_wf_def)
  then show thesis
    using that [of "f\<lparr>fr_stack := (fr_stack f)\<lparr>stack_pointer := p\<rparr>\<rparr>"] p assms
    by (simp add: fr_pop_Suc frame_is_def stack_of_def height_def stack_wf_def)
qed

lemma push_frame:
  assumes "frame_is f g st m c h" and "length st < 1024"
  obtains f' where "fr_push v f = Some f'" and "frame_is f' g (v # st) m c h"
proof -
  have w: "stack_wf (fr_stack f)" and s: "stack_of f = st" using assms by (auto simp: frame_is_def)
  then have l: "stack_pointer (fr_stack f) < 1024"
    using assms(2) by (auto simp: stack_of_def height_def stack_wf_def)
  have "fr_push v f = Some (f\<lparr>fr_stack := (fr_stack f)\<lparr>stack_items := (stack_items (fr_stack f))[stack_pointer (fr_stack f) := v],
      stack_pointer := Suc (stack_pointer (fr_stack f))\<rparr>\<rparr>)"
    using l w by (simp add: fr_push_Some stack_wf_def)
  moreover have "frame_is (f\<lparr>fr_stack := (fr_stack f)\<lparr>stack_items := (stack_items (fr_stack f))[stack_pointer (fr_stack f) := v],
      stack_pointer := Suc (stack_pointer (fr_stack f))\<rparr>\<rparr>) g (v # st) m c h"
    using assms(1) l w by (simp add: frame_is_def stack_of_def height_def stack_wf_def take_Suc_conv_app_nth)
  ultimately show thesis using that by blast
qed

lemma context_frame:
  "frame_is f g st m c h \<Longrightarrow> frame_is (f\<lparr>fr_context := c'\<rparr>) g st m c' h"
  "frame_is f g st m c h \<Longrightarrow> fr_context f = c \<and> fr_memory f = m \<and> fr_heap f = h"
  by (simp_all add: frame_is_def stack_of_def height_def)

lemma initial_frame_is:
  "frame_is (initial_frame msg s h) (sint (msg_gas msg)) [] \<lparr>memory_size = 0, memory_data = fresh h\<rparr> s
     (snd (allocate Object (replicate memory_capacity 0) h))"
  by (simp add: frame_is_def initial_frame_def stack_of_def height_def empty_stack_def stack_wf_def)

lemma step_frame:
  assumes "frame_is f g st m c h" and "1 \<le> g"
  obtains f1 where "step host msg code pc f = dispatch host msg code pc (fr_gas f1) f1"
    and "frame_is f1 (g - 1) st m c h"
proof -
  have g: "sint (fr_gas f) = g" using assms by (simp add: frame_is_def)
  then have "i64_range (sint (fr_gas f) - 1)"
    using assms(2) sint_i64_range [of "fr_gas f"] by (simp add: i64_range_def)
  then have s: "i64_sub (fr_gas f) 1 = Some (fr_gas f - 1)" by (simp add: i64_sub_def)
  from i64_sub_Some [OF this] have g1: "sint (fr_gas f - 1) = g - 1" by (simp add: g)
  show thesis
  proof
    show "step host msg code pc f = dispatch host msg code pc (fr_gas (f\<lparr>fr_gas := fr_gas f - 1\<rparr>)) (f\<lparr>fr_gas := fr_gas f - 1\<rparr>)"
      using s g1 assms(2) by (simp add: step_def Let_def)
    show "frame_is (f\<lparr>fr_gas := fr_gas f - 1\<rparr>) (g - 1) st m c h"
      using assms(1) g1 by (simp add: frame_is_def stack_of_def height_def)
  qed
qed

text \<open>One instruction of a run: \<open>goes_on\<close> says the loop continues at another counter and frame.\<close>

definition goes_on :: "'s qrvmc_host_interface option \<Rightarrow> qrvmc_message \<Rightarrow> u8 list \<Rightarrow> nat \<Rightarrow> 's frame \<Rightarrow>
    nat \<Rightarrow> 's frame \<Rightarrow> bool" where
  "goes_on host msg code pc f pc' f' \<longleftrightarrow> run_loop host msg code pc f = run_loop host msg code pc' f'"

lemma goes_onI:
  "step host msg code pc f = Some (Continue pc' f') \<Longrightarrow> pc < length code \<Longrightarrow> goes_on host msg code pc f (Suc pc') f'"
  by (simp add: goes_on_def run_loop.simps [of _ _ _ pc])

lemma run_push1:
  assumes "frame_is f g st m c h" and "1 \<le> g" and "length st < 1024" and "Suc pc < length code" and "code ! pc = 0x60"
  obtains f' where "goes_on host msg code pc f (Suc (Suc pc)) f'"
    and "frame_is f' (g - 1) (uint256_of_u32 (ucast (code ! Suc pc)) # st) m c h"
proof -
  obtain f1 where s: "step host msg code pc f = dispatch host msg code pc (fr_gas f1) f1"
    and f1: "frame_is f1 (g - 1) st m c h" using step_frame [OF assms(1,2)] by metis
  let ?v = "uint256_of_u32 (ucast (code ! Suc pc))"
  obtain f2 where p: "fr_push ?v f1 = Some f2" and f2: "frame_is f2 (g - 1) (?v # st) m c h"
    using push_frame [OF f1 assms(3)] by metis
  have "region (Suc pc) (Suc 0) code = Some [code ! Suc pc]"
    using assms(4) by (simp add: region_def take_Suc_conv_app_nth hd_drop_conv_nth take_Suc)
  then have "step host msg code pc f = Some (Continue (Suc pc) f2)"
    using p by (simp add: s dispatch_def assms(5) op_push_def copy_into_def patch_def Let_def uint256_of_u32_byte)
  from goes_onI [OF this] show thesis using that f2 assms(4) by simp
qed

lemma run_sload:
  assumes "frame_is f g (k # st) m c h" and "1 \<le> g" and "length st < 1024" and "pc < length code" and "code ! pc = 0x54"
    and "get_storage host c (msg_recipient msg) k = (v, c')"
  obtains f' where "goes_on (Some host) msg code pc f (Suc pc) f'" and "frame_is f' (g - 1) (v # st) m c' h"
proof -
  obtain f1 where s: "step (Some host) msg code pc f = dispatch (Some host) msg code pc (fr_gas f1) f1"
    and f1: "frame_is f1 (g - 1) (k # st) m c h" using step_frame [OF assms(1,2)] by metis
  obtain f2 where p2: "fr_pop f1 = Some (k, f2)" and f2: "frame_is f2 (g - 1) st m c h" using pop_frame [OF f1] by metis
  obtain f3 where p3: "fr_push v (f2\<lparr>fr_context := c'\<rparr>) = Some f3" and f3: "frame_is f3 (g - 1) (v # st) m c' h"
    using push_frame [OF context_frame(1) [OF f2] assms(3)] by metis
  have "step (Some host) msg code pc f = Some (Continue pc f3)"
    using p2 p3 context_frame(2) [OF f2] by (simp add: s dispatch_def assms(5,6) op_sload_def Let_def)
  from goes_onI [OF this assms(4)] show thesis using that f3 by simp
qed

lemma run_add:
  assumes "frame_is f g (a # b # st) m c h" and "1 \<le> g" and "length st < 1024" and "pc < length code" and "code ! pc = 0x01"
  obtains f' where "goes_on host msg code pc f (Suc pc) f'"
    and "frame_is f' (g - 1) (uint256_of_u32 (to_uint32 a + to_uint32 b) # st) m c h"
proof -
  obtain f1 where s: "step host msg code pc f = dispatch host msg code pc (fr_gas f1) f1"
    and f1: "frame_is f1 (g - 1) (a # b # st) m c h" using step_frame [OF assms(1,2)] by metis
  obtain f2 where p2: "fr_pop f1 = Some (a, f2)" and f2: "frame_is f2 (g - 1) (b # st) m c h" using pop_frame [OF f1] by metis
  obtain f3 where p3: "fr_pop f2 = Some (b, f3)" and f3: "frame_is f3 (g - 1) st m c h" using pop_frame [OF f2] by metis
  let ?v = "uint256_of_u32 (to_uint32 a + to_uint32 b)"
  obtain f4 where p4: "fr_push ?v f3 = Some f4" and f4: "frame_is f4 (g - 1) (?v # st) m c h"
    using push_frame [OF f3 assms(3)] by metis
  have "step host msg code pc f = Some (Continue pc f4)"
    using p2 p3 p4 by (simp add: s dispatch_def assms(5) op_add_def Let_def)
  from goes_onI [OF this assms(4)] show thesis using that f4 by simp
qed

lemma run_sstore:
  assumes "frame_is f g (k # v # st) m c h" and "1 \<le> g" and "pc < length code" and "code ! pc = 0x55"
    and "set_storage host c (msg_recipient msg) k v = Some (status, c')"
  obtains f' where "goes_on (Some host) msg code pc f (Suc pc) f'" and "frame_is f' (g - 1) st m c' h"
proof -
  obtain f1 where s: "step (Some host) msg code pc f = dispatch (Some host) msg code pc (fr_gas f1) f1"
    and f1: "frame_is f1 (g - 1) (k # v # st) m c h" using step_frame [OF assms(1,2)] by metis
  obtain f2 where p2: "fr_pop f1 = Some (k, f2)" and f2: "frame_is f2 (g - 1) (v # st) m c h" using pop_frame [OF f1] by metis
  obtain f3 where p3: "fr_pop f2 = Some (v, f3)" and f3: "frame_is f3 (g - 1) st m c h" using pop_frame [OF f2] by metis
  have "step (Some host) msg code pc f = Some (Continue pc (f3\<lparr>fr_context := c'\<rparr>))"
    using p2 p3 context_frame(2) [OF f3] by (simp add: s dispatch_def assms(4,5) op_sstore_def)
  from goes_onI [OF this assms(3)] show thesis using that context_frame(1) [OF f3] by simp
qed

lemma run_number:
  assumes "frame_is f g st m c h" and "1 \<le> g" and "length st < 1024" and "pc < length code" and "code ! pc = 0x43"
    and "get_tx_context host c = (tx, c')"
  obtains f' where "goes_on (Some host) msg code pc f (Suc pc) f'"
    and "frame_is f' (g - 1) (uint256_of_u32 (ucast (block_number tx)) # st) m c' h"
proof -
  obtain f1 where s: "step (Some host) msg code pc f = dispatch (Some host) msg code pc (fr_gas f1) f1"
    and f1: "frame_is f1 (g - 1) st m c h" using step_frame [OF assms(1,2)] by metis
  let ?v = "uint256_of_u32 (ucast (block_number tx))"
  obtain f3 where p3: "fr_push ?v (f1\<lparr>fr_context := c'\<rparr>) = Some f3" and f3: "frame_is f3 (g - 1) (?v # st) m c' h"
    using push_frame [OF context_frame(1) [OF f1] assms(3)] by metis
  have "step (Some host) msg code pc f = Some (Continue pc f3)"
    using p3 context_frame(2) [OF f1] by (simp add: s dispatch_def assms(5,6) op_number_def Let_def)
  from goes_onI [OF this assms(4)] show thesis using that f3 by simp
qed

lemma run_msize:
  assumes "frame_is f g st m c h" and "1 \<le> g" and "length st < 1024" and "pc < length code" and "code ! pc = 0x59"
  obtains f' where "goes_on host msg code pc f (Suc pc) f'"
    and "frame_is f' (g - 1) (uint256_of_u32 (memory_size m) # st) m c h"
proof -
  obtain f1 where s: "step host msg code pc f = dispatch host msg code pc (fr_gas f1) f1"
    and f1: "frame_is f1 (g - 1) st m c h" using step_frame [OF assms(1,2)] by metis
  let ?v = "uint256_of_u32 (memory_size m)"
  obtain f3 where p3: "fr_push ?v f1 = Some f3" and f3: "frame_is f3 (g - 1) (?v # st) m c h"
    using push_frame [OF f1 assms(3)] by metis
  have "step host msg code pc f = Some (Continue pc f3)"
    using p3 context_frame(2) [OF f1] by (simp add: s dispatch_def assms(5))
  from goes_onI [OF this assms(4)] show thesis using that f3 by simp
qed

lemma run_mstore:
  assumes "frame_is f g (a # v # st) m c h" and "1 \<le> g" and "pc < length code" and "code ! pc = 0x52"
    and "expand (to_uint32 a) 32 m = (p, m')" and "p \<noteq> Null" and "mem_write h p (bytes v) = Some h'"
  obtains f' where "goes_on host msg code pc f (Suc pc) f'" and "frame_is f' (g - 1) st m' c h'"
proof -
  obtain f1 where s: "step host msg code pc f = dispatch host msg code pc (fr_gas f1) f1"
    and f1: "frame_is f1 (g - 1) (a # v # st) m c h" using step_frame [OF assms(1,2)] by metis
  obtain f2 where p2: "fr_pop f1 = Some (a, f2)" and f2: "frame_is f2 (g - 1) (v # st) m c h" using pop_frame [OF f1] by metis
  obtain f3 where p3: "fr_pop f2 = Some (v, f3)" and f3: "frame_is f3 (g - 1) st m c h" using pop_frame [OF f2] by metis
  have "fr_store (to_uint32 a) (\<lambda>n. region 0 n (bytes v)) 32 f3 = Some (True, f3\<lparr>fr_memory := m', fr_heap := h'\<rparr>)"
    using context_frame(2) [OF f3] assms(5-7) by (simp add: fr_store_def memory_store_def region_def)
  then have "step host msg code pc f = Some (Continue pc (f3\<lparr>fr_memory := m', fr_heap := h'\<rparr>))"
    using p2 p3 by (simp add: s dispatch_def assms(4) op_mstore_def Let_def)
  from goes_onI [OF this assms(3)] show thesis
    using that f3 by (simp add: frame_is_def stack_of_def height_def)
qed

lemma run_return:
  assumes "frame_is f g (a # n # st) m c h" and "1 \<le> g" and "pc < length code" and "code ! pc = 0xf3"
    and "expand (to_uint32 a) (to_uint32 n) m = (p, m')" and "p \<noteq> Null"
    and "\<And>gas. sint gas = g - 1 \<Longrightarrow> qrvmc_make_result QRVMC_SUCCESS gas 0 p (unat (to_uint32 n)) h = Some (r gas, h')"
  shows "\<exists>gas. sint gas = g - 1 \<and> run_loop host msg code pc f = Some (r gas, c, h')"
proof -
  obtain f1 where s: "step host msg code pc f = dispatch host msg code pc (fr_gas f1) f1"
    and f1: "frame_is f1 (g - 1) (a # n # st) m c h" using step_frame [OF assms(1,2)] by metis
  obtain f2 where p2: "fr_pop f1 = Some (a, f2)" and f2: "frame_is f2 (g - 1) (n # st) m c h" using pop_frame [OF f1] by metis
  obtain f3 where p3: "fr_pop f2 = Some (n, f3)" and f3: "frame_is f3 (g - 1) st m c h" using pop_frame [OF f2] by metis
  have g: "sint (fr_gas f1) = g - 1" using f1 by (simp add: frame_is_def)
  have "step host msg code pc f = Some (Return (r (fr_gas f1)) c h')"
    using p2 p3 context_frame(2) [OF f3] assms(5-6) assms(7) [OF g]
    by (simp add: s dispatch_def assms(4) op_return_def return_result_def fr_expand_def Let_def)
  then show ?thesis using g assms(3) by (auto simp: run_loop.simps [of _ _ _ pc])
qed

lemma example_host_storage:
  "get_storage example_host_get_interface = eh_get_storage"
  "set_storage example_host_get_interface = eh_set_storage"
  "get_tx_context example_host_get_interface = eh_get_tx_context"
  by (simp_all add: example_host_get_interface_def mocked_methods ExampleHost_methods_def fun_eq_iff)

subsection \<open>A counter\<close>

text \<open>\<^verbatim>\<open>PUSH1 1; PUSH1 0; SLOAD; ADD; PUSH1 0; SSTORE\<close>\<close>

definition counter_code :: "u8 list" where
  "counter_code = [0x60, 0x01, 0x60, 0x00, 0x54, 0x01, 0x60, 0x00, 0x55]"

lemma zero_as_u32: "uint256_of_u32 0 = 0"
  using uint_of_uint256_of_u32 [of 0] by (simp add: uint_of_eq_0_iff)

lemma counter_run:
  assumes "6 \<le> sint (msg_gas msg)"
  obtains r s' h' where
    "example_execute vm (Some example_host_get_interface) s h revision msg counter_code = Some (r, vm, s', h')"
    and "res_status_code r = QRVMC_SUCCESS"
    and "example_value s' = (example_value s)(msg_recipient msg := (example_value s (msg_recipient msg))
           (0 := uint256_of_u32 (to_uint32 (example_value s (msg_recipient msg) 0) + 1)))"
proof -
  let ?host = "Some example_host_get_interface" and ?a = "msg_recipient msg" and ?g = "sint (msg_gas msg)"
  let ?m = "\<lparr>memory_size = 0, memory_data = fresh h\<rparr>"
  let ?h = "snd (allocate Object (replicate memory_capacity 0) h)"
  let ?v = "uint256_of_u32 (to_uint32 (example_value s ?a 0) + 1)"
  have get: "get_storage example_host_get_interface s ?a 0 = (example_value s ?a 0, s)"
    using example_storage.getter_val [of s ?a 0]
    by (auto simp: example_host_storage prod_eq_iff eh_get_storage_def split: option.split)
  obtain st s' where set: "set_storage example_host_get_interface s ?a 0 ?v = Some (st, s')"
    and val: "example_value s' = (example_value s)(?a := (example_value s ?a)(0 := ?v))"
    using example_storage.setter_val [of s ?a 0 ?v] by (auto simp: example_host_storage)
  let ?run = "run_loop ?host msg counter_code"
  note one = zero_as_u32
  have f0: "frame_is (initial_frame msg s h) ?g [] ?m s ?h" by (rule initial_frame_is)
  obtain f1 where f1: "goes_on ?host msg counter_code 0 (initial_frame msg s h) 2 f1"
    "frame_is f1 (?g - 1) [uint256_of_u32 1] ?m s ?h"
    using run_push1 [OF f0, where pc = 0 and code = counter_code and host = ?host and msg = msg] assms
    by (auto simp: counter_code_def numeral_2_eq_2)
  obtain f2 where f2: "goes_on ?host msg counter_code 2 f1 4 f2"
    "frame_is f2 (?g - 2) [0, uint256_of_u32 1] ?m s ?h"
    using run_push1 [OF f1(2), where pc = 2 and code = counter_code and host = ?host and msg = msg] assms by (auto simp: counter_code_def one)
  obtain f3 where f3: "goes_on ?host msg counter_code 4 f2 5 f3"
    "frame_is f3 (?g - 3) [example_value s ?a 0, uint256_of_u32 1] ?m s ?h"
    using run_sload [OF f2(2), where pc = 4 and code = counter_code and host = example_host_get_interface and msg = msg] assms get
    by (auto simp: counter_code_def)
  obtain f4 where f4: "goes_on ?host msg counter_code 5 f3 6 f4" "frame_is f4 (?g - 4) [?v] ?m s ?h"
    using run_add [OF f3(2), where pc = 5 and code = counter_code and host = ?host and msg = msg] assms by (auto simp: counter_code_def)
  obtain f5 where f5: "goes_on ?host msg counter_code 6 f4 8 f5" "frame_is f5 (?g - 5) [0, ?v] ?m s ?h"
    using run_push1 [OF f4(2), where pc = 6 and code = counter_code and host = ?host and msg = msg] assms by (auto simp: counter_code_def one)
  obtain f6 where f6: "goes_on ?host msg counter_code 8 f5 9 f6" "frame_is f6 (?g - 6) [] ?m s' ?h"
    using run_sstore [OF f5(2), where pc = 8 and code = counter_code and host = example_host_get_interface and msg = msg] assms set
    by (auto simp: counter_code_def)
  have "?run 0 (initial_frame msg s h) = ?run 9 f6"
    using f1(1) f2(1) f3(1) f4(1) f5(1) f6(1) by (simp add: goes_on_def)
  also have "\<dots> = Some (zero_result\<lparr>res_status_code := QRVMC_SUCCESS, res_gas_left := fr_gas f6, res_gas_refund := 0\<rparr>, s', ?h)"
    using context_frame(2) [OF f6(2)] by (simp add: run_loop.simps [of _ _ _ 9] counter_code_def make_result_no_output)
  finally show thesis using that val by (simp add: execute_initial)
qed

fun run_times ::
  "nat \<Rightarrow> example_vm \<Rightarrow> 's qrvmc_host_interface option \<Rightarrow> 's \<Rightarrow> heap \<Rightarrow> qrvmc_revision \<Rightarrow> qrvmc_message \<Rightarrow> u8 list \<Rightarrow>
   ('s \<times> heap) option" where
  "run_times 0 vm host s h revision msg code = Some (s, h)"
| "run_times (Suc k) vm host s h revision msg code = do {
     (r, vm, s, h) \<leftarrow> example_execute vm host s h revision msg code;
     if res_status_code r = QRVMC_SUCCESS then run_times k vm host s h revision msg code else None
   }"

text \<open>C33: the VM and its storage work together. The counter program run \<open>k\<close> times on the ExampleHost,
  each time with gas for its six instructions at least, succeeds every time and adds \<open>k\<close>, modulo \<open>2 ^ 32\<close>, to the number at key zero of the account it runs for;
  no other storage value changes.\<close>

theorem counter_counts:
  assumes "6 \<le> sint (msg_gas msg)"
  shows "\<exists>s' h'. run_times k vm (Some example_host_get_interface) s h revision msg counter_code = Some (s', h') \<and>
    to_uint32 (example_value s' (msg_recipient msg) 0) = to_uint32 (example_value s (msg_recipient msg) 0) + of_nat k \<and>
    (\<forall>a key. a = msg_recipient msg \<and> key = 0 \<or> example_value s' a key = example_value s a key)"
proof (induction k arbitrary: s h)
  case 0
  then show ?case by simp
next
  case (Suc k)
  obtain r s1 h1 where r: "example_execute vm (Some example_host_get_interface) s h revision msg counter_code = Some (r, vm, s1, h1)"
    "res_status_code r = QRVMC_SUCCESS"
    "example_value s1 = (example_value s)(msg_recipient msg := (example_value s (msg_recipient msg))
           (0 := uint256_of_u32 (to_uint32 (example_value s (msg_recipient msg) 0) + 1)))"
    using counter_run [OF assms] by metis
  obtain s' h' where k: "run_times k vm (Some example_host_get_interface) s1 h1 revision msg counter_code = Some (s', h')"
    "to_uint32 (example_value s' (msg_recipient msg) 0) = to_uint32 (example_value s1 (msg_recipient msg) 0) + of_nat k"
    "\<forall>a key. a = msg_recipient msg \<and> key = 0 \<or> example_value s' a key = example_value s1 a key"
    using Suc.IH by blast
  have "a = msg_recipient msg \<and> key = 0 \<or> example_value s' a key = example_value s a key" for a key
    using k(3) [rule_format, of a key] r(3) by (auto split: if_splits)
  then show ?case using r k(1,2) by (auto simp: algebra_simps)
qed

theorem counter_counts_witness:
  "\<exists>s' h'. run_times 3 \<lparr>verbose = 0\<rparr> (Some example_host_get_interface) example_host_init sample_heap QRVMC_SHANGHAI
       (zero_message\<lparr>msg_gas := 100\<rparr>) counter_code = Some (s', h') \<and>
     to_uint32 (example_value s' 0 0) = 3"
proof -
  have "to_uint32 (example_value example_host_init 0 0) = 0"
    by (simp add: example_value_def example_host_init_def to_uint32_def)
  then show ?thesis
    using counter_counts [of "zero_message\<lparr>msg_gas := 100\<rparr>" 3 "\<lparr>verbose = 0\<rparr>" example_host_init sample_heap QRVMC_SHANGHAI]
    by (auto simp: zero_message_def)
qed

subsection \<open>The program of \<^verbatim>\<open>example.c\<close>\<close>

text \<open>\<^verbatim>\<open>NUMBER; PUSH1 0; SSTORE; NUMBER; PUSH1 0; MSTORE; MSIZE; PUSH1 0; RETURN\<close>\<close>

definition example_code :: "u8 list" where
  "example_code = [0x43, 0x60, 0x00, 0x55, 0x43, 0x60, 0x00, 0x52, 0x59, 0x60, 0x00, 0xf3]"

text \<open>The result of a return of the word \<open>v\<close> from offset zero, and the heap behind it.\<close>

definition word_result :: "heap \<Rightarrow> uint256be \<Rightarrow> i64 \<Rightarrow> qrvmc_result" where
  "word_result h v gas =
     (if granted h (fresh h) 32
      then zero_result\<lparr>res_output_data := Ptr (fresh h) 0, res_output_size := 32,
             res_release := Free_result_memory, res_status_code := QRVMC_SUCCESS, res_gas_left := gas,
             res_gas_refund := 0\<rparr>
      else zero_result\<lparr>res_status_code := QRVMC_OUT_OF_MEMORY\<rparr>)"

lemma make_word_result:
  assumes "heap_wf h" and "mem_read h p 32 = Some (bytes v)"
  shows "qrvmc_make_result QRVMC_SUCCESS gas 0 p 32 h =
    Some (word_result h v gas,
      if granted h (fresh h) 32 then snd (allocate Malloc (bytes v) h) else h\<lparr>fresh := Suc (fresh h)\<rparr>)"
  using make_result_output [OF assms(1) _ _ assms(2)] make_result_failed [of 32 h]
  by (simp add: word_result_def)

lemma write_first_word:
  fixes v :: uint256be
  assumes "heap_wf h"
  defines "h1 \<equiv> snd (allocate Object (replicate memory_capacity 0) h)"
  obtains h2 where "mem_write h1 (Ptr (fresh h) 0) (bytes v) = Some h2" and "heap_wf h2" and "fresh h2 = Suc (fresh h)"
    and "granted h2 = granted h" and "mem_read h2 (Ptr (fresh h) 0) 32 = Some (bytes v)"
proof -
  let ?h2 = "h1\<lparr>blocks := (blocks h1)(fresh h \<mapsto> (Object, patch (replicate memory_capacity 0) 0 (bytes v)))\<rparr>"
  have b: "bytes v \<noteq> []" using length_bytes [of v] by (intro notI) simp
  have "mem_write h1 (Ptr (fresh h) 0) (bytes v) = Some ?h2"
    using b by (simp add: mem_write_def h1_def allocate_def copy_into_def memory_capacity_def)
  moreover have "heap_wf ?h2"
    using heap_wf_allocate [OF assms(1), of Object] by (auto simp: h1_def heap_wf_def allocate_def)
  moreover have "mem_read ?h2 (Ptr (fresh h) 0) 32 = Some (bytes v)"
    by (simp add: mem_read_def region_def patch_def memory_capacity_def)
  ultimately show thesis using that by (simp add: h1_def allocate_def)
qed

text \<open>The program of \<^verbatim>\<open>example.c\<close> on the ExampleHost. With at least nine units of gas it stores the
  block number, reduced to 32 bits, at key zero of the recipient, and returns it as 32 bytes of
  memory of its own with nine units of gas used; when the allocator refuses the memory of the
  result the status says so.\<close>

lemma goes_on_trans:
  "goes_on host msg code pc f pc1 f1 \<Longrightarrow> goes_on host msg code pc1 f1 pc2 f2 \<Longrightarrow> goes_on host msg code pc f pc2 f2"
  by (simp add: goes_on_def)

lemma example_host_tx: "get_tx_context example_host_get_interface c = (eh_tx_context c, c)"
  by (simp add: example_host_storage eh_get_tx_context_def)

text \<open>The first three instructions store the block number, the next five write it to the memory.\<close>

lemma example_program_stores:
  fixes s :: example_host
  assumes f0: "frame_is f g [] m s h" and g: "3 \<le> g"
  defines "v \<equiv> uint256_of_u32 (ucast (block_number (eh_tx_context s)))"
  obtains f' s' where "goes_on (Some example_host_get_interface) msg example_code 0 f 4 f'"
    and "frame_is f' (g - 3) [] m s' h" and "eh_tx_context s' = eh_tx_context s"
    and "example_value s' (msg_recipient msg) 0 = v"
proof -
  let ?host = "Some example_host_get_interface" and ?a = "msg_recipient msg"
  obtain st s' where set: "set_storage example_host_get_interface s ?a 0 v = Some (st, s')"
    and val: "example_value s' = (example_value s)(?a := (example_value s ?a)(0 := v))"
    using example_storage.setter_val [of s ?a 0 v] by (auto simp: example_host_storage)
  have tx: "eh_tx_context s' = eh_tx_context s"
    using set by (auto simp: example_host_storage eh_set_storage_def Let_def)
  note ex = example_code_def zero_as_u32
  obtain f1 where f1: "goes_on ?host msg example_code 0 f 1 f1" "frame_is f1 (g - 1) [v] m s h"
    using run_number [OF f0, where pc = 0 and code = example_code and host = example_host_get_interface and msg = msg]
      g example_host_tx by (auto simp: ex v_def)
  obtain f2 where f2: "goes_on ?host msg example_code 1 f1 3 f2" "frame_is f2 (g - 2) [0, v] m s h"
    using run_push1 [OF f1(2), where pc = 1 and code = example_code and host = ?host and msg = msg] g
    by (auto simp: ex numeral_3_eq_3)
  obtain f3 where f3: "goes_on ?host msg example_code 3 f2 4 f3" "frame_is f3 (g - 3) [] m s' h"
    using run_sstore [OF f2(2), where pc = 3 and code = example_code and host = example_host_get_interface and msg = msg]
      g set by (auto simp: ex)
  have "goes_on ?host msg example_code 0 f 4 f3" using f1(1) f2(1) f3(1) goes_on_trans by blast
  from that [OF this f3(2) tx] val show thesis by simp
qed

lemma example_program_writes:
  fixes s :: example_host
  assumes f3: "frame_is f g [] \<lparr>memory_size = 0, memory_data = b\<rparr> s h" and g: "5 \<le> g"
    and w: "mem_write h (Ptr b 0) (bytes v) = Some h'"
    and v: "v = uint256_of_u32 (ucast (block_number (eh_tx_context s)))"
  obtains f' where "goes_on (Some example_host_get_interface) msg example_code 4 f 11 f'"
    and "frame_is f' (g - 5) [0, uint256_of_u32 32] \<lparr>memory_size = 32, memory_data = b\<rparr> s h'"
proof -
  let ?host = "Some example_host_get_interface"
  let ?m = "\<lparr>memory_size = 0, memory_data = b\<rparr>" and ?m' = "\<lparr>memory_size = 32, memory_data = b\<rparr>"
  have e: "expand (to_uint32 0) 32 ?m = (Ptr b 0, ?m')"
    using to_uint32_of_u32 [of 0] by (simp add: expand_def zero_as_u32 memory_capacity_def Let_def)
  note ex = example_code_def zero_as_u32
  obtain f4 where f4: "goes_on ?host msg example_code 4 f 5 f4" "frame_is f4 (g - 1) [v] ?m s h"
    using run_number [OF f3, where pc = 4 and code = example_code and host = example_host_get_interface and msg = msg]
      g example_host_tx by (auto simp: ex v)
  obtain f5 where f5: "goes_on ?host msg example_code 5 f4 7 f5" "frame_is f5 (g - 2) [0, v] ?m s h"
    using run_push1 [OF f4(2), where pc = 5 and code = example_code and host = ?host and msg = msg] g by (auto simp: ex)
  obtain f6 where f6: "goes_on ?host msg example_code 7 f5 8 f6" "frame_is f6 (g - 3) [] ?m' s h'"
    using run_mstore [OF f5(2), where pc = 7 and code = example_code and host = ?host and msg = msg] g e w by (auto simp: ex)
  obtain f7 where f7: "goes_on ?host msg example_code 8 f6 9 f7" "frame_is f7 (g - 4) [uint256_of_u32 32] ?m' s h'"
    using run_msize [OF f6(2), where pc = 8 and code = example_code and host = ?host and msg = msg] g by (auto simp: ex)
  obtain f8 where f8: "goes_on ?host msg example_code 9 f7 11 f8" "frame_is f8 (g - 5) [0, uint256_of_u32 32] ?m' s h'"
    using run_push1 [OF f7(2), where pc = 9 and code = example_code and host = ?host and msg = msg] g by (auto simp: ex)
  have "goes_on ?host msg example_code 4 f 11 f8" using f4(1) f5(1) f6(1) f7(1) f8(1) goes_on_trans by blast
  then show thesis using that f8(2) by blast
qed

theorem example_program_result:
  fixes s :: example_host
  assumes "heap_wf h" and "9 \<le> sint (msg_gas msg)"
  defines "v \<equiv> uint256_of_u32 (ucast (block_number (eh_tx_context s)))"
  shows "\<exists>r s' h'. example_execute vm (Some example_host_get_interface) s h revision msg example_code = Some (r, vm, s', h') \<and>
    example_value s' (msg_recipient msg) 0 = v \<and>
    (if granted h (Suc (fresh h)) 32
     then res_status_code r = QRVMC_SUCCESS \<and> sint (res_gas_left r) = sint (msg_gas msg) - 9 \<and>
          res_output_size r = 32 \<and> mem_read h' (res_output_data r) 32 = Some (bytes v)
     else res_status_code r = QRVMC_OUT_OF_MEMORY)"
proof -
  let ?host = "Some example_host_get_interface" and ?g = "sint (msg_gas msg)"
  let ?m' = "\<lparr>memory_size = 32, memory_data = fresh h\<rparr>" and ?h = "snd (allocate Object (replicate memory_capacity 0) h)"
  have g: "3 \<le> ?g" "5 \<le> ?g - 3" using assms(2) by simp_all
  obtain h2 where h2: "mem_write ?h (Ptr (fresh h) 0) (bytes v) = Some h2" "heap_wf h2" "fresh h2 = Suc (fresh h)"
    "granted h2 = granted h" "mem_read h2 (Ptr (fresh h) 0) 32 = Some (bytes v)"
    using write_first_word [OF assms(1)] by metis
  let ?h3 = "if granted h2 (fresh h2) 32 then snd (allocate Malloc (bytes v) h2) else h2\<lparr>fresh := Suc (fresh h2)\<rparr>"
  obtain f3 s' where f3: "goes_on ?host msg example_code 0 (initial_frame msg s h) 4 f3"
      "frame_is f3 (?g - 3) [] \<lparr>memory_size = 0, memory_data = fresh h\<rparr> s' ?h"
    and s': "eh_tx_context s' = eh_tx_context s" "example_value s' (msg_recipient msg) 0 = v"
    using example_program_stores [OF initial_frame_is g(1)] unfolding v_def by metis
  obtain f8 where f8: "goes_on ?host msg example_code 4 f3 11 f8"
      "frame_is f8 (?g - 3 - 5) [0, uint256_of_u32 32] ?m' s' h2"
    by (rule example_program_writes [OF f3(2) g(2) h2(1)]) (simp add: v_def s')
  have mk: "qrvmc_make_result QRVMC_SUCCESS gas 0 (Ptr (fresh h) 0) (unat (to_uint32 (uint256_of_u32 32))) h2 =
      Some (word_result h2 v gas, ?h3)" for gas
    using make_word_result [OF h2(2,5)] by simp
  have e: "expand (to_uint32 0) (to_uint32 (uint256_of_u32 32)) ?m' = (Ptr (fresh h) 0, ?m')"
    using to_uint32_of_u32 [of 0] by (simp add: expand_def zero_as_u32 memory_capacity_def Let_def)
  have "\<exists>gas. sint gas = ?g - 3 - 5 - 1 \<and> run_loop ?host msg example_code 11 f8 = Some (word_result h2 v gas, s', ?h3)"
    by (rule run_return [OF f8(2) _ _ _ e _ mk]) (use assms(2) in \<open>simp_all add: example_code_def\<close>)
  then obtain gas where gas: "sint gas = ?g - 9"
    and "run_loop ?host msg example_code 0 (initial_frame msg s h) = Some (word_result h2 v gas, s', ?h3)"
    using goes_on_trans [OF f3(1) f8(1)] by (auto simp: goes_on_def)
  then have "example_execute vm ?host s h revision msg example_code =
      Some (word_result h2 v gas, vm, s', forget (Some (fresh h)) ?h3)"
    by (simp add: execute_initial)
  moreover have "mem_read (forget (Some (fresh h)) (snd (allocate Malloc (bytes v) h2))) (Ptr (fresh h2) 0) 32 = Some (bytes v)"
    using h2(3) by (simp add: mem_read_def forget_simps allocate_def region_def)
  ultimately show ?thesis
    using gas s'(2) h2(3,4) by (auto simp: word_result_def zero_result_def)
qed

theorem example_program_result_witness:
  "\<exists>r s' h'. example_execute \<lparr>verbose = 0\<rparr> (Some example_host_get_interface)
       (example_host_create_context (zero_tx_context\<lparr>block_number := 42\<rparr>)) sample_heap QRVMC_SHANGHAI
       (zero_message\<lparr>msg_gas := 200000\<rparr>) example_code = Some (r, \<lparr>verbose = 0\<rparr>, s', h') \<and>
     example_value s' 0 0 = uint256_of_u32 42"
proof -
  have "heap_wf sample_heap" by (simp add: heap_wf_def sample_heap_def)
  from example_program_result [OF this, of "zero_message\<lparr>msg_gas := 200000\<rparr>" "\<lparr>verbose = 0\<rparr>"
      "example_host_create_context (zero_tx_context\<lparr>block_number := 42\<rparr>)" QRVMC_SHANGHAI]
  show ?thesis
    by (auto simp: zero_message_def example_host_create_context_def example_host_with_def)
qed

end
