(* ===== verification/VMWrapper.thy ===== *)
theory VMWrapper
  imports ExampleVM
begin

text \<open>
  The class \<^verbatim>\<open>VM\<close> of \<^verbatim>\<open>qrvmc.hpp\<close>, the RAII wrapper of a pointer to a VM instance, and its methods. The
  instances live in a store; the objects refer to them by number. The theory interprets \<open>raii\<close> on the
  class: what an object owns depends on the store, since a static instance is owned by nobody. The
  instances of one store share a type of instance data.
\<close>

section \<open>VM instances\<close>

text \<open>
  The instances a program refers to by pointer: the function table and the data behind it. A destroyed
  instance is gone; a static one, whose destroy function does nothing, stays.
\<close>

record ('v, 's) vm_store =
  instances :: "nat \<Rightarrow> (('v, 's) qrvmc_vm \<times> 'v) option"
  next_instance :: nat

definition store_sane :: "('v, 's) vm_store \<Rightarrow> bool" where
  "store_sane st \<longleftrightarrow> (\<forall>i. instances st i \<noteq> None \<longrightarrow> i < next_instance st)"

text \<open>What a create function does that makes a new instance; it returns the pointer.\<close>

definition new_instance ::
  "('v, 's) qrvmc_vm \<times> 'v \<Rightarrow> ('v, 's) vm_store \<Rightarrow> nat \<times> ('v, 's) vm_store" where
  "new_instance iv st =
     (next_instance st,
      st\<lparr>instances := (instances st)(next_instance st \<mapsto> iv), next_instance := Suc (next_instance st)\<rparr>)"

text \<open>\<^verbatim>\<open>vm->destroy(vm)\<close>, undefined for an instance that is gone; \<^verbatim>\<open>qrvmc_destroy\<close> is this call.\<close>

definition qrvmc_destroy :: "nat \<Rightarrow> ('v, 's) vm_store \<Rightarrow> ('v, 's) vm_store option" where
  "qrvmc_destroy i st =
     (case instances st i of
        None \<Rightarrow> None
      | Some (vm, v) \<Rightarrow>
          (case vm_destroy vm of
             Delete_instance \<Rightarrow> Some (st\<lparr>instances := (instances st)(i := None)\<rparr>)
           | Destroy_nothing \<Rightarrow> Some st))"

section \<open>The class\<close>

text \<open>An object is its \<^verbatim>\<open>m_instance\<close>, \<^const>\<open>None\<close> for the null pointer. A method call through the null
  pointer or a pointer to a destroyed instance is undefined.\<close>

type_synonym vm_object = "nat option"

definition VM_default :: vm_object where
  "VM_default = None"

definition VM_of :: "nat option \<Rightarrow> vm_object" where
  "VM_of vm = vm"

definition vm_dtor :: "vm_object \<Rightarrow> ('v, 's) vm_store \<Rightarrow> ('v, 's) vm_store option" where
  "vm_dtor this st = (case this of None \<Rightarrow> Some st | Some i \<Rightarrow> qrvmc_destroy i st)"

definition vm_move_ctor :: "vm_object \<Rightarrow> vm_object \<times> vm_object" where
  "vm_move_ctor other = (other, None)"

definition vm_move_assign ::
  "vm_object \<Rightarrow> vm_object \<Rightarrow> ('v, 's) vm_store \<Rightarrow> (vm_object \<times> vm_object \<times> ('v, 's) vm_store) option" where
  "vm_move_assign this other st = do {
     st \<leftarrow> vm_dtor this st;
     Some (other, None, st)
   }"

definition vm_to_bool :: "vm_object \<Rightarrow> bool" where
  "vm_to_bool this \<longleftrightarrow> this \<noteq> None"

definition vm_at :: "vm_object \<Rightarrow> ('v, 's) vm_store \<Rightarrow> (('v, 's) qrvmc_vm \<times> 'v) option" where
  "vm_at this st = Option.bind this (instances st)"

definition vm_is_abi_compatible :: "vm_object \<Rightarrow> ('v, 's) vm_store \<Rightarrow> bool option" where
  "vm_is_abi_compatible this st = do { (vm, v) \<leftarrow> vm_at this st; Some (abi_version vm = QRVMC_ABI_VERSION) }"

definition vm_object_name :: "vm_object \<Rightarrow> ('v, 's) vm_store \<Rightarrow> string option" where
  "vm_object_name this st = do { (vm, v) \<leftarrow> vm_at this st; Some (vm_name vm) }"

definition vm_object_version :: "vm_object \<Rightarrow> ('v, 's) vm_store \<Rightarrow> string option" where
  "vm_object_version this st = do { (vm, v) \<leftarrow> vm_at this st; Some (vm_version vm) }"

definition get_capabilities :: "vm_object \<Rightarrow> ('v, 's) vm_store \<Rightarrow> u32 option" where
  "get_capabilities this st = do { (vm, v) \<leftarrow> vm_at this st; Some (vm_get_capabilities vm v) }"

definition has_capability :: "vm_object \<Rightarrow> u32 \<Rightarrow> ('v, 's) vm_store \<Rightarrow> bool option" where
  "has_capability this capability st = do {
     flags \<leftarrow> get_capabilities this st;
     Some ((flags AND capability) \<noteq> 0)
   }"

text \<open>The data of an instance after a call into it.\<close>

definition set_data :: "vm_object \<Rightarrow> 'v \<Rightarrow> ('v, 's) vm_store \<Rightarrow> ('v, 's) vm_store" where
  "set_data this v st =
     (case this of
        None \<Rightarrow> st
      | Some i \<Rightarrow> st\<lparr>instances := (instances st)(i := map_option (\<lambda>(vm, _). (vm, v)) (instances st i))\<rparr>)"

definition vm_object_set_option ::
  "vm_object \<Rightarrow> string \<Rightarrow> string option \<Rightarrow> ('v, 's) vm_store \<Rightarrow>
   (qrvmc_set_option_result \<times> ('v, 's) vm_store) option" where
  "vm_object_set_option this name val st = do {
     (vm, v) \<leftarrow> vm_at this st;
     let (r, v) = qrvmc_set_option vm v name val;
     Some (r, set_data this v st)
   }"

text \<open>The three overloads of \<^verbatim>\<open>execute\<close>; the result is wrapped in a \<^verbatim>\<open>Result\<close>.\<close>

definition vm_object_execute ::
  "vm_object \<Rightarrow> 's qrvmc_host_interface option \<Rightarrow> 's \<Rightarrow> qrvmc_revision \<Rightarrow> qrvmc_message \<Rightarrow> u8 list \<Rightarrow>
   ('v, 's) vm_store \<times> heap \<Rightarrow> (qrvmc_result \<times> 's \<times> ('v, 's) vm_store \<times> heap) option" where
  "vm_object_execute this host ctx revision msg code sth = do {
     (vm, v) \<leftarrow> vm_at this (fst sth);
     (raw, v, ctx, h) \<leftarrow> vm_execute vm v host ctx (snd sth) revision msg code;
     Some (result_from_raw raw, ctx, set_data this v (fst sth), h)
   }"

definition vm_object_execute_host ::
  "vm_object \<Rightarrow> 's host_methods \<Rightarrow> 's \<Rightarrow> qrvmc_revision \<Rightarrow> qrvmc_message \<Rightarrow> u8 list \<Rightarrow>
   ('v, 's) vm_store \<times> heap \<Rightarrow> (qrvmc_result \<times> 's \<times> ('v, 's) vm_store \<times> heap) option" where
  "vm_object_execute_host this methods host revision msg code sth =
     vm_object_execute this (Some (get_interface methods)) host revision msg code sth"

text \<open>Without a Host the context pointer is null; the instance sees some context it must not use.\<close>

definition vm_object_execute_no_host ::
  "vm_object \<Rightarrow> 's \<Rightarrow> qrvmc_revision \<Rightarrow> qrvmc_message \<Rightarrow> u8 list \<Rightarrow>
   ('v, 's) vm_store \<times> heap \<Rightarrow> (qrvmc_result \<times> ('v, 's) vm_store \<times> heap) option" where
  "vm_object_execute_no_host this null_context revision msg code sth = do {
     (r, _, st, h) \<leftarrow> vm_object_execute this None null_context revision msg code sth;
     Some (r, st, h)
   }"

text \<open>The constructor with options sets them in order and ignores the results.\<close>

fun set_options ::
  "vm_object \<Rightarrow> (string \<times> string option) list \<Rightarrow> ('v, 's) vm_store \<Rightarrow> ('v, 's) vm_store option" where
  "set_options this [] st = Some st"
| "set_options this ((name, val) # options) st = do {
     (r, st) \<leftarrow> vm_object_set_option this name val st;
     set_options this options st
   }"

definition VM_with_options ::
  "nat \<Rightarrow> (string \<times> string option) list \<Rightarrow> ('v, 's) vm_store \<Rightarrow> (vm_object \<times> ('v, 's) vm_store) option" where
  "VM_with_options vm options st = do {
     st \<leftarrow> set_options (VM_of (Some vm)) options st;
     Some (VM_of (Some vm), st)
   }"

section \<open>Ownership of instances\<close>

text \<open>The ways a \<^verbatim>\<open>VM\<close> object comes to be: empty, around a new instance, with options or without, and around
  a static instance.\<close>

datatype ('v, 's) vm_args =
    Empty_vm
  | New_vm "('v, 's) qrvmc_vm \<times> 'v"
  | New_vm_with_options "('v, 's) qrvmc_vm \<times> 'v" "(string \<times> string option) list"
  | Static_vm nat

definition deletable :: "('v, 's) vm_store \<Rightarrow> nat \<Rightarrow> bool" where
  "deletable st i \<longleftrightarrow> (\<exists>vm v. instances st i = Some (vm, v) \<and> vm_destroy vm = Delete_instance)"

fun vm_ctor :: "('v, 's) vm_args \<Rightarrow> ('v, 's) vm_store \<Rightarrow> (vm_object \<times> ('v, 's) vm_store) option" where
  "vm_ctor Empty_vm st = Some (VM_default, st)"
| "vm_ctor (New_vm iv) st = (let (i, st) = new_instance iv st in Some (VM_of (Some i), st))"
| "vm_ctor (New_vm_with_options iv options) st =
     (let (i, st) = new_instance iv st in VM_with_options i options st)"
| "vm_ctor (Static_vm i) st = Some (VM_of (Some i), st)"

fun vm_ctor_pre :: "('v, 's) vm_args \<Rightarrow> ('v, 's) vm_store \<Rightarrow> bool" where
  "vm_ctor_pre (Static_vm i) st \<longleftrightarrow> instances st i \<noteq> None \<and> \<not> deletable st i"
| "vm_ctor_pre k st \<longleftrightarrow> True"

definition VM_class :: "(vm_object, ('v, 's) vm_store, ('v, 's) vm_args) raii_class" where
  "VM_class = \<lparr>ctor = vm_ctor, ctor_pre = vm_ctor_pre, dtor = vm_dtor, move_ctor = vm_move_ctor,
     move_assign = vm_move_assign\<rparr>"

definition vm_owned :: "('v, 's) vm_store \<Rightarrow> vm_object \<Rightarrow> nat option" where
  "vm_owned st this = (case this of None \<Rightarrow> None | Some i \<Rightarrow> if deletable st i then Some i else None)"

definition vm_usable :: "('v, 's) vm_store \<Rightarrow> vm_object \<Rightarrow> bool" where
  "vm_usable st this \<longleftrightarrow> this = None \<or> vm_at this st \<noteq> None"

definition vm_held :: "('v, 's) vm_store \<Rightarrow> nat set" where
  "vm_held st = {i. deletable st i}"

text \<open>Setting options keeps the instances and which of them can be deleted.\<close>

lemma set_data_instances:
  "instances (set_data (Some i) v st) j =
     (if j = i then map_option (\<lambda>(vm, _). (vm, v)) (instances st i) else instances st j)"
  by (simp add: set_data_def)

lemma set_data_keeps:
  "deletable (set_data (Some i) v st) j = deletable st j"
  "(instances (set_data (Some i) v st) j = None) = (instances st j = None)"
  "next_instance (set_data (Some i) v st) = next_instance st"
  by (auto simp: deletable_def set_data_instances) (auto simp: set_data_def)

lemma set_options_keeps:
  "instances st i \<noteq> None \<Longrightarrow>
     \<exists>st'. set_options (Some i) options st = Some st' \<and> deletable st' = deletable st \<and>
       (\<forall>j. instances st' j = None \<longleftrightarrow> instances st j = None) \<and> next_instance st' = next_instance st"
proof (induction options arbitrary: st)
  case Nil
  then show ?case by simp
next
  case (Cons o' options)
  obtain name val where o: "o' = (name, val)" by (cases o')
  obtain vm v where i: "instances st i = Some (vm, v)" using Cons.prems by auto
  obtain r v' where s: "qrvmc_set_option vm v name val = (r, v')" by (cases "qrvmc_set_option vm v name val")
  have set: "vm_object_set_option (Some i) name val st = Some (r, set_data (Some i) v' st)"
    using i s by (simp add: vm_object_set_option_def vm_at_def)
  have "instances (set_data (Some i) v' st) i \<noteq> None" using Cons.prems by (simp add: set_data_keeps)
  from Cons.IH [OF this] show ?case using set by (auto simp: o fun_eq_iff set_data_keeps)
qed

lemma usable_frame:
  "deletable st' = deletable st \<Longrightarrow> (\<And>j. instances st j \<noteq> None \<Longrightarrow> instances st' j \<noteq> None) \<Longrightarrow>
   vm_usable st p \<Longrightarrow> vm_usable st' p \<and> vm_owned st' p = vm_owned st p"
  by (cases p) (auto simp: vm_usable_def vm_owned_def vm_at_def)

lemma new_instance_lawful:
  assumes "store_sane st" and "new_instance iv st = (i, st1)" and "deletable st2 = deletable st1"
    and "\<And>j. instances st2 j = None \<longleftrightarrow> instances st1 j = None" and "next_instance st2 = next_instance st1"
  shows "lawful_at vm_owned vm_usable vm_held store_sane st (Some (Some i, st2))"
proof -
  have i: "i = next_instance st" and st1: "st1 = st\<lparr>instances := (instances st)(i \<mapsto> iv), next_instance := Suc i\<rparr>"
    using assms(2) by (auto simp: new_instance_def)
  have none: "instances st i = None" using assms(1) i unfolding store_sane_def by (metis less_irrefl)
  have del: "deletable st1 j \<longleftrightarrow> (if j = i then vm_destroy (fst iv) = Delete_instance else deletable st j)" for j
    using st1 none by (cases iv) (auto simp: deletable_def)
  have sane: "store_sane st2"
    using assms(1,4,5) st1 i by (auto simp: store_sane_def less_Suc_eq)
  have frame: "vm_usable st2 p \<and> vm_owned st2 p = vm_owned st p" if "vm_usable st p" for p
    using that none assms(3,4) del st1
    by (cases p) (auto simp: vm_usable_def vm_owned_def vm_at_def deletable_def)
  have ni: "\<not> deletable st i" using none by (simp add: deletable_def)
  have "vm_usable st2 (Some i)" using assms(4) [of i] st1 by (auto simp: vm_usable_def vm_at_def)
  moreover have "set_option (vm_owned st2 (Some i)) \<inter> vm_held st = {}"
    using ni by (simp add: vm_owned_def vm_held_def)
  moreover have "vm_held st2 = vm_held st \<union> set_option (vm_owned st2 (Some i))"
    using ni del assms(3) by (auto simp: vm_owned_def vm_held_def split: if_splits)
  ultimately show ?thesis
    using sane frame by (simp add: lawful_at_def)
qed

interpretation vm_raii: raii VM_class vm_owned vm_usable vm_held store_sane
proof
  fix st st' :: "('v, 's) vm_store" and k :: "('v, 's) vm_args" and a b p new old :: vm_object and r
  show "lawful_at vm_owned vm_usable vm_held store_sane st (ctor VM_class k st)"
    if s: "store_sane st" and pre: "ctor_pre VM_class k st"
  proof (cases k)
    case (New_vm iv)
    then show ?thesis using new_instance_lawful [OF s]
      by (auto simp: VM_class_def VM_of_def split: prod.split)
  next
    case (New_vm_with_options iv options)
    obtain i st1 where n: "new_instance iv st = (i, st1)" by (cases "new_instance iv st")
    then have "instances st1 i \<noteq> None" by (auto simp: new_instance_def)
    from set_options_keeps [OF this] obtain st2 where "set_options (Some i) options st1 = Some st2"
      "deletable st2 = deletable st1" "\<And>j. instances st2 j = None \<longleftrightarrow> instances st1 j = None"
      "next_instance st2 = next_instance st1" by blast
    with new_instance_lawful [OF s n] New_vm_with_options n show ?thesis
      by (simp add: VM_class_def VM_with_options_def VM_of_def)
  qed (use s pre in \<open>auto simp: VM_class_def lawful_at_def vm_usable_def vm_at_def vm_owned_def
      VM_default_def VM_of_def\<close>)
  show "vm_usable st a \<Longrightarrow> vm_owned st a = Some r \<Longrightarrow> r \<in> vm_held st"
    by (auto simp: vm_owned_def vm_held_def split: option.splits if_splits)
  show "move_ctor VM_class a = (new, old) \<Longrightarrow> vm_owned st new = vm_owned st a \<and> vm_owned st old = None"
    by (auto simp: VM_class_def vm_move_ctor_def vm_owned_def)
  show "move_ctor VM_class a = (new, old) \<Longrightarrow> vm_usable st a \<Longrightarrow> vm_usable st new \<and> vm_usable st old"
    by (auto simp: VM_class_def vm_move_ctor_def vm_usable_def)
  show "move_assign VM_class a b st = Option.bind (dtor VM_class a st)
      (\<lambda>h'. case move_ctor VM_class b of (new, old) \<Rightarrow> Some (new, old, h'))"
    by (simp add: VM_class_def vm_move_assign_def vm_move_ctor_def)
  show "store_sane st \<Longrightarrow> vm_usable st a \<Longrightarrow> \<exists>h'. dtor VM_class a st = Some h' \<and> store_sane h' \<and>
      vm_held h' = vm_held st - set_option (vm_owned st a)"
    by (cases a) (auto simp: VM_class_def vm_dtor_def vm_usable_def vm_at_def qrvmc_destroy_def
        vm_held_def vm_owned_def deletable_def store_sane_def split: destroy_fn.split)
  show "dtor VM_class a st = Some st' \<Longrightarrow> vm_usable st p \<Longrightarrow> vm_owned st p = None \<or> vm_owned st p \<noteq> vm_owned st a \<Longrightarrow>
      vm_usable st' p \<and> vm_owned st' p = vm_owned st p"
    by (cases a; cases p) (auto simp: VM_class_def vm_dtor_def vm_usable_def vm_at_def qrvmc_destroy_def
        vm_owned_def deletable_def split: option.splits destroy_fn.splits if_splits)
qed

text \<open>C28: RAII of \<^verbatim>\<open>VM\<close> is sound. Take any program that makes \<^verbatim>\<open>VM\<close> objects, empty, around new instances,
  with options or without, and around static instances, and moves, move-assigns and destroys them.
  No command is undefined (no instance is destroyed twice or used after that), two objects never own
  one instance, and when all objects are gone every instance they were given has been destroyed.\<close>

theorem vm_raii_sound:
  fixes st :: "('v, 's) vm_store"
  assumes "store_sane st" and "runs VM_class \<lparr>objs = Map.empty, store = st\<rparr> cs s"
  shows "(\<forall>c. enabled VM_class c s \<longrightarrow> exec VM_class c s \<noteq> None) \<and>
    (\<forall>x y a b i. objs s x = Some a \<and> objs s y = Some b \<and> x \<noteq> y \<and> vm_owned (store s) a = Some i \<longrightarrow>
       vm_owned (store s) b \<noteq> Some i) \<and>
    (objs s = Map.empty \<longrightarrow> vm_held (store s) = vm_held st)"
  using vm_raii.runs_safe [OF assms] by blast

text \<open>A program: two instances of the example VM, one configured, moves, an assignment over the first.\<close>

definition sample_vm_program :: "(example_vm, unit) vm_args raii_cmd list" where
  "sample_vm_program =
     [Construct 1 (New_vm (ExampleVM_init ''1'')),
      Construct 2 (New_vm_with_options (ExampleVM_init ''1'') [(''trace'', None), (''verbose'', None)]),
      Construct 3 Empty_vm, Move_assign 3 1, Move_construct 4 2, Move_assign 3 4,
      Destroy 1, Destroy 2, Destroy 3, Destroy 4]"

definition no_instances :: "('v, 's) vm_store" where
  "no_instances = \<lparr>instances = Map.empty, next_instance = 0\<rparr>"

theorem vm_raii_sound_witness:
  "\<exists>s. runs VM_class \<lparr>objs = Map.empty, store = no_instances\<rparr> sample_vm_program s \<and>
     vm_held (store s) = vm_held (no_instances :: (example_vm, unit) vm_store)"
proof -
  have "store_sane (no_instances :: (example_vm, unit) vm_store)" by (simp add: store_sane_def no_instances_def)
  moreover have "\<exists>s. runs VM_class \<lparr>objs = Map.empty, store = no_instances\<rparr> sample_vm_program s \<and> objs s = Map.empty"
    by (simp add: sample_vm_program_def runs_cons_iff VM_class_def no_instances_def new_instance_def
        VM_with_options_def VM_of_def VM_default_def vm_object_set_option_def vm_at_def qrvmc_set_option_def
        ExampleVM_init_def example_set_option_def set_data_def vm_move_ctor_def vm_move_assign_def
        vm_dtor_def qrvmc_destroy_def fun_eq_iff)
  ultimately show ?thesis using vm_raii_sound by blast
qed

end
