(* ===== verification/Options.thy ===== *)
theory Options
  imports ExampleVM
begin

text \<open>
  Integers as text: how \<^verbatim>\<open>printf\<close> and the streams write them, which texts \<^verbatim>\<open>strtol\<close> with base 0 reads as
  which number, by a grammar of C literals (\<open>number_reads\<close>), and what that means for the option
  \<^verbatim>\<open>verbose\<close> of the example VM.
\<close>

section \<open>Decimal numbers\<close>

text \<open>How \<^verbatim>\<open>printf\<close>'s \<^verbatim>\<open>%d\<close> and the output streams write an integer.\<close>

fun decimal_nat :: "nat \<Rightarrow> string" where
  "decimal_nat n = (if n < 10 then [hex_digits ! n] else decimal_nat (n div 10) @ [hex_digits ! (n mod 10)])"

declare decimal_nat.simps [simp del]

definition decimal :: "int \<Rightarrow> string" where
  "decimal z = (if z < 0 then ''-'' @ decimal_nat (nat (- z)) else decimal_nat (nat z))"

lemma number_of_append:
  "number_of base acc (xs @ [c]) = number_of base acc xs * base + (case hex_value c of None \<Rightarrow> 0 | Some d \<Rightarrow> d)"
  by (induction xs arbitrary: acc) simp_all

lemma number_of_decimal: "number_of 10 0 (decimal_nat n) = n"
proof (induction n rule: decimal_nat.induct)
  case (1 n)
  then show ?case
    using hex_value_digit [of "n mod 10"]
    by (simp add: decimal_nat.simps [of n] hex_value_digit number_of_append mult.commute)
qed

lemma decimal_digits: "list_all (digit_below 10) (decimal_nat n)"
  by (induction n rule: decimal_nat.induct)
    (simp add: decimal_nat.simps digit_below_def hex_value_digit)

lemma decimal_nonempty [simp]: "decimal_nat n \<noteq> []"
  by (simp add: decimal_nat.simps)

lemma hd_decimal_0: "hd (decimal_nat n) = CHR ''0'' \<longleftrightarrow> n = 0"
proof (induction n rule: decimal_nat.induct)
  case (1 n)
  show ?case
  proof (cases "n < 10")
    case True
    then have "hex_digits ! n = CHR ''0'' \<longleftrightarrow> n = 0"
      using hex_value_digit [of n] hex_value_0_iff [of "hex_digits ! n"] by auto
    then show ?thesis using True by (simp add: decimal_nat.simps [of n])
  next
    case False
    then show ?thesis using 1 by (simp add: decimal_nat.simps [of n])
  qed
qed

lemma digit_below_chars:
  "digit_below 10 c \<Longrightarrow> \<not> isspace c \<and> c \<noteq> CHR ''-'' \<and> c \<noteq> CHR ''+'' \<and> c \<noteq> CHR ''x'' \<and> c \<noteq> CHR ''X''"
proof -
  have none: "hex_value CHR '' '' = None" "hex_value CHR 0x09 = None" "hex_value CHR 0x0A = None" "hex_value CHR 0x0B = None"
    "hex_value CHR 0x0C = None" "hex_value CHR 0x0D = None" "hex_value CHR ''-'' = None" "hex_value CHR ''+'' = None"
    "hex_value CHR ''x'' = None" "hex_value CHR ''X'' = None"
    by code_simp+
  then show "digit_below 10 c \<Longrightarrow> ?thesis" unfolding isspace_iff by (auto simp: digit_below_def)
qed

section \<open>What \<^verbatim>\<open>strtol\<close> reads\<close>

text \<open>How \<^verbatim>\<open>strtol\<close> with base 0 looks at what follows the sign.\<close>

definition hex_literal :: "string \<Rightarrow> bool" where
  "hex_literal t \<longleftrightarrow> length t \<ge> 3 \<and> t ! 0 = CHR ''0'' \<and> (t ! 1 = CHR ''x'' \<or> t ! 1 = CHR ''X'') \<and> digit_below 16 (t ! 2)"

definition literal_base :: "string \<Rightarrow> nat" where
  "literal_base t = (if hex_literal t then 16 else if t \<noteq> [] \<and> hd t = CHR ''0'' then 8 else 10)"

definition literal_digits :: "string \<Rightarrow> string" where
  "literal_digits t = takeWhile (digit_below (literal_base t)) (drop (if hex_literal t then 2 else 0) t)"

definition after_sign :: "string \<Rightarrow> string" where
  "after_sign t = (if t \<noteq> [] \<and> (hd t = CHR ''-'' \<or> hd t = CHR ''+'') then drop 1 t else t)"

lemma strtol0_eq:
  "strtol0 s =
     (let t = dropWhile isspace s; u = after_sign t; v = int (number_of (literal_base u) 0 (literal_digits u))
      in if literal_digits u = [] then (0, 0)
         else (clamp_long (if t \<noteq> [] \<and> hd t = CHR ''-'' then - v else v),
               length (takeWhile isspace s) + (if t \<noteq> [] \<and> (hd t = CHR ''-'' \<or> hd t = CHR ''+'') then 1 else 0) +
               (if hex_literal u then 2 else 0) + length (literal_digits u)))"
proof -
  have d: "drop (length (takeWhile isspace s)) s = dropWhile isspace s" by (simp add: dropWhile_eq_drop)
  have a: "drop (if t \<noteq> [] \<and> (hd t = CHR ''-'' \<or> hd t = CHR ''+'') then 1 else 0) t = after_sign t" for t
    by (simp add: after_sign_def)
  show ?thesis
    unfolding strtol0_def Let_def d a hex_literal_def [symmetric] literal_base_def [symmetric] literal_digits_def [symmetric]
    by (rule refl)
qed

text \<open>What a text starts with when it starts with an integer literal of C: a hexadecimal one, an octal one
  or a decimal one, each read as far as it goes.\<close>

definition ends_digits :: "nat \<Rightarrow> string \<Rightarrow> bool" where
  "ends_digits base rest \<longleftrightarrow> (case rest of [] \<Rightarrow> True | c # _ \<Rightarrow> \<not> digit_below base c)"

inductive literal_reads :: "string \<Rightarrow> nat \<Rightarrow> bool" where
  reads_hex: "x = CHR ''x'' \<or> x = CHR ''X'' \<Longrightarrow> ds \<noteq> [] \<Longrightarrow> list_all (digit_below 16) ds \<Longrightarrow> ends_digits 16 rest \<Longrightarrow>
    literal_reads (CHR ''0'' # x # ds @ rest) (number_of 16 0 ds)"
| reads_octal: "list_all (digit_below 8) ds \<Longrightarrow> ends_digits 8 rest \<Longrightarrow>
    \<not> (\<exists>x d r. ds @ rest = x # d # r \<and> (x = CHR ''x'' \<or> x = CHR ''X'') \<and> digit_below 16 d) \<Longrightarrow>
    literal_reads (CHR ''0'' # ds @ rest) (number_of 8 0 ds)"
| reads_decimal: "d \<noteq> CHR ''0'' \<Longrightarrow> list_all (digit_below 10) (d # ds) \<Longrightarrow> ends_digits 10 rest \<Longrightarrow>
    literal_reads (d # ds @ rest) (number_of 10 0 (d # ds))"

text \<open>A number: white space, a sign, a literal.\<close>

inductive number_reads :: "string \<Rightarrow> int \<Rightarrow> bool" where
  reads_plain: "list_all isspace ws \<Longrightarrow> literal_reads t n \<Longrightarrow> number_reads (ws @ t) (int n)"
| reads_plus: "list_all isspace ws \<Longrightarrow> literal_reads t n \<Longrightarrow> number_reads (ws @ CHR ''+'' # t) (int n)"
| reads_minus: "list_all isspace ws \<Longrightarrow> literal_reads t n \<Longrightarrow> number_reads (ws @ CHR ''-'' # t) (- int n)"

lemma takeWhile_digits:
  "list_all (digit_below b) ds \<Longrightarrow> ends_digits b rest \<Longrightarrow> takeWhile (digit_below b) (ds @ rest) = ds"
  by (induction ds) (auto simp: ends_digits_def split: list.splits)

lemma split_digits:
  obtains rest where "t = takeWhile (digit_below b) t @ rest" and "ends_digits b rest"
    and "list_all (digit_below b) (takeWhile (digit_below b) t)"
proof
  show "t = takeWhile (digit_below b) t @ dropWhile (digit_below b) t" by simp
  show "ends_digits b (dropWhile (digit_below b) t)"
    by (auto simp: ends_digits_def dropWhile_eq_Cons_conv split: list.split)
  show "list_all (digit_below b) (takeWhile (digit_below b) t)"
    by (simp add: list_all_iff) (meson set_takeWhileD)
qed

lemma zero_below: "digit_below b CHR ''0'' \<longleftrightarrow> 0 < b" "hex_value CHR ''0'' = Some 0"
  using hex_value_0_iff [of "CHR ''0''"] by (auto simp: digit_below_def)

lemma literal_reads_digits:
  "literal_reads t n \<Longrightarrow> literal_digits t \<noteq> [] \<and> number_of (literal_base t) 0 (literal_digits t) = n"
proof (induction rule: literal_reads.induct)
  case (reads_hex x ds rest)
  then obtain e es where ds: "ds = e # es" by (cases ds) auto
  then have "hex_literal (CHR ''0'' # x # ds @ rest)" using reads_hex by (auto simp: hex_literal_def)
  then show ?case using reads_hex takeWhile_digits [of 16 ds rest] ds by (simp add: literal_digits_def literal_base_def)
next
  case (reads_octal ds rest)
  let ?t = "CHR ''0'' # ds @ rest"
  have "\<not> hex_literal ?t"
  proof
    assume h: "hex_literal ?t"
    then obtain x d r where "ds @ rest = x # d # r"
      by (cases "ds @ rest"; cases "tl (ds @ rest)") (auto simp: hex_literal_def)
    with h reads_octal(3) show False by (auto simp: hex_literal_def)
  qed
  then show ?case using takeWhile_digits [OF reads_octal(1,2)]
    by (simp add: literal_digits_def literal_base_def zero_below)
next
  case (reads_decimal d ds rest)
  then show ?case using takeWhile_digits [of 10 "d # ds" rest]
    by (simp add: literal_digits_def literal_base_def hex_literal_def)
qed

lemma digits_literal_reads:
  assumes "literal_digits t \<noteq> []"
  shows "literal_reads t (number_of (literal_base t) 0 (literal_digits t))"
proof (cases "hex_literal t")
  case True
  then obtain x d r where t: "t = CHR ''0'' # x # d # r" "x = CHR ''x'' \<or> x = CHR ''X''"
    by (cases t; cases "tl t"; cases "tl (tl t)") (auto simp: hex_literal_def)
  obtain ds rest where ds: "ds = takeWhile (digit_below 16) (d # r)" and r: "d # r = ds @ rest" "ends_digits 16 rest"
    "list_all (digit_below 16) ds"
    using split_digits by metis
  have "literal_digits t = ds" "literal_base t = 16"
    using True t unfolding ds by (simp_all add: literal_digits_def literal_base_def)
  then show ?thesis using reads_hex [OF t(2) _ r(3,2)] assms by (simp add: t(1) r(1))
next
  case False
  show ?thesis
  proof (cases "hd t = CHR ''0''")
    case True
    with assms obtain r where t: "t = CHR ''0'' # r" by (cases t) (auto simp: literal_digits_def)
    let ?ds = "takeWhile (digit_below 8) r"
    obtain rest where r: "r = ?ds @ rest" "ends_digits 8 rest" "list_all (digit_below 8) ?ds"
      using split_digits by metis
    have "\<not> (\<exists>x d q. r = x # d # q \<and> (x = CHR ''x'' \<or> x = CHR ''X'') \<and> digit_below 16 d)"
      using False t by (auto simp: hex_literal_def)
    then have "literal_reads t (number_of 8 0 ?ds)" using reads_octal [OF r(3,2)] r(1) t by simp
    moreover have "literal_digits t = CHR ''0'' # ?ds" "literal_base t = 8"
      using False t by (simp_all add: literal_digits_def literal_base_def zero_below)
    ultimately show ?thesis by (simp add: zero_below)
  next
    case zero: False
    let ?ds = "takeWhile (digit_below 10) t"
    have l: "literal_digits t = ?ds" "literal_base t = 10" using False zero by (simp_all add: literal_digits_def literal_base_def)
    obtain rest where r: "t = ?ds @ rest" "ends_digits 10 rest" "list_all (digit_below 10) ?ds"
      using split_digits by metis
    then obtain d ds where ds: "?ds = d # ds" using assms l by (cases ?ds) auto
    then have "d \<noteq> CHR ''0''" using zero r(1) by (cases t) auto
    from reads_decimal [OF this, of ds rest] show ?thesis using r ds l by (metis append_Cons)
  qed
qed

lemma literal_reads_iff:
  "literal_reads t n \<longleftrightarrow> literal_digits t \<noteq> [] \<and> n = number_of (literal_base t) 0 (literal_digits t)"
  using literal_reads_digits digits_literal_reads by blast

text \<open>A literal starts with a digit, which is no white space and no sign.\<close>

lemma literal_start:
  assumes "literal_reads t n"
  obtains c t' where "t = c # t'" and "\<not> isspace c" and "c \<noteq> CHR ''-''" and "c \<noteq> CHR ''+''"
proof -
  have "\<exists>c t'. t = c # t' \<and> digit_below 10 c"
    using assms by cases (auto simp: zero_below)
  then show thesis using that digit_below_chars by metis
qed

lemma number_reads_iff:
  "number_reads s v \<longleftrightarrow>
     (let t = dropWhile isspace s; u = after_sign t; n = int (number_of (literal_base u) 0 (literal_digits u))
      in literal_digits u \<noteq> [] \<and> v = (if t \<noteq> [] \<and> hd t = CHR ''-'' then - n else n))"
proof
  have sp: "\<not> isspace CHR ''+''" "\<not> isspace CHR ''-''" by (simp_all add: isspace_iff)
  assume "number_reads s v"
  then show "let t = dropWhile isspace s; u = after_sign t; n = int (number_of (literal_base u) 0 (literal_digits u))
      in literal_digits u \<noteq> [] \<and> v = (if t \<noteq> [] \<and> hd t = CHR ''-'' then - n else n)"
  proof cases
    case (reads_plain ws t n)
    obtain c t' where "t = c # t'" "\<not> isspace c" "c \<noteq> CHR ''-''" "c \<noteq> CHR ''+''"
      using literal_start [OF reads_plain(4)] .
    with reads_plain show ?thesis by (simp add: dropWhile_append3 list_all_iff after_sign_def literal_reads_iff)
  qed (simp_all add: list_all_iff after_sign_def literal_reads_iff sp)
next
  let ?t = "dropWhile isspace s"
  assume r: "let t = dropWhile isspace s; u = after_sign t; n = int (number_of (literal_base u) 0 (literal_digits u))
      in literal_digits u \<noteq> [] \<and> v = (if t \<noteq> [] \<and> hd t = CHR ''-'' then - n else n)"
  then have l: "literal_reads (after_sign ?t) (number_of (literal_base (after_sign ?t)) 0 (literal_digits (after_sign ?t)))"
    by (simp add: Let_def digits_literal_reads)
  have w: "list_all isspace (takeWhile isspace s)" by (simp add: list_all_iff) (meson set_takeWhileD)
  have s: "s = takeWhile isspace s @ ?t" by simp
  consider (minus) u where "?t = CHR ''-'' # u" | (plus) u where "?t = CHR ''+'' # u"
    | (plain) "after_sign ?t = ?t" "?t = [] \<or> hd ?t \<noteq> CHR ''-''"
    by (cases ?t; cases "hd ?t = CHR ''-''"; cases "hd ?t = CHR ''+''") (auto simp: after_sign_def)
  then show "number_reads s v"
  proof cases
    case minus
    then show ?thesis using r l reads_minus [OF w, of u] s by (simp add: after_sign_def Let_def)
  next
    case plus
    then show ?thesis using r l reads_plus [OF w, of u] s by (simp add: after_sign_def Let_def)
  next
    case plain
    then show ?thesis using r l reads_plain [OF w, of ?t] s by (auto simp: Let_def)
  qed
qed

text \<open>\<^verbatim>\<open>strtol\<close> reads exactly the numbers, clamped to 64 bits, and moves its end pointer exactly when there is one.\<close>

lemma strtol0_reads:
  "snd (strtol0 s) \<noteq> 0 \<longleftrightarrow> (\<exists>v. number_reads s v)"
  "number_reads s v \<Longrightarrow> fst (strtol0 s) = clamp_long v"
  by (auto simp: strtol0_eq number_reads_iff Let_def)

lemma literal_reads_decimal: "literal_reads (decimal_nat n) n"
proof (cases "n = 0")
  case True
  then show ?thesis using reads_octal [of "[]" "[]"]
    by (simp add: decimal_nat.simps hex_digits_def ends_digits_def zero_below)
next
  case False
  obtain d ds where ds: "decimal_nat n = d # ds" by (cases "decimal_nat n") simp_all
  moreover from this have "d \<noteq> CHR ''0''" using hd_decimal_0 [of n] False by simp
  ultimately show ?thesis
    using reads_decimal [of d ds "[]"] decimal_digits [of n] number_of_decimal [of n] by (simp add: ends_digits_def)
qed

lemma number_reads_decimal: "number_reads (decimal z) z"
  using reads_plain [of "[]", OF _ literal_reads_decimal, of "nat z"] reads_minus [of "[]", OF _ literal_reads_decimal, of "nat (- z)"]
  by (cases "z < 0") (simp_all add: decimal_def)

section \<open>The option\<close>

fun set_all_options :: "example_vm \<Rightarrow> (string \<times> string option) list \<Rightarrow> example_vm" where
  "set_all_options vm [] = vm"
| "set_all_options vm ((name, val) # options) = set_all_options (snd (example_set_option vm name val)) options"

lemma set_option_bounds:
  "-1 \<le> verbose vm \<and> verbose vm \<le> 9 \<Longrightarrow>
   -1 \<le> verbose (snd (example_set_option vm name val)) \<and> verbose (snd (example_set_option vm name val)) \<le> 9"
  by (auto simp: example_set_option_def Let_def split: option.split prod.split)

lemma set_all_options_bounds:
  "-1 \<le> verbose vm \<and> verbose vm \<le> 9 \<Longrightarrow>
   -1 \<le> verbose (set_all_options vm options) \<and> verbose (set_all_options vm options) \<le> 9"
  by (induction vm options rule: set_all_options.induct) (simp_all add: set_option_bounds)

text \<open>C34: the verbosity option takes exactly the texts that start with a number from -1 to 9. A text is
  accepted, and then the verbosity is set to \<open>v\<close>, precisely when it starts, after white space and a sign,
  with an integer literal of C (decimal, octal behind \<open>0\<close> or hexadecimal behind \<open>0x\<close>), read as far as its
  digits go, of value \<open>v\<close> in that range; whatever follows the digits is ignored. Any other text, one without a
  number among them, and a null value are rejected and change nothing. The decimal text of an integer starts
  with that integer and no other. And whatever options are set to whatever texts, in whatever order, the
  verbosity of an instance stays in the range.\<close>

theorem verbose_option_range:
  "(example_set_option vm ''verbose'' (Some t) = (QRVMC_SET_OPTION_SUCCESS, vm') \<longleftrightarrow>
      (\<exists>v. number_reads t v \<and> -1 \<le> v \<and> v \<le> 9 \<and> vm' = vm\<lparr>verbose := v\<rparr>)) \<and>
   (example_set_option vm ''verbose'' (Some t) = (QRVMC_SET_OPTION_INVALID_VALUE, vm) \<longleftrightarrow>
      \<not> (\<exists>v. number_reads t v \<and> -1 \<le> v \<and> v \<le> 9)) \<and>
   example_set_option vm ''verbose'' None = (QRVMC_SET_OPTION_INVALID_VALUE, vm) \<and>
   number_reads (decimal z) z \<and> (number_reads (decimal z) y \<longleftrightarrow> y = z) \<and>
   verbose (set_all_options (snd (ExampleVM_init version)) options) \<in> {-1..9}"
proof -
  have val: "example_set_option vm ''verbose'' (Some t) =
      (if \<exists>v. number_reads t v \<and> -1 \<le> v \<and> v \<le> 9 then (QRVMC_SET_OPTION_SUCCESS, vm\<lparr>verbose := fst (strtol0 t)\<rparr>)
       else (QRVMC_SET_OPTION_INVALID_VALUE, vm))"
  proof (cases "\<exists>v. number_reads t v")
    case False
    then show ?thesis using strtol0_reads(1) [of t] by (auto simp: example_set_option_def Let_def split_beta)
  next
    case True
    then obtain v where v: "number_reads t v" by blast
    have "w = v" if "number_reads t w" for w using v that by (simp add: number_reads_iff Let_def)
    then have "(\<exists>v. number_reads t v \<and> -1 \<le> v \<and> v \<le> 9) \<longleftrightarrow> -1 \<le> v \<and> v \<le> 9" using v by blast
    moreover have "snd (strtol0 t) \<noteq> 0" "fst (strtol0 t) = clamp_long v" using v strtol0_reads by blast+
    ultimately show ?thesis
      by (auto simp: example_set_option_def Let_def split_beta clamp_long_def max_def min_def)
  qed
  have uniq: "number_reads t a \<Longrightarrow> number_reads t b \<Longrightarrow> a = b" for t a b by (simp add: number_reads_iff Let_def)
  have fst: "fst (strtol0 t) = v" if "number_reads t v" "-1 \<le> v" "v \<le> 9" for v
    using strtol0_reads(2) [OF that(1)] that(2,3) by (simp add: clamp_long_def)
  have "example_set_option vm ''verbose'' None = (QRVMC_SET_OPTION_INVALID_VALUE, vm)" by (simp add: example_set_option_def)
  then show ?thesis
    using set_all_options_bounds [of "snd (ExampleVM_init version)" options] number_reads_decimal [of z] uniq fst val
    by (auto simp: ExampleVM_init_def)
qed

end
