(* ===== verification/Run.thy ===== *)
theory Run
  imports VMPrograms Precompiles VMWrapper Options
begin

text \<open>
  \<^verbatim>\<open>lib/tooling/run.cpp\<close>: executing code with a VM on a MockedHost and reporting the outcome, with the
  optional contract creation and benchmark, and the stream operators of \<^verbatim>\<open>qrvmc.hpp\<close>. The locale
  \<open>tool_vm\<close> states what \<^verbatim>\<open>run\<close> needs of a VM, and is interpreted on both VMs of the repository.
\<close>

section \<open>Output streams\<close>

text \<open>An output stream is the text written so far. Numbers are written in decimal.\<close>

definition to_string_status :: "qrvmc_status_code \<Rightarrow> string" where
  "to_string_status status_code = qrvmc_status_code_to_string status_code"

definition to_string_revision :: "qrvmc_revision \<Rightarrow> string" where
  "to_string_revision revision = qrvmc_revision_to_string revision"

definition stream_status :: "string \<Rightarrow> qrvmc_status_code \<Rightarrow> string" where
  "stream_status os status_code = os @ to_string_status status_code"

definition stream_revision :: "string \<Rightarrow> qrvmc_revision \<Rightarrow> string" where
  "stream_revision os revision = os @ to_string_revision revision"

definition newline :: string where
  "newline = [CHR 0x0A]"

section \<open>Definitions\<close>

text \<open>The literal is shown to parse to this address in \<open>create_address_literal\<close>.\<close>

definition create_address :: address where
  "create_address = barray_init ([0xc9, 0xea, 0x7e, 0xd0] @ replicate 15 0 @ [1])"

definition create_gas :: i64 where
  "create_gas = 10000000"

text \<open>
  The clock of the benchmark is a parameter: the nanoseconds the probe run and the benchmark loop
  take. A probe that takes no time makes the division undefined. An execution whose result is not
  used destroys it at once.
\<close>

record bench_clock =
  probe_time :: nat
  loop_time :: nat

fun execute_times ::
  "nat \<Rightarrow> vm_object \<Rightarrow> qrvmc_revision \<Rightarrow> qrvmc_message \<Rightarrow> u8 list \<Rightarrow>
   mocked_host \<times> ('v, mocked_host) vm_store \<times> heap \<Rightarrow>
   (mocked_host \<times> ('v, mocked_host) vm_store \<times> heap) option" where
  "execute_times 0 vm revision msg code st = Some st"
| "execute_times (Suc n) vm revision msg code (host, st, h) = do {
     (result, host, st, h) \<leftarrow> vm_object_execute_host vm MockedHost host revision msg code (st, h);
     h \<leftarrow> result_dtor result h;
     execute_times n vm revision msg code (host, st, h)
   }"

definition bench_warning :: string where
  "bench_warning = ''WARNING! Inconsistent execution result likely due to the use of storage ''"

definition bench ::
  "bench_clock \<Rightarrow> vm_object \<Rightarrow> qrvmc_revision \<Rightarrow> qrvmc_message \<Rightarrow> u8 list \<Rightarrow> qrvmc_result \<Rightarrow> string \<Rightarrow>
   mocked_host \<times> ('v, mocked_host) vm_store \<times> heap \<Rightarrow>
   (string \<times> mocked_host \<times> ('v, mocked_host) vm_store \<times> heap) option" where
  "bench clock vm revision msg code expected_result out = (\<lambda>(host, st, h). do {
     (result, host, st, h) \<leftarrow> vm_object_execute_host vm MockedHost host revision msg code (st, h);
     out \<leftarrow>
       (if res_gas_left result \<noteq> res_gas_left expected_result then do {
          gas_used \<leftarrow> i64_sub (msg_gas msg) (res_gas_left result);
          Some (out @ bench_warning @ ''(gas used: '' @ decimal (sint gas_used) @ '')'' @ newline)
        } else Some out);
     output \<leftarrow> mem_read h (res_output_data result) (res_output_size result);
     expected_output \<leftarrow> mem_read h (res_output_data expected_result) (res_output_size expected_result);
     let out = (if output \<noteq> expected_output
                then out @ bench_warning @ ''(output: '' @ hex output @ '')'' @ newline else out);
     if probe_time clock = 0 then None else do {
       let num_iterations = max (10 ^ 9 div probe_time clock) 1;
       (host, st, h) \<leftarrow> execute_times num_iterations vm revision msg code (host, st, h);
       let bench_time = loop_time clock div num_iterations;
       h \<leftarrow> result_dtor result h;
       Some (out @ ''Time:     '' @ decimal (int bench_time) @ '' ns (avg of '' @ decimal (int num_iterations) @
               '' iterations)'' @ newline, host, st, h)
     }
   })"

text \<open>\<^verbatim>\<open>run\<close> in two parts: the contract creation, which may end it with a status code, and the rest.
  A \<^verbatim>\<open>bytes_view\<close> of the input is a pointer and a size.\<close>

definition create_message :: qrvmc_message where
  "create_message =
     zero_message\<lparr>msg_kind := QRVMC_CREATE, msg_recipient := create_address, msg_gas := create_gas\<rparr>"

definition create_contract ::
  "vm_object \<Rightarrow> qrvmc_revision \<Rightarrow> u8 list \<Rightarrow> mocked_host \<times> ('v, mocked_host) vm_store \<times> heap \<Rightarrow>
   ((qrvmc_status_code + u8 list) \<times> mocked_host \<times> ('v, mocked_host) vm_store \<times> heap) option" where
  "create_contract vm revision code = (\<lambda>(host, st, h). do {
     (create_result, host, st, h) \<leftarrow>
       vm_object_execute_host vm MockedHost host revision create_message code (st, h);
     if res_status_code create_result \<noteq> QRVMC_SUCCESS then do {
       h \<leftarrow> result_dtor create_result h;
       Some (Inl (res_status_code create_result), host, st, h)
     } else do {
       created_code \<leftarrow> mem_read h (res_output_data create_result) (res_output_size create_result);
       let created_account = (account_at host create_address)\<lparr>acc_code := created_code\<rparr>;
       let host = host\<lparr>mh_accounts := (mh_accounts host)(create_address \<mapsto> created_account)\<rparr>;
       h \<leftarrow> result_dtor create_result h;
       Some (Inr (acc_code created_account), host, st, h)
     }
   })"

definition run_code ::
  "bench_clock \<Rightarrow> vm_object \<Rightarrow> qrvmc_revision \<Rightarrow> qrvmc_message \<Rightarrow> u8 list \<Rightarrow> bool \<Rightarrow> string \<Rightarrow>
   mocked_host \<times> ('v, mocked_host) vm_store \<times> heap \<Rightarrow>
   (string \<times> ('v, mocked_host) vm_store \<times> heap) option" where
  "run_code clock vm revision msg exec_code with_bench out = (\<lambda>(host, st, h). do {
     (result, host, st, h) \<leftarrow> vm_object_execute_host vm MockedHost host revision msg exec_code (st, h);
     (out, host, st, h) \<leftarrow>
       (if with_bench then bench clock vm revision msg exec_code result out (host, st, h)
        else Some (out, host, st, h));
     gas_used \<leftarrow> i64_sub (msg_gas msg) (res_gas_left result);
     let out = stream_status (out @ ''Result:   '') (res_status_code result) @ newline @
               ''Gas used: '' @ decimal (sint gas_used) @ newline;
     out \<leftarrow>
       (if res_status_code result = QRVMC_SUCCESS \<or> res_status_code result = QRVMC_REVERT then do {
          output \<leftarrow> mem_read h (res_output_data result) (res_output_size result);
          Some (out @ ''Output:   '' @ hex output @ newline)
        } else Some out);
     h \<leftarrow> result_dtor result h;
     Some (out, st, h)
   })"

definition run ::
  "bench_clock \<Rightarrow> vm_object \<Rightarrow> qrvmc_revision \<Rightarrow> i64 \<Rightarrow> u8 list \<Rightarrow> ptr \<times> nat \<Rightarrow> bool \<Rightarrow> bool \<Rightarrow> string \<Rightarrow>
   ('v, mocked_host) vm_store \<times> heap \<Rightarrow> (int \<times> string \<times> ('v, mocked_host) vm_store \<times> heap) option" where
  "run clock vm revision gas code input create with_bench out = (\<lambda>(st, h). do {
     let out = stream_revision (out @ (if create then ''Creating and executing on '' else ''Executing on '')) revision @
               '' with '' @ decimal (sint gas) @ '' gas limit'' @ newline;
     let host = mocked_host_init;
     let msg = zero_message\<lparr>msg_gas := gas, msg_input_data := fst input, msg_input_size := snd input\<rparr>;
     if create then do {
       (created, host, st, h) \<leftarrow> create_contract vm revision code (host, st, h);
       (case created of
          Inl status_code \<Rightarrow>
            Some (status_value status_code,
                  stream_status (out @ ''Contract creation failed: '') status_code @ newline, st, h)
        | Inr exec_code \<Rightarrow> do {
            (out, st, h) \<leftarrow> run_code clock vm revision (msg\<lparr>msg_recipient := create_address\<rparr>) exec_code
               with_bench (out @ newline) (host, st, h);
            Some (0, out, st, h)
          })
     } else do {
       (out, st, h) \<leftarrow> run_code clock vm revision msg code with_bench (out @ newline) (host, st, h);
       Some (0, out, st, h)
     }
   })"

lemma fifteen_zeros: "replicate 15 (0 :: u8) = [0, 0, 0, 0, 0, 0, 0, 0, 0, 0, 0, 0, 0, 0, 0]"
  by (simp add: numeral_eq_Suc)

lemma create_address_literal:
  "literal_address ''Qc9ea7ed000000000000000000000000000000001'' = Some create_address"
proof -
  have lit: "literal_address (''Q'' @ hex bs) = Some (barray_init bs)" if "length bs = 20" for bs
    unfolding literal_address_def parse_prefixed_def
      from_prefixed_hex_prefix [of "''Q''" "hex bs", OF list.distinct(2)]
    using that by (simp add: from_hex_into_eq hex_spec_hex)
  have "''Qc9ea7ed000000000000000000000000000000001'' = ''Q'' @ hex ([0xc9, 0xea, 0x7e, 0xd0] @ replicate 15 0 @ [1])"
    by (simp add: fifteen_zeros hex_byte_def hex_digits_def)
  then show ?thesis by (simp only: lit length_append length_replicate list.size create_address_def)
qed

section \<open>Ownership\<close>

text \<open>What \<^verbatim>\<open>run\<close> keeps of the VM instances.\<close>

definition store_kept :: "('v, 's) vm_store \<Rightarrow> ('v, 's) vm_store \<Rightarrow> bool" where
  "store_kept st st' \<longleftrightarrow>
     deletable st' = deletable st \<and> (\<forall>j. instances st' j = None \<longleftrightarrow> instances st j = None) \<and>
     next_instance st' = next_instance st"

lemma store_kept_refl: "store_kept st st" by (simp add: store_kept_def)
lemma store_kept_trans: "store_kept st1 st2 \<Longrightarrow> store_kept st2 st3 \<Longrightarrow> store_kept st1 st3" by (simp add: store_kept_def)

lemma store_kept_set_data: "store_kept st (set_data (Some i) v st)"
  by (simp add: store_kept_def set_data_keeps fun_eq_iff)

section \<open>What a VM has to promise\<close>

text \<open>A VM the tool can run: on a MockedHost its executions return lawful results.\<close>

lemma run_code_parts:
  assumes "run_code clock vm revision msg code with_bench out (s, st, h) = Some (out', st', h')"
  shows "\<exists>r s1 st1 h1 outb s2 h2.
    vm_object_execute_host vm MockedHost s revision msg code (st, h) = Some (r, s1, st1, h1) \<and>
    (if with_bench then bench clock vm revision msg code r out (s1, st1, h1)
     else Some (out, s1, st1, h1)) = Some (outb, s2, st', h2) \<and> result_dtor r h2 = Some h'"
  using assms
  by (cases with_bench) (auto simp: run_code_def bind_eq_Some_conv Let_def split: if_split_asm)

locale tool_vm =
  fixes table :: "('v, mocked_host) qrvmc_vm"
  assumes execute_lawful:
    "heap_wf h \<Longrightarrow> plain_result s \<Longrightarrow> 0 \<le> sint (msg_gas msg) \<Longrightarrow>
     vm_execute table v (Some (get_interface MockedHost)) s h revision msg code = Some (r, v', s', h') \<Longrightarrow>
     lawful_result h (Some (r, h')) \<and> plain_result s'"
begin

definition runs_on :: "vm_object \<Rightarrow> ('v, mocked_host) vm_store \<Rightarrow> bool" where
  "runs_on vm st \<longleftrightarrow> (\<exists>v. vm_at vm st = Some (table, v))"

lemma execute_object:
  assumes "vm_object_execute_host vm MockedHost s revision msg code (st, h) = Some (r, s', st', h')"
    and "runs_on vm st" and "heap_wf h" and "plain_result s" and "0 \<le> sint (msg_gas msg)"
  shows "lawful_result h (Some (r, h')) \<and> plain_result s' \<and> runs_on vm st' \<and> store_kept st st'"
proof -
  obtain v i where v: "vm = Some i" "instances st i = Some (table, v)"
    using assms(2) by (auto simp: runs_on_def vm_at_def bind_eq_Some_conv)
  then obtain raw v' where e: "vm_execute table v (Some (get_interface MockedHost)) s h revision msg code = Some (raw, v', s', h')"
    and r: "r = raw" "st' = set_data vm v' st"
    using assms(1)
    by (auto simp: vm_object_execute_host_def vm_object_execute_def vm_at_def bind_eq_Some_conv result_from_raw_def)
  have "runs_on vm st'" using v r by (simp add: runs_on_def vm_at_def set_data_instances)
  with execute_lawful [OF assms(3,4,5) e] r v show ?thesis by (simp add: store_kept_set_data)
qed

lemma execute_destroyed:
  assumes "vm_object_execute_host vm MockedHost s revision msg code (st, h) = Some (r, s', st', h1)"
    and "runs_on vm st" and "heap_wf h" and "plain_result s" and "0 \<le> sint (msg_gas msg)"
    and "result_dtor r h1 = Some h'"
  shows "heap_kept h h' \<and> plain_result s' \<and> runs_on vm st' \<and> store_kept st st'"
proof -
  note e = execute_object [OF assms(1-5)]
  then have "heap_kept h1 h1" by (auto simp: lawful_at_def heap_kept_refl)
  with e destroyed_kept [of h r h1 h1 h'] assms(6) show ?thesis by blast
qed

text \<open>The invariant all parts of \<^verbatim>\<open>run\<close> keep.\<close>

definition tool_inv :: "vm_object \<Rightarrow> ('v, mocked_host) vm_store \<Rightarrow> heap \<Rightarrow>
    mocked_host \<times> ('v, mocked_host) vm_store \<times> heap \<Rightarrow> bool" where
  "tool_inv vm st0 h0 = (\<lambda>(s, st, h). plain_result s \<and> runs_on vm st \<and> store_kept st0 st \<and> heap_kept h0 h)"

lemma execute_times_inv:
  assumes "execute_times n vm revision msg code x = Some x'" and "tool_inv vm st0 h0 x"
    and "0 \<le> sint (msg_gas msg)"
  shows "tool_inv vm st0 h0 x'"
  using assms(1,2)
proof (induction n arbitrary: x)
  case 0
  then show ?case by simp
next
  case (Suc n)
  obtain s st h where x: "x = (s, st, h)" by (cases x)
  then obtain r s1 st1 h1 h2 where e: "vm_object_execute_host vm MockedHost s revision msg code (st, h) = Some (r, s1, st1, h1)"
    and d: "result_dtor r h1 = Some h2" and rest: "execute_times n vm revision msg code (s1, st1, h2) = Some x'"
    using Suc.prems(1) by (auto simp: bind_eq_Some_conv)
  have i: "plain_result s" "runs_on vm st" "store_kept st0 st" "heap_kept h0 h"
    using Suc.prems(2) x by (auto simp: tool_inv_def)
  then have "heap_wf h" by (simp add: heap_kept_def)
  from execute_destroyed [OF e i(2) this i(1) assms(3) d] i have "tool_inv vm st0 h0 (s1, st1, h2)"
    by (auto simp: tool_inv_def intro: store_kept_trans heap_kept_trans)
  from Suc.IH [OF rest this] show ?case .
qed

lemma bench_inv:
  assumes "bench clock vm revision msg code expected out x = Some (out', x')" and "tool_inv vm st0 h0 x"
    and "0 \<le> sint (msg_gas msg)"
  shows "tool_inv vm st0 h0 x'"
proof -
  obtain s st h where x: "x = (s, st, h)" by (cases x)
  obtain r s1 st1 h1 n s2 st2 h2 h3 where
    e: "vm_object_execute_host vm MockedHost s revision msg code (st, h) = Some (r, s1, st1, h1)"
    and t: "execute_times n vm revision msg code (s1, st1, h1) = Some (s2, st2, h2)"
    and d: "result_dtor r h2 = Some h3" and x': "x' = (s2, st2, h3)"
    using assms(1) x by (auto simp: bench_def bind_eq_Some_conv Let_def split: if_split_asm)
  have i: "plain_result s" "runs_on vm st" "store_kept st0 st" "heap_kept h0 h"
    using assms(2) x by (auto simp: tool_inv_def)
  then have "heap_wf h" by (simp add: heap_kept_def)
  note o = execute_object [OF e i(2) this i(1) assms(3)]
  then have "tool_inv vm st h1 (s1, st1, h1)"
    by (auto simp: tool_inv_def lawful_at_def heap_kept_refl)
  from execute_times_inv [OF t this assms(3)] have "tool_inv vm st h1 (s2, st2, h2)" .
  with o destroyed_kept [OF _ _ d] i x' show ?thesis
    by (auto simp: tool_inv_def intro: store_kept_trans heap_kept_trans)
qed

lemma create_contract_inv:
  assumes "create_contract vm revision code x = Some (c, x')" and "tool_inv vm st0 h0 x"
  shows "tool_inv vm st0 h0 x' \<and> c \<noteq> Inl QRVMC_SUCCESS"
proof -
  obtain s st h where x: "x = (s, st, h)" by (cases x)
  obtain r s1 st1 h1 h2 s2 where
    e: "vm_object_execute_host vm MockedHost s revision create_message code (st, h) = Some (r, s1, st1, h1)"
    and d: "result_dtor r h1 = Some h2" and x': "x' = (s2, st1, h2)" and c: "c \<noteq> Inl QRVMC_SUCCESS"
    and s2: "mh_call_result s2 = mh_call_result s1"
    using assms(1) x
    by (auto simp: create_contract_def bind_eq_Some_conv Let_def split: if_split_asm)
  have i: "plain_result s" "runs_on vm st" "store_kept st0 st" "heap_kept h0 h"
    using assms(2) x by (auto simp: tool_inv_def)
  then have "heap_wf h" by (simp add: heap_kept_def)
  moreover have "0 \<le> sint (msg_gas create_message)" by (simp add: create_message_def create_gas_def)
  ultimately have "heap_kept h h2 \<and> plain_result s1 \<and> runs_on vm st1 \<and> store_kept st st1"
    using execute_destroyed [OF e i(2) _ i(1) _ d] by blast
  then show ?thesis using i x' c s2
    by (auto simp: tool_inv_def plain_result_def intro: store_kept_trans heap_kept_trans)
qed

lemma run_code_inv:
  assumes "run_code clock vm revision msg code with_bench out x = Some (out', st', h')" and "tool_inv vm st0 h0 x"
    and "0 \<le> sint (msg_gas msg)"
  shows "store_kept st0 st' \<and> heap_kept h0 h'"
proof -
  obtain s st h where x: "x = (s, st, h)" by (cases x)
  obtain r s1 st1 h1 s2 h2 outb where
    e: "vm_object_execute_host vm MockedHost s revision msg code (st, h) = Some (r, s1, st1, h1)"
    and b: "(if with_bench then bench clock vm revision msg code r out (s1, st1, h1)
        else Some (out, s1, st1, h1)) = Some (outb, s2, st', h2)"
    and d: "result_dtor r h2 = Some h'"
    using run_code_parts [OF assms(1) [unfolded x]] by blast
  have i: "plain_result s" "runs_on vm st" "store_kept st0 st" "heap_kept h0 h"
    using assms(2) x by (auto simp: tool_inv_def)
  then have "heap_wf h" by (simp add: heap_kept_def)
  note o = execute_object [OF e i(2) this i(1) assms(3)]
  then have "tool_inv vm st h1 (s1, st1, h1)"
    by (auto simp: tool_inv_def lawful_at_def heap_kept_refl)
  then have "tool_inv vm st h1 (s2, st', h2)"
    using b bench_inv [OF _ _ assms(3)] by (auto split: if_split_asm)
  with o destroyed_kept [OF _ _ d] i show ?thesis
    by (auto simp: tool_inv_def intro: store_kept_trans heap_kept_trans)
qed

lemma run_kept:
  assumes e: "run clock vm revision gas code input create with_bench out (st, h) = Some (rc, out', st', h')"
    and i: "runs_on vm st" "heap_wf h" "0 \<le> sint gas"
  shows "heap_kept h h' \<and> store_kept st st' \<and>
    (rc \<noteq> 0 \<longrightarrow> create \<and> (\<exists>c. c \<noteq> QRVMC_SUCCESS \<and> rc = status_value c))"
proof -
  have start: "tool_inv vm st h (mocked_host_init, st, h)"
    using i by (simp add: tool_inv_def store_kept_refl heap_kept_refl plain_result_def mocked_host_init_def zero_result_def)
  show ?thesis
  proof (cases create)
    case False
    then show ?thesis using e i(3) run_code_inv [OF _ start]
      by (fastforce simp: run_def Let_def bind_eq_Some_conv)
  next
    case True
    obtain c x where c: "create_contract vm revision code (mocked_host_init, st, h) = Some (c, x)"
      using e True by (fastforce simp: run_def Let_def bind_eq_Some_conv)
    note inv = create_contract_inv [OF c start]
    show ?thesis
    proof (cases c)
      case (Inl status)
      then show ?thesis using e True c inv by (auto simp: run_def Let_def tool_inv_def)
    next
      case (Inr exec_code)
      then show ?thesis using e True c i(3) inv run_code_inv [of clock vm revision _ exec_code with_bench _ x]
        by (fastforce simp: run_def Let_def bind_eq_Some_conv split: prod.splits)
    qed
  qed
qed

end

interpretation example_tool: tool_vm "fst (ExampleVM_init version)"
  by unfold_locales (use mocked_vm.execute_contract in \<open>force simp: ExampleVM_init_def\<close>)

text \<open>The identity precompile makes a lawful result or none at all.\<close>

lemma execute_identity_lawful:
  assumes w: "heap_wf h" and e: "execute_identity msg h = Some (r, h')"
  shows "lawful_result h (Some (r, h'))"
proof (cases "r = zero_result\<lparr>res_status_code := QRVMC_OUT_OF_GAS\<rparr>")
  case True
  then have "h' = h" using e
    by (auto simp: execute_identity_def bind_eq_Some_conv Let_def zero_result_def split: if_split_asm)
  then show ?thesis using lawful_unowned [OF w] True by (simp add: zero_result_def)
next
  case False
  let ?n = "msg_input_size msg"
  obtain src g where s: "mem_read (snd (allocate New_array (replicate ?n (junk h)) h)) (msg_input_data msg) ?n = Some src"
    and h': "mem_write (snd (allocate New_array (replicate ?n (junk h)) h)) (Ptr (fresh h) 0) src = Some h'"
    and r: "r = zero_result\<lparr>res_status_code := QRVMC_SUCCESS, res_output_data := Ptr (fresh h) 0,
      res_output_size := ?n, res_release := Delete_output, res_gas_left := g\<rparr>"
    using e False
    by (auto simp: execute_identity_def new_array_def allocate_def bind_eq_Some_conv Let_def split: if_split_asm)
  have "length src = ?n" using s by (rule mem_read_length)
  then have "h' = snd (allocate New_array src h)"
    using h' by (auto simp: mem_write_def allocate_def copy_into_def patch_def split: if_split_asm)
  moreover have "lawful_result h (Some (r, snd (allocate New_array src h)))"
    by (rule lawful_allocated [OF w]) (simp_all add: r release_kind_def)
  ultimately show ?thesis by simp
qed

interpretation precompiles_tool: tool_vm "qrvmc_create_example_precompiles_vm version"
proof
  fix h msg s v revision code r v' s' and h' :: heap
  assume w: "heap_wf h" and p: "plain_result s"
    and e: "vm_execute (qrvmc_create_example_precompiles_vm version) v (Some (get_interface MockedHost)) s h revision msg code =
      Some (r, v', s', h')"
  have "execute_identity msg h = Some (r, h') \<and> s' = s \<or> res_release r = No_release \<and> h' = h \<and> s' = s"
    using e by (auto simp: qrvmc_create_example_precompiles_vm_def precompiles_execute_def Let_def
        not_implemented_def execute_empty_def zero_result_def split: if_split_asm)
  with execute_identity_lawful [OF w] lawful_unowned [OF w] p
  show "lawful_result h (Some (r, h')) \<and> plain_result s'" by blast
qed

text \<open>C35: the tool's \<^verbatim>\<open>run\<close> keeps the books of the example VM. Whatever the code, input, options and clock
  are, when it returns all results have been destroyed: the memory somebody has to give back is what
  it was, and the VM instances are the ones there were. The exit code is zero, or the status code of
  a contract creation that failed.\<close>

theorem run_keeps_memory:
  assumes "heap_wf h" and "0 \<le> sint gas" and "vm_at vm st = Some (fst (ExampleVM_init version), v)"
    and "run clock vm revision gas code input create with_bench out (st, h) = Some (rc, out', st', h')"
  shows "held_blocks h' = held_blocks h \<and> vm_held st' = vm_held st \<and>
    (rc = 0 \<or> create \<and> (\<exists>c. c \<noteq> QRVMC_SUCCESS \<and> rc = status_value c))"
proof -
  have "example_tool.runs_on version vm st" using assms(3) by (auto simp: example_tool.runs_on_def)
  from example_tool.run_kept [OF assms(4) this assms(1,2)] show ?thesis
    by (auto simp: heap_kept_def store_kept_def vm_held_def)
qed

text \<open>The same for the precompiles VM.\<close>

lemma precompiles_run_keeps_memory:
  assumes "heap_wf h" and "0 \<le> sint gas" and "vm_at vm st = Some (qrvmc_create_example_precompiles_vm version, v)"
    and "run clock vm revision gas code input create with_bench out (st, h) = Some (rc, out', st', h')"
  shows "held_blocks h' = held_blocks h \<and> vm_held st' = vm_held st"
proof -
  have "precompiles_tool.runs_on version vm st" using assms(3) by (auto simp: precompiles_tool.runs_on_def)
  from precompiles_tool.run_kept [OF assms(4) this assms(1,2)] show ?thesis
    by (auto simp: heap_kept_def store_kept_def vm_held_def)
qed

section \<open>What is reported\<close>

text \<open>The text of a run without creation and benchmark whose execution ends with \<open>r\<close> and this output.\<close>

definition report :: "qrvmc_revision \<Rightarrow> i64 \<Rightarrow> qrvmc_result \<Rightarrow> int \<Rightarrow> u8 list \<Rightarrow> string" where
  "report revision gas r gas_used output =
     ''Executing on '' @ qrvmc_revision_to_string revision @ '' with '' @ decimal (sint gas) @ '' gas limit'' @
     newline @ newline @ ''Result:   '' @ qrvmc_status_code_to_string (res_status_code r) @ newline @
     ''Gas used: '' @ decimal gas_used @ newline @
     (if ended_well r then ''Output:   '' @ hex output @ newline else [])"

text \<open>C36: what the tool reports of a checked program, without \<^verbatim>\<open>create\<close> and without \<^verbatim>\<open>bench\<close>. For a program the
  metrics table accepts, that has no region that wraps around, with gas that is not negative, an input that can
  be read and an instance of the example VM, \<^verbatim>\<open>run\<close> with both flags false is defined and returns zero. The text says what the execution by
  the example VM on a fresh MockedHost gives: its status, the gas used, which is the number of
  instructions read when it ended well and all the gas otherwise, and then the hex of the output,
  which decodes to the output.\<close>

theorem run_reports_execution:
  fixes gas :: i64
  assumes "heap_wf h" and "0 \<le> sint gas" and "vm_at vm st = Some (fst (ExampleVM_init version), v)"
    and "mem_read h input_data input_size \<noteq> None" and "stack_checked code 0"
  defines "msg \<equiv> zero_message\<lparr>msg_gas := gas, msg_input_data := input_data, msg_input_size := input_size\<rparr>"
    and "host \<equiv> Some (get_interface MockedHost)"
  assumes "no_wrap host msg code (0, initial_frame msg mocked_host_init h)"
  shows "\<exists>r s' h1 output st' h'.
    example_execute v host mocked_host_init h revision msg code = Some (r, v, s', h1) \<and>
    mem_read h1 (res_output_data r) (res_output_size r) = Some output \<and> from_hex (hex output) = Some output \<and>
    run clock vm revision gas code (input_data, input_size) False False out (st, h) =
      Some (0, out @ report revision gas r
          (if ended_well r then int (executed host msg code 0 (initial_frame msg mocked_host_init h)) else sint gas)
          output, st', h')"
proof -
  have plain: "plain_result mocked_host_init" by (simp add: plain_result_def mocked_host_init_def zero_result_def)
  have gas: "0 \<le> sint (msg_gas msg)" and read: "mem_read h (msg_input_data msg) (msg_input_size msg) \<noteq> None"
    using assms(2,4) by (simp_all add: msg_def)
  obtain r v' s' h1 where e: "example_execute v host mocked_host_init h revision msg code = Some (r, v', s', h1)"
    using mocked_vm.execute_defined [OF assms(1) plain gas read assms(5) assms(8) [unfolded host_def], of v revision]
    unfolding host_def by fastforce
  from mocked_vm.execute_contract [OF assms(1) plain gas e [unfolded host_def]]
  have c: "lawful_result h (Some (r, h1))" "vm_result_ok gas r h1" and v': "v' = v" by (auto simp: msg_def)
  obtain outp where o: "mem_read h1 (res_output_data r) (res_output_size r) = Some outp"
    using c(2) by (auto simp: vm_result_ok_def)
  obtain h' where d: "result_dtor r h1 = Some h'"
    using c(1) result.dtor_defined [of h1 r] by (auto simp: lawful_at_def Result_def)
  obtain used where u: "i64_sub gas (res_gas_left r) = Some used"
    using c(2) assms(2) sint_i64_range [of gas] by (auto simp: i64_sub_def i64_range_def vm_result_ok_def)
  have "sint used = sint gas - sint (res_gas_left r)" using i64_sub_Some [OF u] .
  also have "\<dots> = (if ended_well r then int (executed host msg code 0 (initial_frame msg mocked_host_init h)) else sint gas)"
    using gas_of_execution [OF e] c(2) by (auto simp: msg_def vm_result_ok_def)
  finally have used: "sint used = \<dots>" .
  obtain i where i: "vm = Some i" "instances st i = Some (fst (ExampleVM_init version), v)"
    using assms(3) by (auto simp: vm_at_def bind_eq_Some_conv)
  have x: "vm_object_execute_host vm MockedHost mocked_host_init revision msg code (st, h) = Some (r, s', set_data vm v st, h1)"
    using e v' i by (simp add: vm_object_execute_host_def vm_object_execute_def vm_at_def host_def ExampleVM_init_def result_from_raw_def)
  have "run clock vm revision gas code (input_data, input_size) False False out (st, h) =
      Some (0, out @ report revision gas r (sint used) outp, set_data vm v st, h')"
    using x o d u
    by (auto simp: run_def run_code_def report_def Let_def msg_def [symmetric] stream_revision_def stream_status_def
        to_string_revision_def to_string_status_def) (simp_all add: msg_def)
  moreover have "from_hex (hex outp) = Some outp" by (simp only: from_hex_eq_spec hex_spec_hex)
  ultimately show ?thesis using e v' o used by auto
qed

definition one_vm :: "('v, 's) qrvmc_vm \<times> 'v \<Rightarrow> ('v, 's) vm_store" where
  "one_vm iv = \<lparr>instances = [0 \<mapsto> iv], next_instance = 1\<rparr>"

definition sample_clock :: bench_clock where
  "sample_clock = \<lparr>probe_time = 1000, loop_time = 5000\<rparr>"

lemma decimal_digit: "decimal 5 = ''5''" "decimal 2 = ''2''"
  by (simp_all add: decimal_def decimal_nat.simps hex_digits_def)

theorem run_reports_execution_witness:
  "\<exists>st h. run sample_clock (Some 0) QRVMC_SHANGHAI 5 [0x59, 0x00] (Null, 0) False False []
       (one_vm (ExampleVM_init ''1''), sample_heap) =
     Some (0, ''Executing on Shanghai with 5 gas limit'' @ newline @ newline @ ''Result:   success'' @ newline @
       ''Gas used: 2'' @ newline @ ''Output:   '' @ newline, st, h)"
proof -
  let ?m = "zero_message\<lparr>msg_gas := 5, msg_input_data := Null, msg_input_size := 0\<rparr>"
  let ?host = "Some (get_interface MockedHost)" and ?f = "initial_frame ?m mocked_host_init sample_heap"
  have wf: "heap_wf sample_heap" by (simp add: heap_wf_def sample_heap_def)
  have vm: "vm_at (Some 0) (one_vm (ExampleVM_init ''1'')) = Some (fst (ExampleVM_init ''1''), \<lparr>verbose = 0\<rparr>)"
    by (simp add: vm_at_def one_vm_def ExampleVM_init_def)
  have sc: "stack_checked [0x59, 0x00] 0"
    by (simp add: required_def height_after_def implemented_def vm_metrics push_metrics push_bytes_def Let_def
        vm_metrics(1) [unfolded One_nat_def])
  have nw: "no_wrap ?host ?m [0x59, 0x00] (0, ?f)" by (rule no_wrap_without_regions) simp
  have ex: "executed ?host ?m [0x59, 0x00] 0 ?f = 2" by (rule msize_stop(1)) simp
  obtain h' where e: "example_execute \<lparr>verbose = 0\<rparr> ?host mocked_host_init sample_heap QRVMC_SHANGHAI ?m [0x59, 0x00] =
      Some (zero_result\<lparr>res_gas_left := 3\<rparr>, \<lparr>verbose = 0\<rparr>, mocked_host_init, h')"
    using msize_stop(2) [of ?m "\<lparr>verbose = 0\<rparr>" ?host mocked_host_init sample_heap QRVMC_SHANGHAI] by auto
  have g: "0 \<le> sint (5 :: i64)" and rd: "mem_read sample_heap Null 0 \<noteq> None" by (simp_all add: mem_read_def)
  obtain r s' h1 outp st h where x: "example_execute \<lparr>verbose = 0\<rparr> ?host mocked_host_init sample_heap QRVMC_SHANGHAI ?m [0x59, 0x00] =
        Some (r, \<lparr>verbose = 0\<rparr>, s', h1)" "mem_read h1 (res_output_data r) (res_output_size r) = Some outp"
    and run: "run sample_clock (Some 0) QRVMC_SHANGHAI 5 [0x59, 0x00] (Null, 0) False False []
       (one_vm (ExampleVM_init ''1''), sample_heap) =
      Some (0, [] @ report QRVMC_SHANGHAI 5 r (if ended_well r then int (executed ?host ?m [0x59, 0x00] 0 ?f) else sint (5 :: i64)) outp,
        st, h)"
    using run_reports_execution [OF wf g vm rd sc nw, where clock = sample_clock and revision = QRVMC_SHANGHAI and out = "[]"] by blast
  from x(1) e have r: "r = zero_result\<lparr>res_gas_left := 3\<rparr>" by simp
  with x(2) have outp: "outp = []" by (simp add: zero_result_def mem_read_def)
  from run show ?thesis unfolding r outp ex by (simp add: report_def zero_result_def decimal_digit hex_Nil)
qed

theorem run_keeps_memory_witness:
  "\<exists>text st h. run sample_clock (Some 0) QRVMC_SHANGHAI 5 [0x59, 0x00] (Null, 0) False False []
       (one_vm (ExampleVM_init ''1''), sample_heap) = Some (0, text, st, h) \<and>
     held_blocks h = held_blocks sample_heap \<and> vm_held st = vm_held (one_vm (ExampleVM_init ''1'') :: (example_vm, mocked_host) vm_store)"
proof -
  let ?m = "zero_message\<lparr>msg_gas := 5, msg_input_data := Null, msg_input_size := 0\<rparr>" and ?c = "[0x59, 0x00]"
  have wf: "heap_wf sample_heap" by (simp add: heap_wf_def sample_heap_def)
  have vm: "vm_at (Some 0) (one_vm (ExampleVM_init ''1'')) = Some (fst (ExampleVM_init ''1''), \<lparr>verbose = 0\<rparr>)"
    by (simp add: vm_at_def one_vm_def ExampleVM_init_def)
  obtain h' where e: "example_execute \<lparr>verbose = 0\<rparr> (Some (get_interface MockedHost)) mocked_host_init sample_heap QRVMC_SHANGHAI ?m ?c =
      Some (zero_result\<lparr>res_gas_left := 3\<rparr>, \<lparr>verbose = 0\<rparr>, mocked_host_init, h')"
    using msize_stop(2) [of ?m "\<lparr>verbose = 0\<rparr>" "Some (get_interface MockedHost)" mocked_host_init sample_heap QRVMC_SHANGHAI] by auto
  have "\<exists>text st h. run sample_clock (Some 0) QRVMC_SHANGHAI 5 ?c (Null, 0) False False []
       (one_vm (ExampleVM_init ''1''), sample_heap) = Some (0, text, st, h)"
    using e by (simp add: run_def run_code_def vm_object_execute_host_def vm_object_execute_def vm_at_def one_vm_def
        ExampleVM_init_def result_from_raw_def Let_def zero_result_def i64_sub_def i64_range_def mem_read_def result_dtor_def)
  then obtain report st h where r: "run sample_clock (Some 0) QRVMC_SHANGHAI 5 ?c (Null, 0) False False []
       (one_vm (ExampleVM_init ''1''), sample_heap) = Some (0, report, st, h)" by blast
  have g: "0 \<le> sint (5 :: i64)" by simp
  from run_keeps_memory [OF wf g vm r] r show ?thesis by blast
qed

end
