(* ===== verification/Loader.thy ===== *)
theory Loader
  imports VMWrapper Options
begin

text \<open>
  \<^verbatim>\<open>lib/loader/loader.c\<close> for systems with \<^verbatim>\<open>dlopen\<close>. The dynamic linker and the modules are a parameter;
  \<open>lawful_linker\<close> states what their create functions promise. The state is the pending error message
  with its buffer, the open modules and the VM instances. The \<^verbatim>\<open>error_code\<close> a caller may ask for is always
  returned.
\<close>

section \<open>Strings\<close>

text \<open>C strings are lists of characters without the terminating null. \<^verbatim>\<open>strchr\<close> and \<^verbatim>\<open>strrchr\<close> return the
  rest of the string from the first or last occurrence on.\<close>

definition strchr :: "string \<Rightarrow> char \<Rightarrow> string option" where
  "strchr s c = (case dropWhile (\<lambda>x. x \<noteq> c) s of [] \<Rightarrow> None | t \<Rightarrow> Some t)"

definition strrchr :: "string \<Rightarrow> char \<Rightarrow> string option" where
  "strrchr s c = (if c \<in> set s then Some (c # rev (takeWhile (\<lambda>x. x \<noteq> c) (rev s))) else None)"

text \<open>\<^verbatim>\<open>strcpy_sx\<close>: the return value and the destination.\<close>

definition strcpy_sx :: "nat \<Rightarrow> string \<Rightarrow> int \<times> string" where
  "strcpy_sx destsz src = (let len = length src in if len \<ge> destsz then (1, []) else (0, src))"

definition PATH_MAX_LENGTH :: nat where "PATH_MAX_LENGTH = 4096"
definition LAST_ERROR_MSG_BUFFER_SIZE :: nat where "LAST_ERROR_MSG_BUFFER_SIZE = 511"

text \<open>\<^verbatim>\<open>get_token\<close>: the token and the new value of \<^verbatim>\<open>*str_ptr\<close>.\<close>

definition get_token :: "string \<Rightarrow> char \<Rightarrow> string \<times> string" where
  "get_token str delim =
     (case strchr str delim of
        Some delim_pos \<Rightarrow> (take (length str - length delim_pos) str, tl delim_pos)
      | None \<Rightarrow> (str, []))"

section \<open>State\<close>

datatype qrvmc_loader_error_code =
    QRVMC_LOADER_SUCCESS | QRVMC_LOADER_CANNOT_OPEN | QRVMC_LOADER_SYMBOL_NOT_FOUND
  | QRVMC_LOADER_INVALID_ARGUMENT | QRVMC_LOADER_VM_CREATION_FAILURE
  | QRVMC_LOADER_ABI_VERSION_MISMATCH | QRVMC_LOADER_INVALID_OPTION_NAME
  | QRVMC_LOADER_INVALID_OPTION_VALUE | QRVMC_LOADER_UNSPECIFIED_ERROR

fun loader_error_value :: "qrvmc_loader_error_code \<Rightarrow> int" where
  "loader_error_value QRVMC_LOADER_SUCCESS = 0"
| "loader_error_value QRVMC_LOADER_CANNOT_OPEN = 1"
| "loader_error_value QRVMC_LOADER_SYMBOL_NOT_FOUND = 2"
| "loader_error_value QRVMC_LOADER_INVALID_ARGUMENT = 3"
| "loader_error_value QRVMC_LOADER_VM_CREATION_FAILURE = 4"
| "loader_error_value QRVMC_LOADER_ABI_VERSION_MISMATCH = 5"
| "loader_error_value QRVMC_LOADER_INVALID_OPTION_NAME = 6"
| "loader_error_value QRVMC_LOADER_INVALID_OPTION_VALUE = 7"
| "loader_error_value QRVMC_LOADER_UNSPECIFIED_ERROR = -1"

text \<open>
  The dynamic linker of the system and the modules it finds: what \<^verbatim>\<open>dlopen\<close>, \<^verbatim>\<open>dlsym\<close> and \<^verbatim>\<open>dlerror\<close> answer.
  A create function makes an instance and returns its pointer, or a null pointer.
\<close>

type_synonym ('v, 's) create_fn = "('v, 's) vm_store \<Rightarrow> nat option \<times> ('v, 's) vm_store"

record ('v, 's) linker =
  dll_open :: "string \<Rightarrow> nat option"
  dll_get_error_msg :: "string \<Rightarrow> string option"
  dll_get_create_fn :: "nat \<Rightarrow> string \<Rightarrow> ('v, 's) create_fn option"

text \<open>The pointer \<^verbatim>\<open>last_error_msg\<close> refers to the buffer or to a string of the linker.\<close>

datatype error_msg = In_buffer | Of_linker string

record ('v, 's) loader =
  last_error_msg :: "error_msg option"
  last_error_msg_buffer :: string
  open_handles :: "nat list"
  vm_instances :: "('v, 's) vm_store"

text \<open>\<^verbatim>\<open>vsnprintf\<close> writes at most 510 characters; the pointer is set only if the text fits.\<close>

definition set_error ::
  "qrvmc_loader_error_code \<Rightarrow> string \<Rightarrow> ('v, 's) loader \<Rightarrow> qrvmc_loader_error_code \<times> ('v, 's) loader" where
  "set_error error_code formatted ld =
     (let ld = ld\<lparr>last_error_msg_buffer := take (LAST_ERROR_MSG_BUFFER_SIZE - 1) formatted\<rparr>;
          ld = (if length formatted < LAST_ERROR_MSG_BUFFER_SIZE
                then ld\<lparr>last_error_msg := Some In_buffer\<rparr> else ld)
      in (error_code, ld))"

definition qrvmc_last_error_msg :: "('v, 's) loader \<Rightarrow> string option \<times> ('v, 's) loader" where
  "qrvmc_last_error_msg ld =
     (let m = (case last_error_msg ld of
                 None \<Rightarrow> None
               | Some In_buffer \<Rightarrow> Some (last_error_msg_buffer ld)
               | Some (Of_linker text) \<Rightarrow> Some text)
      in (m, ld\<lparr>last_error_msg := None\<rparr>))"

section \<open>Loading\<close>

text \<open>The loop that replaces dashes, from \<^verbatim>\<open>dash_pos\<close> on.\<close>

lemma dropWhile_Cons_length: "dropWhile P s = c # t \<Longrightarrow> length t < length s"
  by (induction s) (auto split: if_splits)

lemma strchr_length: "strchr s c = Some t \<Longrightarrow> length (tl t) < length s"
  unfolding strchr_def
  by (cases "dropWhile (\<lambda>x. x \<noteq> c) s") (auto dest: dropWhile_Cons_length)

function replace_dashes :: "string \<Rightarrow> string" where
  "replace_dashes s =
     (case strchr s CHR ''-'' of
        None \<Rightarrow> s
      | Some dash_pos \<Rightarrow> take (length s - length dash_pos) s @ CHR ''_'' # replace_dashes (tl dash_pos))"
  by pat_completeness auto
termination
  by (relation "measure length") (use strchr_length in \<open>simp_all del: length_tl\<close>)

declare replace_dashes.simps [simp del]

definition prefixed_name :: "string \<Rightarrow> string" where
  "prefixed_name filename =
     (let prefix = ''qrvmc_create_'';
          sep_pos = strrchr filename CHR ''/'';
          name_pos = (case sep_pos of Some rest \<Rightarrow> tl rest | None \<Rightarrow> filename);
          name_pos = (if take 3 name_pos = ''lib'' then drop 3 name_pos else name_pos);
          base_name = snd (strcpy_sx PATH_MAX_LENGTH name_pos);
          name = prefix @ base_name;
          name = (case strchr name CHR ''.'' of
                    Some ext_pos \<Rightarrow> take (length name - length ext_pos) name
                  | None \<Rightarrow> name)
      in take (length prefix) name @ replace_dashes (drop (length prefix) name))"

definition qrvmc_load ::
  "('v, 's) linker \<Rightarrow> string option \<Rightarrow> ('v, 's) loader \<Rightarrow>
   ('v, 's) create_fn option \<times> qrvmc_loader_error_code \<times> ('v, 's) loader" where
  "qrvmc_load linker filename ld =
     (let ld = ld\<lparr>last_error_msg := None\<rparr> in
      case filename of
        None \<Rightarrow> (None, set_error QRVMC_LOADER_INVALID_ARGUMENT ''invalid argument: file name cannot be null'' ld)
      | Some filename \<Rightarrow>
          let len = length filename in
          if len = 0 then
            (None, set_error QRVMC_LOADER_INVALID_ARGUMENT ''invalid argument: file name cannot be empty'' ld)
          else if len > PATH_MAX_LENGTH then
            (None, set_error QRVMC_LOADER_INVALID_ARGUMENT
               (''invalid argument: file name is too long ('' @ decimal (int len) @
                '', maximum allowed length is '' @ decimal (int PATH_MAX_LENGTH) @ '')'') ld)
          else
            (case dll_open linker filename of
               None \<Rightarrow>
                 (case dll_get_error_msg linker filename of
                    Some text \<Rightarrow> (None, QRVMC_LOADER_CANNOT_OPEN, ld\<lparr>last_error_msg := Some (Of_linker text)\<rparr>)
                  | None \<Rightarrow> (None, set_error QRVMC_LOADER_CANNOT_OPEN (''cannot open '' @ filename)
                              (ld\<lparr>last_error_msg := None\<rparr>)))
             | Some handle \<Rightarrow>
                 let ld = ld\<lparr>open_handles := handle # open_handles ld\<rparr>;
                     create_fn = dll_get_create_fn linker handle (prefixed_name filename);
                     create_fn = (if create_fn = None then dll_get_create_fn linker handle ''qrvmc_create''
                                  else create_fn)
                 in if create_fn = None then
                      (None, set_error QRVMC_LOADER_SYMBOL_NOT_FOUND
                         (''QRVMC create function not found in '' @ filename)
                         (ld\<lparr>open_handles := remove1 handle (open_handles ld)\<rparr>))
                    else (create_fn, QRVMC_LOADER_SUCCESS, ld)))"

text \<open>The value is undefined when a create function returns a pointer to no instance.\<close>

definition qrvmc_load_and_create ::
  "('v, 's) linker \<Rightarrow> string option \<Rightarrow> ('v, 's) loader \<Rightarrow>
   (nat option \<times> qrvmc_loader_error_code \<times> ('v, 's) loader) option" where
  "qrvmc_load_and_create linker filename ld =
     (let (create_fn, ec, ld) = qrvmc_load linker filename ld in
      case create_fn of
        None \<Rightarrow> Some (None, ec, ld)
      | Some create \<Rightarrow>
          let (vm, st) = create (vm_instances ld);
              ld = ld\<lparr>vm_instances := st\<rparr>;
              path = (case filename of None \<Rightarrow> [] | Some path \<Rightarrow> path)
          in (case vm of
                None \<Rightarrow> Some (None, set_error QRVMC_LOADER_VM_CREATION_FAILURE
                          (''creating QRVMC VM of '' @ path @ '' has failed'') ld)
              | Some i \<Rightarrow> do {
                  (vm, v) \<leftarrow> instances (vm_instances ld) i;
                  if \<not> qrvmc_is_abi_compatible vm then do {
                    let (ec, ld) = set_error QRVMC_LOADER_ABI_VERSION_MISMATCH
                      (''QRVMC ABI version '' @ decimal (abi_version vm) @ '' of '' @ path @
                       '' mismatches the expected version '' @ decimal QRVMC_ABI_VERSION) ld;
                    st \<leftarrow> qrvmc_destroy i (vm_instances ld);
                    Some (None, ec, ld\<lparr>vm_instances := st\<rparr>)
                  } else Some (Some i, QRVMC_LOADER_SUCCESS, ld)
                }))"

section \<open>Configuring\<close>

lemma get_token_length: "str \<noteq> [] \<Longrightarrow> length (snd (get_token str delim)) < length str"
  using strchr_length [of str delim] by (cases "strchr str delim") (simp_all add: get_token_def del: length_tl)

text \<open>The loop over the options; the \<^verbatim>\<open>default\<close> case of the \<^verbatim>\<open>switch\<close>, a number that is no
  \<^verbatim>\<open>qrvmc_set_option_result\<close>, does not arise.\<close>

function configure_options ::
  "string \<Rightarrow> nat \<Rightarrow> string \<Rightarrow> ('v, 's) loader \<Rightarrow> (qrvmc_loader_error_code \<times> ('v, 's) loader) option" where
  "configure_options path i options ld =
     (if options = [] then Some (QRVMC_LOADER_SUCCESS, ld)
      else case instances (vm_instances ld) i of
        None \<Rightarrow> None
      | Some (vm, v) \<Rightarrow>
          (case vm_set_option vm of
             None \<Rightarrow> Some (set_error QRVMC_LOADER_INVALID_OPTION_NAME
                       (vm_name vm @ '' ('' @ path @ '') does not support any options'') ld)
           | Some f \<Rightarrow>
               let (option, rest) = get_token options CHR '','';
                   (name, val) = get_token option CHR ''='';
                   (r, v) = f v name (Some val);
                   ld = ld\<lparr>vm_instances := set_data (Some i) v (vm_instances ld)\<rparr>
               in (case r of
                     QRVMC_SET_OPTION_SUCCESS \<Rightarrow> configure_options path i rest ld
                   | QRVMC_SET_OPTION_INVALID_NAME \<Rightarrow>
                       Some (set_error QRVMC_LOADER_INVALID_OPTION_NAME
                         (vm_name vm @ '' ('' @ path @ ''): unknown option '' @ [CHR 0x27] @ name @ [CHR 0x27]) ld)
                   | QRVMC_SET_OPTION_INVALID_VALUE \<Rightarrow>
                       Some (set_error QRVMC_LOADER_INVALID_OPTION_VALUE
                         (vm_name vm @ '' ('' @ path @ ''): unsupported value '' @ [CHR 0x27] @ val @ [CHR 0x27] @
                          '' for option '' @ [CHR 0x27] @ name @ [CHR 0x27]) ld))))"
  by pat_completeness auto
termination
proof (relation "measure (\<lambda>(path, i, options, ld). length options)", goal_cases)
  case (2 path i options ld)
  then show ?case using get_token_length [of options] by (metis in_measure case_prod_conv snd_conv)
qed simp

declare configure_options.simps [simp del]

definition qrvmc_load_and_configure ::
  "('v, 's) linker \<Rightarrow> string \<Rightarrow> ('v, 's) loader \<Rightarrow>
   (nat option \<times> qrvmc_loader_error_code \<times> ('v, 's) loader) option" where
  "qrvmc_load_and_configure linker config ld =
     (let (failed, config_copy_buffer) = strcpy_sx PATH_MAX_LENGTH config in
      if failed \<noteq> 0 then
        Some (None, set_error QRVMC_LOADER_INVALID_ARGUMENT
          (''invalid argument: configuration is too long (maximum allowed length is '' @
           decimal (int PATH_MAX_LENGTH) @ '')'') ld)
      else do {
        let (path, options) = get_token config_copy_buffer CHR '','';
        (vm, ec, ld) \<leftarrow> qrvmc_load_and_create linker (Some path) ld;
        case vm of
          None \<Rightarrow> Some (None, ec, ld)
        | Some i \<Rightarrow> do {
            (ec, ld) \<leftarrow> configure_options path i options ld;
            if ec = QRVMC_LOADER_SUCCESS then Some (Some i, ec, ld)
            else do {
              st \<leftarrow> qrvmc_destroy i (vm_instances ld);
              Some (None, ec, ld\<lparr>vm_instances := st\<rparr>)
            }
          }
      })"

section \<open>Names\<close>

lemma strchr_cases:
  "strchr s c = (if c \<in> set s then Some (dropWhile (\<lambda>x. x \<noteq> c) s) else None)"
proof (cases "dropWhile (\<lambda>x. x \<noteq> c) s")
  case Nil
  then have "c \<notin> set s" by auto
  then show ?thesis by (simp add: strchr_def Nil)
next
  case (Cons d t)
  then have "c \<in> set s" by (metis (full_types) dropWhile_eq_Nil_conv list.distinct(1))
  then show ?thesis by (simp add: strchr_def Cons)
qed

lemma take_before: "take (length s - length (dropWhile P s)) s = takeWhile P s"
proof -
  have "length s = length (takeWhile P s) + length (dropWhile P s)"
    by (metis length_append takeWhile_dropWhile_id)
  then have "length s - length (dropWhile P s) = length (takeWhile P s)" by simp
  then show ?thesis using takeWhile_eq_take [of P s] by metis
qed

lemma get_token_eq: "get_token s c = (takeWhile (\<lambda>x. x \<noteq> c) s, tl (dropWhile (\<lambda>x. x \<noteq> c) s))"
proof (cases "c \<in> set s")
  case False
  then have t: "takeWhile (\<lambda>x. x \<noteq> c) s = s" and d: "dropWhile (\<lambda>x. x \<noteq> c) s = []"
    by (auto simp: takeWhile_eq_all_conv)
  show ?thesis by (simp add: get_token_def strchr_cases False t d)
qed (simp add: get_token_def strchr_cases take_before)

lemma dropWhile_to: "c \<in> set s \<Longrightarrow> \<exists>t. dropWhile (\<lambda>x. x \<noteq> c) s = c # t"
  by (induction s) auto

definition undash :: "char \<Rightarrow> char" where
  "undash c = (if c = CHR ''-'' then CHR ''_'' else c)"

lemma replace_dashes_eq: "replace_dashes s = map undash s"
proof (induction s rule: replace_dashes.induct)
  case (1 s)
  let ?P = "\<lambda>x. x \<noteq> CHR ''-''"
  have keep: "map undash xs = xs" if "CHR ''-'' \<notin> set xs" for xs
    using that by (intro map_idI) (auto simp: undash_def)
  show ?case
  proof (cases "CHR ''-'' \<in> set s")
    case True
    then obtain t where d: "dropWhile ?P s = CHR ''-'' # t"
      using dropWhile_to by metis
    have c: "strchr s CHR ''-'' = Some (dropWhile ?P s)" using True by (simp add: strchr_cases)
    have "map undash s = map undash (takeWhile ?P s @ dropWhile ?P s)" by (simp only: takeWhile_dropWhile_id)
    also have "\<dots> = map undash (takeWhile ?P s) @ CHR ''_'' # map undash t"
      by (simp only: d map_append list.map) (simp add: undash_def)
    also have "map undash (takeWhile ?P s) = takeWhile ?P s"
      by (rule keep) (auto dest: set_takeWhileD)
    also have "takeWhile ?P s @ CHR ''_'' # map undash t = replace_dashes s"
      using 1 [OF c] d take_before [of s ?P] by (simp add: replace_dashes.simps [of s] c)
    finally show ?thesis ..
  qed (simp add: replace_dashes.simps [of s] strchr_cases keep)
qed

text \<open>The part of the file name the symbol is made of.\<close>

definition last_component :: "string \<Rightarrow> string" where
  "last_component filename = rev (takeWhile (\<lambda>c. c \<noteq> CHR ''/'') (rev filename))"

definition name_stem :: "string \<Rightarrow> string" where
  "name_stem filename =
     (if take 3 (last_component filename) = ''lib'' then drop 3 (last_component filename)
      else last_component filename)"

lemma last_component_eq:
  "(case strrchr filename CHR ''/'' of Some rest \<Rightarrow> tl rest | None \<Rightarrow> filename) = last_component filename"
proof (cases "CHR ''/'' \<in> set filename")
  case False
  then have t: "takeWhile (\<lambda>c. c \<noteq> CHR ''/'') (rev filename) = rev filename"
    by (auto simp: takeWhile_eq_all_conv)
  show ?thesis by (simp add: strrchr_def last_component_def False t)
qed (simp add: strrchr_def last_component_def)

lemma trim_extension:
  "(case strchr s c of Some p \<Rightarrow> take (length s - length p) s | None \<Rightarrow> s) = takeWhile (\<lambda>x. x \<noteq> c) s"
proof (cases "c \<in> set s")
  case False
  then have t: "takeWhile (\<lambda>x. x \<noteq> c) s = s" by (auto simp: takeWhile_eq_all_conv)
  show ?thesis by (simp add: strchr_cases False t)
qed (simp add: strchr_cases take_before)

text \<open>C29: the name of the create function. It is \<^verbatim>\<open>qrvmc_create_\<close> and the last component of the path,
  without \<^verbatim>\<open>lib\<close> in front, up to the first dot, with underscores for dashes, as \<^verbatim>\<open>loader.h\<close> describes it
  with its example; except that a component which has 4096 characters or more once \<^verbatim>\<open>lib\<close> is removed leaves the
  bare prefix, since it is dropped when it does not fit in its buffer.\<close>

theorem prefixed_name_spec:
  "prefixed_name filename = ''qrvmc_create_'' @
     (if length (name_stem filename) < 4096
      then map undash (takeWhile (\<lambda>c. c \<noteq> CHR ''.'') (name_stem filename)) else []) \<and>
   prefixed_name ''/qrl/libexample-interpreter.so.1.0'' = ''qrvmc_create_example_interpreter''"
proof -
  have main: "prefixed_name filename = ''qrvmc_create_'' @
     (if length (name_stem filename) < 4096
      then map undash (takeWhile (\<lambda>c. c \<noteq> CHR ''.'') (name_stem filename)) else [])" for filename
    unfolding prefixed_name_def Let_def last_component_eq trim_extension
    by (simp add: replace_dashes_eq name_stem_def strcpy_sx_def PATH_MAX_LENGTH_def Let_def)
  have "name_stem ''/qrl/libexample-interpreter.so.1.0'' = ''example-interpreter.so.1.0''"
    by (simp add: name_stem_def last_component_def)
  then have "prefixed_name ''/qrl/libexample-interpreter.so.1.0'' = ''qrvmc_create_example_interpreter''"
    by (simp add: main undash_def)
  with main show ?thesis by blast
qed

section \<open>Outcomes\<close>

lemma set_error_fields:
  "set_error ec text ld = (ec', ld') \<Longrightarrow>
   ec' = ec \<and> vm_instances ld' = vm_instances ld \<and> open_handles ld' = open_handles ld \<and>
   (length text < 511 \<longrightarrow> fst (qrvmc_last_error_msg ld') = Some text)"
  by (auto simp: set_error_def Let_def LAST_ERROR_MSG_BUFFER_SIZE_def qrvmc_last_error_msg_def split: if_splits)

lemma set_error_simps [simp]:
  "fst (set_error ec text ld) = ec" "vm_instances (snd (set_error ec text ld)) = vm_instances ld"
  "open_handles (snd (set_error ec text ld)) = open_handles ld"
  by (simp_all add: set_error_def Let_def)

lemma load_result:
  assumes "qrvmc_load linker filename ld = (f, ec, ld')"
  shows "(f \<noteq> None \<longleftrightarrow> ec = QRVMC_LOADER_SUCCESS) \<and> vm_instances ld' = vm_instances ld \<and>
    (f \<noteq> None \<longrightarrow> last_error_msg ld' = None \<and>
       (\<exists>path handle. filename = Some path \<and> dll_open linker path = Some handle \<and>
          open_handles ld' = handle # open_handles ld \<and>
          (f = dll_get_create_fn linker handle (prefixed_name path) \<or>
           f = dll_get_create_fn linker handle ''qrvmc_create''))) \<and>
    (f = None \<longrightarrow> open_handles ld' = open_handles ld)"
  using assms
  by (auto simp: qrvmc_load_def Let_def split: option.splits if_splits
      dest!: set_error_fields [OF sym] set_error_fields)

text \<open>C30: what \<^verbatim>\<open>qrvmc_load\<close> reports. The code is success exactly when a create function is returned, and
  then no error message is pending and the module stays open; otherwise the function is null and the
  modules that are open are the ones that were. It creates no instance; and reading the message
  consumes it.\<close>

theorem qrvmc_load_outcome:
  assumes "qrvmc_load linker filename ld = (f, ec, ld')"
  shows "(f \<noteq> None \<longleftrightarrow> ec = QRVMC_LOADER_SUCCESS) \<and> vm_instances ld' = vm_instances ld \<and>
    (f \<noteq> None \<longrightarrow> fst (qrvmc_last_error_msg ld') = None \<and>
       (\<exists>path handle. filename = Some path \<and> dll_open linker path = Some handle \<and>
          open_handles ld' = handle # open_handles ld \<and>
          (f = dll_get_create_fn linker handle (prefixed_name path) \<or>
           f = dll_get_create_fn linker handle ''qrvmc_create''))) \<and>
    (f = None \<longrightarrow> open_handles ld' = open_handles ld) \<and>
    fst (qrvmc_last_error_msg (snd (qrvmc_last_error_msg ld'))) = None"
  using load_result [OF assms] by (auto simp: qrvmc_last_error_msg_def Let_def)

text \<open>What a create function may do: make a new instance, hand out a static one, or fail.\<close>

definition lawful_create :: "('v, 's) create_fn \<Rightarrow> bool" where
  "lawful_create create \<longleftrightarrow>
     (\<forall>st. store_sane st \<longrightarrow>
        (case create st of
           (None, st') \<Rightarrow> st' = st
         | (Some i, st') \<Rightarrow>
             (\<exists>iv. new_instance iv st = (i, st')) \<or> st' = st \<and> instances st i \<noteq> None \<and> \<not> deletable st i))"

definition lawful_linker :: "('v, 's) linker \<Rightarrow> bool" where
  "lawful_linker linker \<longleftrightarrow>
     (\<forall>handle name create. dll_get_create_fn linker handle name = Some create \<longrightarrow> lawful_create create)"

text \<open>A pointer with what it owns, in a store that grew by it; \<open>lawful_vm\<close> is what \<^verbatim>\<open>VM(qrvmc_vm*)\<close> expects.\<close>

abbreviation lawful_vm :: "('v, 's) vm_store \<Rightarrow> nat option \<Rightarrow> ('v, 's) vm_store \<Rightarrow> bool" where
  "lawful_vm st vm st' \<equiv> lawful_at vm_owned vm_usable vm_held store_sane st (Some (vm, st'))"

lemma lawful_vm_none: "store_sane st \<Longrightarrow> lawful_vm st None st"
  by (simp add: lawful_at_def vm_usable_def vm_owned_def)

lemma lawful_vm_create:
  assumes "lawful_create create" and "store_sane st" and "create st = (vm, st')"
  shows "lawful_vm st vm st'"
proof (cases vm)
  case None
  then have "st' = st" using assms(1) [unfolded lawful_create_def, rule_format, OF assms(2)] assms(3) by simp
  then show ?thesis using None lawful_vm_none [OF assms(2)] by simp
next
  case (Some i)
  then consider iv where "new_instance iv st = (i, st')" | "st' = st" "instances st i \<noteq> None" "\<not> deletable st i"
    using assms by (fastforce simp: lawful_create_def)
  then show ?thesis
  proof cases
    case 1
    then show ?thesis using new_instance_lawful [OF assms(2) 1] Some by simp
  next
    case 2
    then show ?thesis using assms(2) Some
      by (simp add: lawful_at_def vm_usable_def vm_at_def vm_owned_def)
  qed
qed

text \<open>Setting the data of an instance keeps this, and destroying the instance takes it back.\<close>

lemma lawful_vm_cong:
  assumes "lawful_vm st vm st1" and "deletable st2 = deletable st1"
    and "\<And>j. instances st2 j = None \<longleftrightarrow> instances st1 j = None" and "next_instance st2 = next_instance st1"
  shows "lawful_vm st vm st2"
proof -
  have "vm_usable st2 = vm_usable st1"
    by (rule ext, rename_tac p, case_tac p) (simp_all add: vm_usable_def vm_at_def assms(3))
  moreover have "vm_owned st2 = vm_owned st1" unfolding vm_owned_def assms(2) ..
  moreover have "store_sane st2 = store_sane st1" by (simp add: store_sane_def assms(3,4))
  ultimately show ?thesis using assms(1,2) by (simp add: lawful_at_def vm_held_def)
qed

lemma lawful_vm_destroy:
  assumes "lawful_vm st (Some i) st1"
  obtains st2 where "qrvmc_destroy i st1 = Some st2" and "lawful_vm st None st2"
proof -
  have s: "store_sane st1" and u: "vm_usable st1 (Some i)" and h: "vm_held st1 = vm_held st \<union> set_option (vm_owned st1 (Some i))"
    and d: "set_option (vm_owned st1 (Some i)) \<inter> vm_held st = {}"
    and fr: "\<And>p. vm_usable st p \<Longrightarrow> vm_usable st1 p \<and> vm_owned st1 p = vm_owned st p"
    using assms by (auto simp: lawful_at_def)
  have dtor: "dtor VM_class (Some i) st1 = qrvmc_destroy i st1" by (simp add: VM_class_def vm_dtor_def)
  obtain st2 where st2: "qrvmc_destroy i st1 = Some st2" "store_sane st2"
    "vm_held st2 = vm_held st1 - set_option (vm_owned st1 (Some i))"
    using vm_raii.dtor_defined [OF s u] dtor by auto
  have "vm_usable st2 p \<and> vm_owned st2 p = vm_owned st p" if p: "vm_usable st p" for p
  proof -
    have "vm_owned st1 p = None \<or> vm_owned st1 p \<noteq> vm_owned st1 (Some i)"
    proof (cases "vm_owned st p")
      case (Some a)
      then have "a \<in> vm_held st" using vm_raii.owned_held [OF p] by simp
      then have "vm_owned st1 (Some i) \<noteq> Some a" using d by auto
      then show ?thesis using fr [OF p] Some by simp
    qed (use fr [OF p] in simp)
    then show ?thesis using vm_raii.dtor_frame [of "Some i" st1 st2 p] st2(1) fr [OF p] dtor by auto
  qed
  moreover have "vm_held st2 = vm_held st" using st2(3) h d by auto
  ultimately show thesis
    using that st2 by (simp add: lawful_at_def vm_usable_def [of _ None] vm_owned_def [of _ None])
qed

lemma load_and_create_outcome:
  assumes l: "lawful_linker linker" and s: "store_sane (vm_instances ld)"
  shows "\<exists>vm ec ld'. qrvmc_load_and_create linker filename ld = Some (vm, ec, ld') \<and>
    (vm \<noteq> None \<longleftrightarrow> ec = QRVMC_LOADER_SUCCESS) \<and> lawful_vm (vm_instances ld) vm (vm_instances ld') \<and>
    (vm \<noteq> None \<longrightarrow> last_error_msg ld' = None \<and> vm_is_abi_compatible vm (vm_instances ld') = Some True)"
proof -
  obtain f ec ld1 where f: "qrvmc_load linker filename ld = (f, ec, ld1)" by (cases "qrvmc_load linker filename ld")
  note o = load_result [OF f]
  show ?thesis
  proof (cases f)
    case None
    then show ?thesis using f o lawful_vm_none [OF s] by (simp add: qrvmc_load_and_create_def)
  next
    case (Some create)
    obtain handle name where "dll_get_create_fn linker handle name = Some create"
      using o Some by (metis option.distinct(1))
    then have c: "lawful_create create" using l by (auto simp: lawful_linker_def)
    have ld1: "vm_instances ld1 = vm_instances ld" "last_error_msg ld1 = None" "ec = QRVMC_LOADER_SUCCESS" using o Some by auto
    obtain vm st where cr: "create (vm_instances ld) = (vm, st)" by (cases "create (vm_instances ld)")
    have law: "lawful_vm (vm_instances ld) vm st" using lawful_vm_create [OF c s cr] .
    show ?thesis
    proof (cases vm)
      case None
      then show ?thesis using f Some cr law ld1
        by (auto simp: qrvmc_load_and_create_def Let_def split_beta prod_eq_iff set_error_simps)
    next
      case (Some i)
      then have "vm_usable st (Some i)" using law by (simp add: lawful_at_def)
      then obtain vmi v where i: "instances st i = Some (vmi, v)" by (auto simp: vm_usable_def vm_at_def)
      show ?thesis
      proof (cases "qrvmc_is_abi_compatible vmi")
        case True
        then show ?thesis using f \<open>f = Some create\<close> cr Some i law ld1
          by (simp add: qrvmc_load_and_create_def Let_def vm_is_abi_compatible_def vm_at_def qrvmc_is_abi_compatible_def)
      next
        case False
        obtain st2 where "qrvmc_destroy i st = Some st2" "lawful_vm (vm_instances ld) None st2"
          using lawful_vm_destroy [OF law [unfolded Some]] .
        with False f \<open>f = Some create\<close> cr Some i ld1 show ?thesis
          by (simp add: qrvmc_load_and_create_def Let_def split_beta set_error_simps)
      qed
    qed
  qed
qed

lemma set_error_keeps:
  assumes "x = Some (set_error ec message ld)" and "ec \<noteq> QRVMC_LOADER_SUCCESS"
  shows "\<exists>ld'. x = Some (ec, ld') \<and> vm_instances ld' = vm_instances ld"
  using assms by (cases "set_error ec message ld") (auto dest!: set_error_fields)

lemma configure_outcome:
  "instances (vm_instances ld) i \<noteq> None \<Longrightarrow>
   \<exists>ec ld'. configure_options path i options ld = Some (ec, ld') \<and>
     deletable (vm_instances ld') = deletable (vm_instances ld) \<and>
     (\<forall>j. map_option fst (instances (vm_instances ld') j) = map_option fst (instances (vm_instances ld) j)) \<and>
     next_instance (vm_instances ld') = next_instance (vm_instances ld) \<and>
     (ec = QRVMC_LOADER_SUCCESS \<longrightarrow> last_error_msg ld' = last_error_msg ld) \<and>
     ec \<in> {QRVMC_LOADER_SUCCESS, QRVMC_LOADER_INVALID_OPTION_NAME, QRVMC_LOADER_INVALID_OPTION_VALUE}"
proof (induction path i options ld rule: configure_options.induct)
  case (1 path i options ld)
  obtain vm v where iv: "instances (vm_instances ld) i = Some (vm, v)" using 1(2) by auto
  show ?case
  proof (cases "options = []")
    case True
    then show ?thesis by (simp add: configure_options.simps [of _ _ "[]"])
  next
    case False
    show ?thesis
    proof (cases "vm_set_option vm")
      case None
      then show ?thesis using iv False
        by (simp add: configure_options.simps [of _ _ options] prod_eq_iff)
    next
      case (Some f)
      obtain option rest where t: "get_token options CHR '','' = (option, rest)" by (cases "get_token options CHR '',''")
      obtain name val where n: "get_token option CHR ''='' = (name, val)" by (cases "get_token option CHR ''=''")
      obtain r v' where r: "f v name (Some val) = (r, v')" by (cases "f v name (Some val)")
      let ?ld = "ld\<lparr>vm_instances := set_data (Some i) v' (vm_instances ld)\<rparr>"
      have keep: "map_option fst (instances (vm_instances ?ld) j) = map_option fst (instances (vm_instances ld) j)" for j
        using iv by (simp add: set_data_instances)
      have some: "instances (vm_instances ?ld) i \<noteq> None" using 1(2) by (simp add: set_data_keeps)
      have del: "deletable (vm_instances ?ld) = deletable (vm_instances ld)" by (simp add: fun_eq_iff set_data_keeps)
      note eq = configure_options.simps [of path i options ld] 
      show ?thesis
      proof (cases r)
        case QRVMC_SET_OPTION_SUCCESS
        then have "configure_options path i options ld = configure_options path i rest ?ld"
          using iv False Some t n r by (simp add: eq)
        moreover note IH = 1(1) [OF False iv refl Some t [symmetric] refl n [symmetric] refl r [symmetric] refl refl
            QRVMC_SET_OPTION_SUCCESS some]
        ultimately show ?thesis using keep del by (simp add: set_data_keeps)
      next
        case QRVMC_SET_OPTION_INVALID_NAME
        then obtain message where "configure_options path i options ld = Some (set_error QRVMC_LOADER_INVALID_OPTION_NAME message ?ld)"
          using iv False Some t n r by (simp add: eq)
        from set_error_keeps [OF this] show ?thesis using keep del by (auto simp: set_data_keeps)
      next
        case QRVMC_SET_OPTION_INVALID_VALUE
        then obtain message where "configure_options path i options ld = Some (set_error QRVMC_LOADER_INVALID_OPTION_VALUE message ?ld)"
          using iv False Some t n r by (simp add: eq)
        from set_error_keeps [OF this] show ?thesis using keep del by (auto simp: set_data_keeps)
      qed
    qed
  qed
qed

lemma configured_outcome:
  assumes "lawful_vm st0 (Some i) (vm_instances ld1)" and "vm_is_abi_compatible (Some i) (vm_instances ld1) = Some True"
  obtains ec ld2 where "configure_options path i options ld1 = Some (ec, ld2)"
    and "ec = QRVMC_LOADER_SUCCESS \<longrightarrow> last_error_msg ld2 = last_error_msg ld1"
    and "lawful_vm st0 (Some i) (vm_instances ld2)" and "vm_is_abi_compatible (Some i) (vm_instances ld2) = Some True"
proof -
  have "vm_usable (vm_instances ld1) (Some i)" using assms(1) by (simp add: lawful_at_def)
  then have "instances (vm_instances ld1) i \<noteq> None" by (simp add: vm_usable_def vm_at_def)
  from configure_outcome [OF this, of path options] obtain ec ld2 where
    k: "configure_options path i options ld1 = Some (ec, ld2)"
    "deletable (vm_instances ld2) = deletable (vm_instances ld1)"
    "\<And>j. map_option fst (instances (vm_instances ld2) j) = map_option fst (instances (vm_instances ld1) j)"
    "next_instance (vm_instances ld2) = next_instance (vm_instances ld1)"
    "ec = QRVMC_LOADER_SUCCESS \<longrightarrow> last_error_msg ld2 = last_error_msg ld1" by auto
  have same: "instances (vm_instances ld2) j = None \<longleftrightarrow> instances (vm_instances ld1) j = None" for j
    using k(3) [of j] by (cases "instances (vm_instances ld1) j"; cases "instances (vm_instances ld2) j") auto
  have "vm_is_abi_compatible (Some i) (vm_instances ld2) = Some True"
    using assms(2) k(3) [of i]
    by (cases "instances (vm_instances ld1) i"; cases "instances (vm_instances ld2) i")
      (auto simp: vm_is_abi_compatible_def vm_at_def)
  with that k(1,5) lawful_vm_cong [OF assms(1) k(2) same k(4)] show thesis by blast
qed

lemma load_and_configure_outcome:
  assumes l: "lawful_linker linker" and s: "store_sane (vm_instances ld)"
  shows "\<exists>vm ec ld'. qrvmc_load_and_configure linker config ld = Some (vm, ec, ld') \<and>
    (vm \<noteq> None \<longleftrightarrow> ec = QRVMC_LOADER_SUCCESS) \<and> lawful_vm (vm_instances ld) vm (vm_instances ld') \<and>
    (if vm = None then vm_held (vm_instances ld') = vm_held (vm_instances ld)
     else vm_is_abi_compatible vm (vm_instances ld') = Some True \<and> fst (qrvmc_last_error_msg ld') = None)"
proof -
  have none: "vm_held st' = vm_held st" if "lawful_vm st None st'" for st st' :: "('a, 'b) vm_store"
    using that by (simp add: lawful_at_def vm_owned_def)
  show ?thesis
  proof (cases "fst (strcpy_sx PATH_MAX_LENGTH config) = 0")
    case False
    then show ?thesis using lawful_vm_none [OF s]
      by (simp add: qrvmc_load_and_configure_def split_beta prod_eq_iff)
  next
    case True
    obtain c where c: "strcpy_sx PATH_MAX_LENGTH config = (0, c)" using True by (cases "strcpy_sx PATH_MAX_LENGTH config") auto
    obtain path options where t: "get_token c CHR '','' = (path, options)" by (cases "get_token c CHR '',''")
    obtain vm ec ld1 where v: "qrvmc_load_and_create linker (Some path) ld = Some (vm, ec, ld1)"
      "vm \<noteq> None \<longleftrightarrow> ec = QRVMC_LOADER_SUCCESS" "lawful_vm (vm_instances ld) vm (vm_instances ld1)"
      "vm \<noteq> None \<longrightarrow> last_error_msg ld1 = None \<and> vm_is_abi_compatible vm (vm_instances ld1) = Some True"
      using load_and_create_outcome [OF l s] by metis
    show ?thesis
    proof (cases vm)
      case None
      then show ?thesis using c t v none [of "vm_instances ld" "vm_instances ld1"]
        by (simp add: qrvmc_load_and_configure_def)
    next
      case (Some i)
      obtain ec' ld2 where k: "configure_options path i options ld1 = Some (ec', ld2)"
        "ec' = QRVMC_LOADER_SUCCESS \<longrightarrow> last_error_msg ld2 = last_error_msg ld1"
        and law: "lawful_vm (vm_instances ld) (Some i) (vm_instances ld2)"
        and abi: "vm_is_abi_compatible (Some i) (vm_instances ld2) = Some True"
        using configured_outcome [of "vm_instances ld" i ld1 path options] v(3,4) Some by auto
      show ?thesis
      proof (cases "ec' = QRVMC_LOADER_SUCCESS")
        case True
        then show ?thesis using c t v(1,4) Some k law abi
          by (simp add: qrvmc_load_and_configure_def qrvmc_last_error_msg_def)
      next
        case False
        obtain st where "qrvmc_destroy i (vm_instances ld2) = Some st" "lawful_vm (vm_instances ld) None st"
          using lawful_vm_destroy [OF law] .
        then show ?thesis using c t v(1) Some k(1) False none [of "vm_instances ld" st]
          by (simp add: qrvmc_load_and_configure_def)
      qed
    qed
  qed
qed

text \<open>C26: \<^verbatim>\<open>qrvmc_load_and_configure\<close> acts atomically. With modules whose create functions behave, it is
  defined for every configuration, and returns an instance exactly when the code is success; that
  instance is ABI compatible, can be given to the \<^verbatim>\<open>VM\<close> constructor, and no error message is pending.
  With any other code the pointer is null and the instances that somebody has to destroy are the ones
  there were: an instance that was made and could not be configured has been destroyed.\<close>

theorem load_and_configure_atomic:
  assumes l: "lawful_linker linker" and s: "store_sane (vm_instances ld)"
  shows "\<exists>vm ec ld'. qrvmc_load_and_configure linker config ld = Some (vm, ec, ld') \<and>
    (vm \<noteq> None \<longleftrightarrow> ec = QRVMC_LOADER_SUCCESS) \<and> lawful_vm (vm_instances ld) vm (vm_instances ld') \<and>
    (if vm = None then vm_held (vm_instances ld') = vm_held (vm_instances ld)
     else vm_is_abi_compatible vm (vm_instances ld') = Some True \<and> fst (qrvmc_last_error_msg ld') = None)"
  by (rule load_and_configure_outcome [OF assms])

section \<open>Configuration strings\<close>

text \<open>The text of a list of options, and whether an instance accepts them, one after the other.\<close>

fun config_text :: "(string \<times> string) list \<Rightarrow> string" where
  "config_text [] = []"
| "config_text ((name, val) # opts) = CHR '','' # name @ CHR ''='' # val @ config_text opts"

definition plain_option :: "string \<times> string \<Rightarrow> bool" where
  "plain_option nv \<longleftrightarrow> CHR '','' \<notin> set (fst nv) \<and> CHR ''='' \<notin> set (fst nv) \<and> CHR '','' \<notin> set (snd nv)"

fun options_accepted :: "nat \<Rightarrow> (string \<times> string) list \<Rightarrow> ('v, 's) vm_store \<Rightarrow> bool" where
  "options_accepted i [] st \<longleftrightarrow> True"
| "options_accepted i ((name, val) # opts) st \<longleftrightarrow>
     (case vm_object_set_option (Some i) name (Some val) st of
        None \<Rightarrow> False
      | Some (r, st') \<Rightarrow> r = QRVMC_SET_OPTION_SUCCESS \<and> options_accepted i opts st')"

lemma takeWhile_until: "c \<notin> set xs \<Longrightarrow> takeWhile (\<lambda>x. x \<noteq> c) (xs @ c # ys) = xs"
  by (induction xs) auto

lemma dropWhile_until: "c \<notin> set xs \<Longrightarrow> dropWhile (\<lambda>x. x \<noteq> c) (xs @ c # ys) = c # ys"
  by (induction xs) auto

lemma get_token_until: "c \<notin> set xs \<Longrightarrow> get_token (xs @ c # ys) c = (xs, ys)"
  by (simp add: get_token_eq takeWhile_until dropWhile_until del: takeWhile_append dropWhile_append)

lemma get_token_last: "c \<notin> set xs \<Longrightarrow> get_token xs c = (xs, [])"
  by (simp add: get_token_def strchr_cases)

lemma get_option:
  assumes "plain_option (name, val)"
  shows "get_token (name @ CHR ''='' # val @ config_text opts) CHR '','' = (name @ CHR ''='' # val, tl (config_text opts))"
proof (cases opts)
  case Nil
  then show ?thesis using assms get_token_last [of "CHR '',''" "name @ CHR ''='' # val"] by (simp add: plain_option_def)
next
  case (Cons nv opts')
  then obtain rest where "config_text opts = CHR '','' # rest" by (cases nv) simp
  then show ?thesis using assms get_token_until [of "CHR '',''" "name @ CHR ''='' # val" rest] by (simp add: plain_option_def)
qed

lemma option_rejected:
  assumes iv: "instances (vm_instances ld) i = Some (vm, v)" and ne: "options \<noteq> []"
    and t: "get_token options CHR '','' = (option, rest)" and n: "get_token option CHR ''='' = (name, val)"
    and rej: "\<And>f. vm_set_option vm = Some f \<Longrightarrow> fst (f v name (Some val)) \<noteq> QRVMC_SET_OPTION_SUCCESS"
  shows "\<exists>ec ld'. configure_options path i options ld = Some (ec, ld') \<and> ec \<noteq> QRVMC_LOADER_SUCCESS"
proof -
  have *: "\<exists>ec ld'. Some (set_error e message l) = Some (ec, ld') \<and> ec \<noteq> QRVMC_LOADER_SUCCESS"
    if "e \<noteq> QRVMC_LOADER_SUCCESS" for e message and l :: "('a, 'b) loader"
    using that by (simp add: prod_eq_iff)
  show ?thesis
  proof (cases "vm_set_option vm")
    case None
    then show ?thesis using iv ne * by (simp add: configure_options.simps [of _ _ options])
  next
    case (Some f)
    obtain r v' where "f v name (Some val) = (r, v')" by (cases "f v name (Some val)")
    with rej [OF Some] iv ne t n Some * show ?thesis
      by (cases r) (simp_all add: configure_options.simps [of _ _ options])
  qed
qed

lemma configure_config_text:
  "list_all plain_option opts \<Longrightarrow> instances (vm_instances ld) i \<noteq> None \<Longrightarrow>
   if options_accepted i opts (vm_instances ld)
   then \<exists>st. set_options (Some i) (map (\<lambda>(n, v). (n, Some v)) opts) (vm_instances ld) = Some st \<and>
          configure_options path i (tl (config_text opts)) ld = Some (QRVMC_LOADER_SUCCESS, ld\<lparr>vm_instances := st\<rparr>)
   else \<exists>ec ld'. configure_options path i (tl (config_text opts)) ld = Some (ec, ld') \<and> ec \<noteq> QRVMC_LOADER_SUCCESS"
proof (induction opts arbitrary: ld)
  case Nil
  then show ?case by (simp add: configure_options.simps [of _ _ "[]"])
next
  case (Cons nv opts)
  obtain name val where nv: "nv = (name, val)" by (cases nv)
  have plain: "plain_option (name, val)" and all: "list_all plain_option opts" using Cons.prems nv by auto
  obtain vm v where iv: "instances (vm_instances ld) i = Some (vm, v)" using Cons.prems by auto
  let ?o = "name @ CHR ''='' # val @ config_text opts"
  have t: "get_token ?o CHR '','' = (name @ CHR ''='' # val, tl (config_text opts))" using get_option [OF plain] .
  have n: "get_token (name @ CHR ''='' # val) CHR ''='' = (name, val)"
    using plain by (intro get_token_until) (simp add: plain_option_def)
  have ctext: "tl (config_text (nv # opts)) = ?o" by (simp add: nv)
  show ?case
  proof (cases "\<exists>f v'. vm_set_option vm = Some f \<and> f v name (Some val) = (QRVMC_SET_OPTION_SUCCESS, v')")
    case True
    then obtain f v' where f: "vm_set_option vm = Some f" "f v name (Some val) = (QRVMC_SET_OPTION_SUCCESS, v')" by blast
    let ?st = "set_data (Some i) v' (vm_instances ld)"
    have set: "vm_object_set_option (Some i) name (Some val) (vm_instances ld) = Some (QRVMC_SET_OPTION_SUCCESS, ?st)"
      using iv f by (simp add: vm_object_set_option_def vm_at_def qrvmc_set_option_def)
    have "configure_options path i ?o ld = configure_options path i (tl (config_text opts)) (ld\<lparr>vm_instances := ?st\<rparr>)"
      using iv f t n by (simp add: configure_options.simps [of _ _ ?o])
    then show ?thesis
      using Cons.IH [OF all, of "ld\<lparr>vm_instances := ?st\<rparr>"] iv set
      unfolding ctext by (simp add: nv set_data_keeps split: if_splits)
  next
    case False
    have rej: "fst (f v name (Some val)) \<noteq> QRVMC_SET_OPTION_SUCCESS" if "vm_set_option vm = Some f" for f
      using that False by (metis prod.collapse)
    have "\<not> options_accepted i (nv # opts) (vm_instances ld)"
      using iv rej by (auto simp: nv vm_object_set_option_def vm_at_def qrvmc_set_option_def
          split: option.splits prod.splits)
    moreover have "\<exists>ec ld'. configure_options path i ?o ld = Some (ec, ld') \<and> ec \<noteq> QRVMC_LOADER_SUCCESS"
      by (rule option_rejected [OF iv _ t n]) (simp_all add: rej)
    ultimately show ?thesis unfolding ctext by simp
  qed
qed

text \<open>C27: the configuration string is a text for a list of options. Printed as \<^verbatim>\<open>path,name=value,...\<close>, in fewer
  than 4096 characters and with names and values free of the separators, it has the instance get
  exactly these options in this order: when it accepts all of them the result is the instance the
  \<^verbatim>\<open>VM\<close> constructor with this list of options leaves, and otherwise there is no instance and an error.\<close>

theorem config_string_options:
  assumes "CHR '','' \<notin> set path" and "list_all plain_option opts" and "length (path @ config_text opts) < 4096"
    and "qrvmc_load_and_create linker (Some path) ld = Some (Some i, QRVMC_LOADER_SUCCESS, ld1)"
    and "instances (vm_instances ld1) i \<noteq> None"
  shows "if options_accepted i opts (vm_instances ld1)
    then \<exists>st. VM_with_options i (map (\<lambda>(n, v). (n, Some v)) opts) (vm_instances ld1) = Some (Some i, st) \<and>
      qrvmc_load_and_configure linker (path @ config_text opts) ld =
        Some (Some i, QRVMC_LOADER_SUCCESS, ld1\<lparr>vm_instances := st\<rparr>)
    else \<forall>r. qrvmc_load_and_configure linker (path @ config_text opts) ld = Some r \<longrightarrow>
      fst r = None \<and> fst (snd r) \<noteq> QRVMC_LOADER_SUCCESS"
proof -
  have "get_token (path @ config_text opts) CHR '','' = (path, tl (config_text opts))"
  proof (cases opts)
    case Nil
    then show ?thesis using get_token_last [OF assms(1)] by simp
  next
    case (Cons nv opts')
    then obtain rest where "config_text opts = CHR '','' # rest" by (cases nv) simp
    then show ?thesis using get_token_until [OF assms(1), of rest] by simp
  qed
  moreover have "strcpy_sx PATH_MAX_LENGTH (path @ config_text opts) = (0, path @ config_text opts)"
    using assms(3) by (simp add: strcpy_sx_def PATH_MAX_LENGTH_def)
  ultimately show ?thesis
    using configure_config_text [OF assms(2,5), of path] assms(4)
    by (auto simp: qrvmc_load_and_configure_def VM_with_options_def VM_of_def bind_eq_Some_conv split: if_splits)
qed

section \<open>A module\<close>

text \<open>A system whose only module is \<^verbatim>\<open>libvm.so\<close> with the example VM in it.\<close>

definition qrvmc_create_example_vm :: "string \<Rightarrow> (example_vm, 's) create_fn" where
  "qrvmc_create_example_vm project_version st =
     (let (i, st) = new_instance (ExampleVM_init project_version) st in (Some i, st))"

lemma create_example_lawful: "lawful_create (qrvmc_create_example_vm version)"
  unfolding lawful_create_def
proof (intro allI impI)
  fix st :: "(example_vm, 's) vm_store"
  obtain i st' where n: "new_instance (ExampleVM_init version) st = (i, st')"
    by (cases "new_instance (ExampleVM_init version) st")
  then have "qrvmc_create_example_vm version st = (Some i, st')" by (simp add: qrvmc_create_example_vm_def)
  with n show "case qrvmc_create_example_vm version st of (None, st') \<Rightarrow> st' = st
      | (Some i, st') \<Rightarrow> (\<exists>iv. new_instance iv st = (i, st')) \<or>
          st' = st \<and> instances st i \<noteq> None \<and> \<not> deletable st i"
    by (simp only: prod.case option.case) blast
qed

text \<open>Loading a module with the example VM in it, without options.\<close>

lemma load_example_vm:
  assumes "path \<noteq> []" and "length path < 4096" and "CHR '','' \<notin> set path"
    and "dll_open linker path = Some handle"
    and "dll_get_create_fn linker handle (prefixed_name path) = Some (qrvmc_create_example_vm version)"
    and "new_instance (ExampleVM_init version) (vm_instances ld) = (i, st)"
  shows "\<exists>ld'. qrvmc_load_and_configure linker path ld = Some (Some i, QRVMC_LOADER_SUCCESS, ld') \<and> vm_instances ld' = st"
proof -
  let ?ld = "ld\<lparr>last_error_msg := None, open_handles := handle # open_handles ld\<rparr>"
  have l: "qrvmc_load linker (Some path) ld = (Some (qrvmc_create_example_vm version), QRVMC_LOADER_SUCCESS, ?ld)"
    using assms(1,2,4,5) by (simp add: qrvmc_load_def PATH_MAX_LENGTH_def Let_def)
  have "instances st i = Some (ExampleVM_init version)" using assms(6) by (auto simp: new_instance_def)
  then have c: "qrvmc_load_and_create linker (Some path) ld = Some (Some i, QRVMC_LOADER_SUCCESS, ?ld\<lparr>vm_instances := st\<rparr>)"
    using l assms(6)
    by (simp add: qrvmc_load_and_create_def qrvmc_create_example_vm_def ExampleVM_init_def qrvmc_is_abi_compatible_def)
  have "get_token path CHR '','' = (path, [])" using get_token_last [OF assms(3)] .
  then show ?thesis using c assms(2)
    by (simp add: qrvmc_load_and_configure_def strcpy_sx_def PATH_MAX_LENGTH_def configure_options.simps [of _ _ "[]"])
qed

definition sample_linker :: "(example_vm, 's) linker" where
  "sample_linker =
     \<lparr>dll_open = (\<lambda>path. if path = ''libvm.so'' then Some 1 else None), dll_get_error_msg = (\<lambda>path. None),
      dll_get_create_fn = (\<lambda>handle name. if name = ''qrvmc_create_vm'' then Some (qrvmc_create_example_vm ''0.0.0'') else None)\<rparr>"

definition fresh_loader :: "('v, 's) loader" where
  "fresh_loader = \<lparr>last_error_msg = None, last_error_msg_buffer = [], open_handles = [],
     vm_instances = \<lparr>instances = Map.empty, next_instance = 0\<rparr>\<rparr>"

lemma sample_linker_lawful: "lawful_linker sample_linker"
  using create_example_lawful by (simp add: lawful_linker_def sample_linker_def)

lemma sample_name: "prefixed_name ''libvm.so'' = ''qrvmc_create_vm''"
proof -
  have "strrchr ''libvm.so'' CHR ''/'' = None" "strchr ''qrvmc_create_vm.so'' CHR ''.'' = Some ''.so''"
    by (simp_all add: strrchr_def strchr_cases)
  then show ?thesis
    by (simp add: prefixed_name_def strcpy_sx_def PATH_MAX_LENGTH_def replace_dashes_eq undash_def Let_def)
qed

lemma sample_load:
  "qrvmc_load sample_linker (Some ''libvm.so'') (fresh_loader :: (example_vm, 's) loader) =
     (Some (qrvmc_create_example_vm ''0.0.0''), QRVMC_LOADER_SUCCESS, fresh_loader\<lparr>open_handles := [1]\<rparr>)"
  by (simp add: qrvmc_load_def sample_linker_def sample_name PATH_MAX_LENGTH_def fresh_loader_def Let_def)

lemma sample_load_and_create:
  "qrvmc_load_and_create sample_linker (Some ''libvm.so'') (fresh_loader :: (example_vm, 's) loader) =
     Some (Some 0, QRVMC_LOADER_SUCCESS, fresh_loader\<lparr>open_handles := [1],
       vm_instances := \<lparr>instances = [0 \<mapsto> ExampleVM_init ''0.0.0''], next_instance = 1\<rparr>\<rparr>)"
  unfolding qrvmc_load_and_create_def sample_load
  by (simp add: qrvmc_create_example_vm_def new_instance_def fresh_loader_def ExampleVM_init_def
      qrvmc_is_abi_compatible_def Let_def)

lemma sample_configure:
  "qrvmc_load_and_configure sample_linker ''libvm.so'' (fresh_loader :: (example_vm, 's) loader) =
     Some (Some 0, QRVMC_LOADER_SUCCESS, fresh_loader\<lparr>open_handles := [1],
       vm_instances := \<lparr>instances = [0 \<mapsto> ExampleVM_init ''0.0.0''], next_instance = 1\<rparr>\<rparr>)"
  by (simp add: qrvmc_load_and_configure_def strcpy_sx_def PATH_MAX_LENGTH_def get_token_def strchr_def
      sample_load_and_create configure_options.simps [of _ _ "[]"])

theorem qrvmc_load_outcome_witness:
  "\<exists>f ec ld. qrvmc_load sample_linker (Some ''libvm.so'') (fresh_loader :: (example_vm, unit) loader) = (f, ec, ld) \<and>
     fst (qrvmc_last_error_msg ld) = None \<and> f = dll_get_create_fn sample_linker 1 ''qrvmc_create_vm''"
  using qrvmc_load_outcome [OF sample_load [where 's = unit]] sample_load [where 's = unit]
  by (simp add: sample_linker_def)

theorem load_and_configure_atomic_witness:
  "\<exists>vm ec ld. qrvmc_load_and_configure sample_linker ''libvm.so,trace=on'' (fresh_loader :: (example_vm, unit) loader) = Some (vm, ec, ld) \<and>
     (vm \<noteq> None \<longleftrightarrow> ec = QRVMC_LOADER_SUCCESS)"
proof -
  have "store_sane (vm_instances (fresh_loader :: (example_vm, unit) loader))"
    by (simp add: store_sane_def fresh_loader_def)
  from load_and_configure_atomic [OF sample_linker_lawful this, of "''libvm.so,trace=on''"] show ?thesis
    by auto
qed

text \<open>The store after the first create, and the option text \<^verbatim>\<open>7\<close>.\<close>

theorem config_string_options_witness:
  "\<exists>st. qrvmc_load_and_configure sample_linker ''libvm.so,verbose=7'' (fresh_loader :: (example_vm, unit) loader) =
       Some (Some 0, QRVMC_LOADER_SUCCESS, fresh_loader\<lparr>open_handles := [1], vm_instances := st\<rparr>) \<and>
     map_option snd (instances st 0) = Some \<lparr>verbose = 7\<rparr>"
proof -
  let ?ld = "fresh_loader\<lparr>open_handles := [1],
    vm_instances := \<lparr>instances = [0 \<mapsto> ExampleVM_init ''0.0.0''], next_instance = 1\<rparr>\<rparr> :: (example_vm, unit) loader"
  have c: "qrvmc_load_and_create sample_linker (Some ''libvm.so'') fresh_loader = Some (Some 0, QRVMC_LOADER_SUCCESS, ?ld)"
    by (rule sample_load_and_create)
  have seven: "strtol0 ''7'' = (7, 1)" by code_simp
  have opt: "example_set_option v ''verbose'' (Some ''7'') = (QRVMC_SET_OPTION_SUCCESS, v\<lparr>verbose := 7\<rparr>)" for v
    by (simp add: example_set_option_def seven)
  have acc: "options_accepted 0 [(''verbose'', ''7'')] (vm_instances ?ld)"
    by (simp add: vm_object_set_option_def vm_at_def qrvmc_set_option_def ExampleVM_init_def opt)
  have plain: "list_all plain_option [(''verbose'', ''7'')]" by (simp add: plain_option_def)
  have i: "instances (vm_instances ?ld) 0 \<noteq> None" by simp
  from config_string_options [OF _ plain _ c i] acc obtain st where
    st: "VM_with_options 0 [(''verbose'', Some ''7'')] (vm_instances ?ld) = Some (Some 0, st)"
    "qrvmc_load_and_configure sample_linker ''libvm.so,verbose=7'' fresh_loader =
        Some (Some 0, QRVMC_LOADER_SUCCESS, ?ld\<lparr>vm_instances := st\<rparr>)" by auto
  have "map_option snd (instances st 0) = Some \<lparr>verbose = 7\<rparr>"
    using st(1) by (auto simp: VM_with_options_def VM_of_def vm_object_set_option_def vm_at_def qrvmc_set_option_def
        ExampleVM_init_def opt set_data_def bind_eq_Some_conv)
  with st(2) show ?thesis by (intro exI [of _ st]) simp
qed

text \<open>A configuration of 4096 characters. It is rejected with a message that gives 4096 as the length
  that is allowed.\<close>

theorem config_length_limit:
  assumes "length config = 4096"
  shows "\<exists>ld'. qrvmc_load_and_configure linker config ld = Some (None, QRVMC_LOADER_INVALID_ARGUMENT, ld') \<and>
    fst (qrvmc_last_error_msg ld') =
      Some ''invalid argument: configuration is too long (maximum allowed length is 4096)''"
proof -
  have d: "decimal 4096 = ''4096''"
    by (simp add: decimal_def decimal_nat.simps hex_digits_def)
  let ?e = "set_error QRVMC_LOADER_INVALID_ARGUMENT
      ''invalid argument: configuration is too long (maximum allowed length is 4096)'' ld"
  have "qrvmc_load_and_configure linker config ld = Some (None, ?e)"
    using assms by (simp add: qrvmc_load_and_configure_def strcpy_sx_def PATH_MAX_LENGTH_def d)
  then show ?thesis
    using set_error_fields [of QRVMC_LOADER_INVALID_ARGUMENT _ ld "fst ?e" "snd ?e"]
    by (intro exI [of _ "snd ?e"]) (simp add: prod_eq_iff)
qed

theorem config_length_limit_witness:
  "\<exists>ld'. qrvmc_load_and_configure sample_linker (replicate 4096 CHR ''a'') (fresh_loader :: (example_vm, unit) loader) =
       Some (None, QRVMC_LOADER_INVALID_ARGUMENT, ld') \<and>
     fst (qrvmc_last_error_msg ld') =
       Some ''invalid argument: configuration is too long (maximum allowed length is 4096)''"
  by (rule config_length_limit) (rule length_replicate)

end
