(* ===== verification/QrvmcTool.thy ===== *)
theory QrvmcTool
  imports Run Loader
begin

text \<open>
  \<^verbatim>\<open>tools/qrvmc/main.cpp\<close>, the program \<^verbatim>\<open>qrvmc\<close>: its arguments, loading the VM, the commands and the
  handlers of exceptions. The command line library, the files and the dynamic linker are parameters.
\<close>

section \<open>Arguments\<close>

text \<open>
  \<^verbatim>\<open>read_file\<close> is the content a file gives through an \<^verbatim>\<open>ifstream\<close>, which is empty for one that cannot be
  opened, and \<open>cache\<close> the uninitialised cache of the filter iterator. An exception is a value; the
  text of \<^verbatim>\<open>what()\<close> goes to the error stream.
\<close>

datatype cpp_exception = Invalid_argument string | Bad_optional_access

fun what :: "cpp_exception \<Rightarrow> string" where
  "what (Invalid_argument message) = message"
| "what Bad_optional_access = ''bad optional access''"

definition load_from_hex :: "(string \<Rightarrow> string) \<Rightarrow> char \<Rightarrow> string \<Rightarrow> cpp_exception + u8 list" where
  "load_from_hex read_file cache str =
     (if str \<noteq> [] \<and> str ! 0 = CHR 0x40 then
        let path = drop 1 str in
        (case from_spaced_hex cache (read_file path) of
           None \<Rightarrow> Inl (Invalid_argument (''invalid hex in '' @ path))
         | Some bs \<Rightarrow> Inr bs)
      else (case from_hex str of None \<Rightarrow> Inl Bad_optional_access | Some bs \<Rightarrow> Inr bs))"

text \<open>The validator returns an error text, empty when the argument is fine; \<^verbatim>\<open>CLI::ExistingFile\<close> is a
  parameter.\<close>

definition HexOrFile :: "(string \<Rightarrow> string) \<Rightarrow> string \<Rightarrow> string" where
  "HexOrFile existing_file str =
     (if str \<noteq> [] \<and> str ! 0 = CHR 0x40 then existing_file (drop 1 str)
      else if \<not> validate_hex str then ''invalid hex'' else [])"

text \<open>
  The command line library CLI11 is a parameter: what it parses the arguments to, or an error; the
  error for a required option that is missing; and the exit code and texts for an error. \<open>arg_vm\<close> is
  \<^const>\<open>None\<close> when the option \<^verbatim>\<open>--vm\<close> does not occur.
\<close>

record cli_args =
  arg_vm :: "string option"
  arg_version :: bool
  arg_run :: bool
  arg_code :: string
  arg_gas :: i64
  arg_rev :: qrvmc_revision
  arg_input :: string
  arg_create :: bool
  arg_bench :: bool

record 'e cli_library =
  cli_parse :: "string list \<Rightarrow> 'e + cli_args"
  cli_required_error :: "string \<Rightarrow> 'e"
  cli_exit :: "'e \<Rightarrow> int \<times> string \<times> string"

text \<open>What the program finds around it: files, the clock, the dynamic linker and its own version.\<close>

record ('v, 'e) environment =
  env_cli :: "'e cli_library"
  env_read_file :: "string \<Rightarrow> string"
  env_cache :: char
  env_clock :: bench_clock
  env_linker :: "('v, mocked_host) linker"
  env_version :: string

section \<open>The program\<close>

text \<open>How the inner \<^verbatim>\<open>try\<close> block ends.\<close>

datatype 'e tool_outcome = Returned int | Cli_error 'e | Raised cpp_exception

text \<open>The state is the loader and the memory; the texts are those of the two output streams.\<close>

type_synonym 'v tool_state = "('v, mocked_host) loader \<times> heap"

text \<open>\<^verbatim>\<open>vm = VM{qrvmc_load_and_configure(...)}\<close> when the option is given. The temporary is empty after the
  assignment.\<close>

definition load_vm ::
  "('v, mocked_host) linker \<Rightarrow> string option \<Rightarrow> ('v, mocked_host) loader \<Rightarrow>
   (vm_object \<times> qrvmc_loader_error_code \<times> ('v, mocked_host) loader) option" where
  "load_vm linker vm_config ld =
     (case vm_config of
        None \<Rightarrow> Some (VM_default, QRVMC_LOADER_SUCCESS, ld)
      | Some vm_config \<Rightarrow> do {
          (raw, ec, ld) \<leftarrow> qrvmc_load_and_configure linker vm_config ld;
          (vm, temporary, st) \<leftarrow> vm_move_assign VM_default (VM_of raw) (vm_instances ld);
          st \<leftarrow> vm_dtor temporary st;
          Some (vm, ec, ld\<lparr>vm_instances := st\<rparr>)
        })"

definition loading_error ::
  "qrvmc_loader_error_code \<Rightarrow> ('v, 's) loader \<Rightarrow> string \<times> ('v, 's) loader" where
  "loading_error ec ld =
     (case qrvmc_last_error_msg ld of
        (Some message, ld) \<Rightarrow> (message @ newline, ld)
      | (None, ld) \<Rightarrow> (''Loading error '' @ decimal (loader_error_value ec) @ newline, ld))"

definition print_versions ::
  "string \<Rightarrow> string list \<Rightarrow> vm_object \<Rightarrow> string \<Rightarrow> ('v, 's) vm_store \<Rightarrow> string option" where
  "print_versions project_version argv vm vm_config st = do {
     vm_line \<leftarrow>
       (if vm_to_bool vm then do {
          name \<leftarrow> vm_object_name vm st;
          version \<leftarrow> vm_object_version vm st;
          Some (name @ '' '' @ version @ '' ('' @ vm_config @ '')'' @ newline)
        } else Some []);
     Some (vm_line @ ''QRVMC '' @ project_version @
       (if argv \<noteq> [] then '' ('' @ hd argv @ '')'' else []) @ newline)
   }"

text \<open>The command \<^verbatim>\<open>run\<close>. The bytes of the input are an object of the block.\<close>

definition run_command ::
  "('v, 'e) environment \<Rightarrow> cli_args \<Rightarrow> vm_object \<Rightarrow> string \<Rightarrow> 'v tool_state \<Rightarrow>
   ('e tool_outcome \<times> string \<times> 'v tool_state) option" where
  "run_command env args vm vm_config = (\<lambda>(ld, h).
     if arg_vm args = None then Some (Cli_error (cli_required_error (env_cli env) ''--vm''), [], ld, h)
     else
       let out = ''Config: '' @ vm_config @ newline in
       (case load_from_hex (env_read_file env) (env_cache env) (arg_code args) of
          Inl ex \<Rightarrow> Some (Raised ex, out, ld, h)
        | Inr code \<Rightarrow>
            (case load_from_hex (env_read_file env) (env_cache env) (arg_input args) of
               Inl ex \<Rightarrow> Some (Raised ex, out, ld, h)
             | Inr input \<Rightarrow> do {
                 let (input_data, h1) = allocate Object input h;
                 (rc, out, st, h1) \<leftarrow> run (env_clock env) vm (arg_rev args) (arg_gas args) code
                    (input_data, length input) (arg_create args) (arg_bench args) out (vm_instances ld, h1);
                 Some (Returned rc, out, ld\<lparr>vm_instances := st\<rparr>, forget (Some (fresh h)) h1)
               })))"

text \<open>The inner block, after parsing; leaving it destroys the VM. The second text is the error stream.\<close>

definition tool_block ::
  "('v, 'e) environment \<Rightarrow> string list \<Rightarrow> cli_args \<Rightarrow> 'v tool_state \<Rightarrow>
   ('e tool_outcome \<times> string \<times> string \<times> 'v tool_state) option" where
  "tool_block env argv args = (\<lambda>(ld, h). do {
     let vm_config = (case arg_vm args of None \<Rightarrow> [] | Some c \<Rightarrow> c);
     (vm, ec, ld) \<leftarrow> load_vm (env_linker env) (arg_vm args) ld;
     (outcome, out, err, ld, h) \<leftarrow>
       (if ec \<noteq> QRVMC_LOADER_SUCCESS then
          let (err, ld) = loading_error ec ld in Some (Returned (loader_error_value ec), [], err, ld, h)
        else if arg_version args then do {
          out \<leftarrow> print_versions (env_version env) argv vm vm_config (vm_instances ld);
          Some (Returned 0, out, [], ld, h)
        }
        else if arg_run args then do {
          (outcome, out, ld, h) \<leftarrow> run_command env args vm vm_config (ld, h);
          Some (outcome, out, [], ld, h)
        }
        else Some (Returned 0, [], [], ld, h));
     st \<leftarrow> vm_dtor vm (vm_instances ld);
     Some (outcome, out, err, ld\<lparr>vm_instances := st\<rparr>, h)
   })"

text \<open>The exit code and the two texts of the program.\<close>

definition tool_main ::
  "('v, 'e) environment \<Rightarrow> string list \<Rightarrow> 'v tool_state \<Rightarrow> (int \<times> string \<times> string \<times> 'v tool_state) option" where
  "tool_main env argv s = do {
     (outcome, out, err, s) \<leftarrow>
       (case cli_parse (env_cli env) argv of
          Inl e \<Rightarrow> Some (Cli_error e, [], [], s)
        | Inr args \<Rightarrow> tool_block env argv args s);
     Some (case outcome of
       Returned rc \<Rightarrow> (rc, out, err, s)
     | Cli_error e \<Rightarrow> let (rc, more_out, more_err) = cli_exit (env_cli env) e in (rc, out @ more_out, err @ more_err, s)
     | Raised ex \<Rightarrow> (-1, out, err @ ''Error: '' @ what ex @ newline, s))
   }"

section \<open>The VM is destroyed\<close>

text \<open>Executions do not change which instances there are, whatever the VM does.\<close>

lemma execute_store_kept:
  assumes "vm_object_execute_host vm methods s revision msg code (st, h) = Some (r, s', st', h')"
  shows "store_kept st st'"
proof -
  obtain i where "vm = Some i"
    using assms by (auto simp: vm_object_execute_host_def vm_object_execute_def vm_at_def bind_eq_Some_conv)
  then show ?thesis using assms
    by (auto simp: vm_object_execute_host_def vm_object_execute_def bind_eq_Some_conv store_kept_set_data)
qed

lemma execute_times_store_kept:
  assumes "execute_times n vm revision msg code (s, st, h) = Some (s', st', h')"
  shows "store_kept st st'"
  using assms
proof (induction n arbitrary: s st h)
  case 0
  then show ?case by (simp add: store_kept_refl)
next
  case (Suc n)
  then obtain r s1 st1 h1 h2 where e: "vm_object_execute_host vm MockedHost s revision msg code (st, h) = Some (r, s1, st1, h1)"
    and t: "execute_times n vm revision msg code (s1, st1, h2) = Some (s', st', h')"
    by (auto simp: bind_eq_Some_conv)
  show ?case by (rule store_kept_trans [OF execute_store_kept [OF e] Suc.IH [OF t]])
qed

lemma bench_store_kept:
  assumes "bench clock vm revision msg code r out (s, st, h) = Some (out', s', st', h')"
  shows "store_kept st st'"
proof -
  obtain r' s1 st1 h1 n h2 where e: "vm_object_execute_host vm MockedHost s revision msg code (st, h) = Some (r', s1, st1, h1)"
    and t: "execute_times n vm revision msg code (s1, st1, h1) = Some (s', st', h2)"
    using assms by (auto simp: bench_def bind_eq_Some_conv Let_def split: if_split_asm)
  show ?thesis by (rule store_kept_trans [OF execute_store_kept [OF e] execute_times_store_kept [OF t]])
qed

lemma run_code_store_kept:
  assumes "run_code clock vm revision msg code with_bench out (s, st, h) = Some (out', st', h')"
  shows "store_kept st st'"
  using run_code_parts [OF assms] execute_store_kept bench_store_kept store_kept_trans
  by (fastforce split: if_split_asm)

lemma run_store_kept:
  assumes "run clock vm revision gas code input create with_bench out (st, h) = Some (rc, out', st', h')"
  shows "store_kept st st'"
proof (cases create)
  case False
  then show ?thesis using assms run_code_store_kept by (fastforce simp: run_def Let_def bind_eq_Some_conv)
next
  case True
  then obtain c s1 st1 h1 where c: "create_contract vm revision code (mocked_host_init, st, h) = Some (c, s1, st1, h1)"
    using assms by (fastforce simp: run_def Let_def bind_eq_Some_conv)
  then have k: "store_kept st st1"
    using execute_store_kept by (fastforce simp: create_contract_def bind_eq_Some_conv Let_def split: if_split_asm)
  show ?thesis
  proof (cases c)
    case (Inl status)
    then show ?thesis using assms True c k by (auto simp: run_def Let_def)
  next
    case (Inr exec_code)
    then obtain out1 where "run_code clock vm revision ((zero_message\<lparr>msg_gas := gas, msg_input_data := fst input,
        msg_input_size := snd input\<rparr>)\<lparr>msg_recipient := create_address\<rparr>) exec_code with_bench out1 (s1, st1, h1) =
        Some (out', st', h')"
      using assms True c by (fastforce simp: run_def Let_def bind_eq_Some_conv)
    then show ?thesis using k run_code_store_kept store_kept_trans by blast
  qed
qed

section \<open>Validated arguments\<close>

text \<open>An argument the validator accepts is decoded, unless it names a file without hex in it.\<close>

lemma load_validated:
  assumes "HexOrFile existing_file str = [] \<or> str = []"
    and "load_from_hex read_file cache str = Inl ex"
  shows "\<exists>path. str = CHR 0x40 # path \<and> ex = Invalid_argument (''invalid hex in '' @ path) \<and>
    from_spaced_hex cache (read_file path) = None"
proof (cases "str \<noteq> [] \<and> str ! 0 = CHR 0x40")
  case True
  then obtain path where "str = CHR 0x40 # path" by (cases str) auto
  then show ?thesis using assms(2) by (auto simp: load_from_hex_def Let_def split: option.splits)
next
  case False
  moreover have "validate_hex []" by (simp add: validate_hex_def from_hex_range_def)
  ultimately have "validate_hex str" using assms(1) by (auto simp: HexOrFile_def split: if_split_asm)
  then have "from_hex str \<noteq> None" by (simp add: validate_hex_def from_hex_def split_beta)
  then show ?thesis using False assms(2) by (auto simp: load_from_hex_def split: option.splits if_split_asm)
qed

text \<open>Loading into the empty \<^verbatim>\<open>VM\<close> object.\<close>

lemma load_vm_outcome:
  assumes "lawful_linker linker" and "store_sane (vm_instances ld)"
  shows "\<exists>vm ec ld'. load_vm linker config ld = Some (vm, ec, ld') \<and>
    lawful_vm (vm_instances ld) vm (vm_instances ld') \<and>
    (config \<noteq> None \<longrightarrow> (vm \<noteq> None \<longleftrightarrow> ec = QRVMC_LOADER_SUCCESS))"
proof (cases config)
  case None
  then show ?thesis using lawful_vm_none [OF assms(2)] by (simp add: load_vm_def VM_default_def)
next
  case (Some c)
  obtain vm ec ld1 where "qrvmc_load_and_configure linker c ld = Some (vm, ec, ld1)"
    "vm \<noteq> None \<longleftrightarrow> ec = QRVMC_LOADER_SUCCESS" "lawful_vm (vm_instances ld) vm (vm_instances ld1)"
    using load_and_configure_outcome [OF assms, of c] by blast
  then show ?thesis using Some
    by (simp add: load_vm_def vm_move_assign_def vm_dtor_def VM_default_def VM_of_def)
qed

text \<open>An instance that was handed over and only used since can be destroyed, which leaves what there was.\<close>

lemma destroy_after_use:
  assumes l: "lawful_vm st vm st1" and k: "store_kept st1 st2"
  shows "\<exists>st3. vm_dtor vm st2 = Some st3 \<and> store_sane st3 \<and> vm_held st3 = vm_held st"
proof -
  have s1: "store_sane st1" "vm_usable st1 vm" "set_option (vm_owned st1 vm) \<inter> vm_held st = {}"
    "vm_held st1 = vm_held st \<union> set_option (vm_owned st1 vm)"
    using l by (auto simp: lawful_at_def)
  have sane: "store_sane st2" using s1(1) k by (auto simp: store_sane_def store_kept_def)
  have inst: "instances st1 j \<noteq> None \<Longrightarrow> instances st2 j \<noteq> None" for j
    using k by (simp add: store_kept_def)
  have u: "vm_usable st2 vm" "vm_owned st2 vm = vm_owned st1 vm"
    using usable_frame [OF _ inst s1(2)] k by (simp_all add: store_kept_def)
  have "vm_held st2 = vm_held st1" using k by (simp add: store_kept_def vm_held_def)
  with vm_raii.dtor_defined [OF sane u(1)] s1(3,4) u(2) show ?thesis by (auto simp: VM_class_def)
qed

lemma loading_error_instances: "loading_error ec ld = (err, ld') \<Longrightarrow> vm_instances ld' = vm_instances ld"
  by (auto simp: loading_error_def qrvmc_last_error_msg_def Let_def split: option.splits error_msg.splits)

lemma run_command_kept:
  assumes "run_command env args vm vm_config (ld, h) = Some (outcome, out, ld', h')"
  shows "store_kept (vm_instances ld) (vm_instances ld')"
  using assms
  by (auto simp: run_command_def Let_def bind_eq_Some_conv store_kept_refl run_store_kept
      split: if_split_asm sum.splits prod.splits)

lemma run_command_raised:
  assumes "run_command env args vm vm_config (ld, h) = Some (Raised ex, out, ld', h')"
    and "HexOrFile existing_file (arg_code args) = [] \<and>
      (arg_input args = [] \<or> HexOrFile existing_file (arg_input args) = [])"
  shows "\<exists>path. (arg_code args = CHR 0x40 # path \<or> arg_input args = CHR 0x40 # path) \<and>
    ex = Invalid_argument (''invalid hex in '' @ path) \<and>
    from_spaced_hex (env_cache env) (env_read_file env path) = None"
proof -
  have "load_from_hex (env_read_file env) (env_cache env) (arg_code args) = Inl ex \<or>
    load_from_hex (env_read_file env) (env_cache env) (arg_input args) = Inl ex"
    using assms(1) by (auto simp: run_command_def Let_def bind_eq_Some_conv split: if_split_asm sum.splits prod.splits)
  then show ?thesis using load_validated assms(2) by metis
qed

lemma tool_block_outcome:
  assumes "lawful_linker (env_linker env)" and "store_sane (vm_instances ld)"
    and b: "tool_block env argv args (ld, h) = Some (outcome, out, err, ld', h')"
  shows "vm_held (vm_instances ld') = vm_held (vm_instances ld) \<and> store_sane (vm_instances ld') \<and>
    (\<forall>ex. outcome = Raised ex \<longrightarrow>
       (\<exists>vm c ld1 out1 ld2 h2. run_command env args vm c (ld1, h) = Some (Raised ex, out1, ld2, h2)))"
proof -
  obtain vm ec ld1 where l: "load_vm (env_linker env) (arg_vm args) ld = Some (vm, ec, ld1)"
    and law: "lawful_vm (vm_instances ld) vm (vm_instances ld1)"
    using load_vm_outcome [OF assms(1,2), of "arg_vm args"] by blast
  let ?c = "case arg_vm args of None \<Rightarrow> [] | Some c \<Rightarrow> c"
  let ?inner = "if ec \<noteq> QRVMC_LOADER_SUCCESS then
       let (err, ld) = loading_error ec ld1 in Some (Returned (loader_error_value ec), [], err, ld, h)
     else if arg_version args then do {
       out \<leftarrow> print_versions (env_version env) argv vm ?c (vm_instances ld1);
       Some (Returned 0, out, [], ld1, h)
     }
     else if arg_run args then do {
       (outcome, out, ld, h) \<leftarrow> run_command env args vm ?c (ld1, h);
       Some (outcome, out, [], ld, h)
     }
     else Some (Returned 0, [], [], ld1, h)"
  obtain ld2 h2 st where inner: "?inner = Some (outcome, out, err, ld2, h2)"
    and d: "vm_dtor vm (vm_instances ld2) = Some st" and ld': "ld' = ld2\<lparr>vm_instances := st\<rparr>"
    using b l by (auto simp: tool_block_def bind_eq_Some_conv Let_def)
  then have k: "store_kept (vm_instances ld1) (vm_instances ld2)"
    by (auto simp: bind_eq_Some_conv store_kept_refl loading_error_instances run_command_kept
        split: if_split_asm prod.splits)
  have r: "\<exists>out1. run_command env args vm ?c (ld1, h) = Some (Raised ex, out1, ld2, h2)" if "outcome = Raised ex" for ex
    using inner that by (auto simp: bind_eq_Some_conv split: if_split_asm prod.splits)
  from destroy_after_use [OF law k] d ld' r show ?thesis by auto blast
qed

text \<open>C37: the program \<^verbatim>\<open>qrvmc\<close> cleans up and reports bad input. Suppose the modules behave and the command
  line library only accepts arguments the validator \<^verbatim>\<open>HexOrFile\<close> accepts. Whatever the arguments, the
  code and the VM do, when the program ends the VM it loaded has been destroyed, and no other. The
  only exception that leaves the block is that a file named by an argument does not contain hex;
  the \<^verbatim>\<open>value()\<close> of an empty optional is never asked for.\<close>

theorem tool_destroys_vm:
  assumes "lawful_linker (env_linker env)" and "store_sane (vm_instances ld)"
    and "\<And>args. cli_parse (env_cli env) argv = Inr args \<Longrightarrow> HexOrFile existing_file (arg_code args) = [] \<and>
      (arg_input args = [] \<or> HexOrFile existing_file (arg_input args) = [])"
    and "tool_main env argv (ld, h) = Some (rc, out, err, ld', h')"
  shows "vm_held (vm_instances ld') = vm_held (vm_instances ld) \<and> store_sane (vm_instances ld') \<and>
    (\<forall>args ex out err s. cli_parse (env_cli env) argv = Inr args \<and>
       tool_block env argv args (ld, h) = Some (Raised ex, out, err, s) \<longrightarrow>
       (\<exists>path. (arg_code args = CHR 0x40 # path \<or> arg_input args = CHR 0x40 # path) \<and>
          ex = Invalid_argument (''invalid hex in '' @ path) \<and>
          from_spaced_hex (env_cache env) (env_read_file env path) = None))"
proof (cases "cli_parse (env_cli env) argv")
  case (Inl e)
  then show ?thesis using assms(2,4) by (auto simp: tool_main_def split: prod.splits)
next
  case (Inr args)
  obtain outcome out1 err1 where b: "tool_block env argv args (ld, h) = Some (outcome, out1, err1, ld', h')"
    using assms(4) Inr by (cases "tool_block env argv args (ld, h)")
      (fastforce simp: tool_main_def split: tool_outcome.splits prod.splits)+
  have r: "\<exists>path. (arg_code args = CHR 0x40 # path \<or> arg_input args = CHR 0x40 # path) \<and>
      ex = Invalid_argument (''invalid hex in '' @ path) \<and>
      from_spaced_hex (env_cache env) (env_read_file env path) = None"
    if raised: "tool_block env argv args (ld, h) = Some (Raised ex, out, err, s)" for ex out err s
  proof -
    obtain ld2 h2 where s: "s = (ld2, h2)" by (cases s)
    from tool_block_outcome [OF assms(1,2) raised [unfolded s]] obtain vm c ld1 out1 ld3 h3 where
      "run_command env args vm c (ld1, h) = Some (Raised ex, out1, ld3, h3)" by blast
    from run_command_raised [OF this assms(3) [OF Inr]] show ?thesis .
  qed
  show ?thesis
  proof (intro conjI allI impI; (elim conjE)?)
    fix args' ex out err s
    assume "cli_parse (env_cli env) argv = Inr args'" "tool_block env argv args' (ld, h) = Some (Raised ex, out, err, s)"
    with Inr r show "\<exists>path. (arg_code args' = CHR 0x40 # path \<or> arg_input args' = CHR 0x40 # path) \<and>
      ex = Invalid_argument (''invalid hex in '' @ path) \<and>
      from_spaced_hex (env_cache env) (env_read_file env path) = None" by (simp only: sum.inject)
  qed (use tool_block_outcome [OF assms(1,2) b] in simp_all)
qed

text \<open>\<^verbatim>\<open>qrvmc --vm libvm.so run 5900 --gas 5\<close>, with a command line library that recognises this line.\<close>

definition sample_args :: cli_args where
  "sample_args = \<lparr>arg_vm = Some ''libvm.so'', arg_version = False, arg_run = True, arg_code = ''5900'', arg_gas = 5,
     arg_rev = QRVMC_SHANGHAI, arg_input = [], arg_create = False, arg_bench = False\<rparr>"

definition sample_env :: "(example_vm, string) environment" where
  "sample_env = \<lparr>env_cli = \<lparr>cli_parse = (\<lambda>argv. if argv = [''qrvmc''] then Inl ''no command'' else Inr sample_args),
       cli_required_error = (\<lambda>name. name), cli_exit = (\<lambda>e. (1, [], e))\<rparr>,
     env_read_file = (\<lambda>path. []), env_cache = CHR 0x20, env_clock = \<lparr>probe_time = 1, loop_time = 1\<rparr>,
     env_linker = sample_linker, env_version = ''0.0.0''\<rparr>"

lemma sample_run:
  "\<exists>h'. run clock (Some 0) QRVMC_SHANGHAI 5 [0x59, 0x00] (Ptr 1 0, 0) False False out
      (one_vm (ExampleVM_init ''0.0.0''), h) =
    Some (0, out @ ''Executing on Shanghai with 5 gas limit'' @ newline @ newline @ ''Result:   success'' @ newline @
        ''Gas used: 2'' @ newline @ ''Output:   '' @ newline,
      set_data (Some 0) \<lparr>verbose = 0\<rparr> (one_vm (ExampleVM_init ''0.0.0'')), h')"
proof -
  let ?m = "zero_message\<lparr>msg_gas := 5, msg_input_data := Ptr 1 0, msg_input_size := 0\<rparr>"
  obtain h' where "example_execute \<lparr>verbose = 0\<rparr> (Some (get_interface MockedHost)) mocked_host_init h QRVMC_SHANGHAI ?m [0x59, 0x00] =
      Some (zero_result\<lparr>res_gas_left := 3\<rparr>, \<lparr>verbose = 0\<rparr>, mocked_host_init, h')"
    using msize_stop(2) [of ?m "\<lparr>verbose = 0\<rparr>" "Some (get_interface MockedHost)" mocked_host_init h QRVMC_SHANGHAI] by auto
  then show ?thesis
    by (simp add: run_def run_code_def vm_object_execute_host_def vm_object_execute_def vm_at_def one_vm_def
        ExampleVM_init_def result_from_raw_def Let_def zero_result_def i64_sub_def i64_range_def mem_read_def result_dtor_def
        stream_revision_def stream_status_def to_string_revision_def to_string_status_def decimal_digit hex_Nil)
qed

lemma sample_tool_run:
  "\<exists>ld h. tool_main sample_env [''qrvmc'', ''--vm'', ''libvm.so'', ''run'', ''5900'', ''--gas'', ''5''] (fresh_loader, sample_heap) =
     Some (0, ''Config: libvm.so'' @ newline @ ''Executing on Shanghai with 5 gas limit'' @ newline @ newline @
       ''Result:   success'' @ newline @ ''Gas used: 2'' @ newline @ ''Output:   '' @ newline, [], ld, h)"
proof -
  obtain h2 where p: "allocate Object [] sample_heap = (Ptr 1 0, h2)" by (simp add: allocate_def sample_heap_def)
  let ?c = "[0x59, 0x00]"
  have "''5900'' = hex ?c" by (simp add: hex_byte_def hex_digits_def)
  then have code: "from_hex ''5900'' = Some ?c" by (simp only: from_hex_eq_spec hex_spec_hex)
  have load: "load_vm sample_linker (Some ''libvm.so'') fresh_loader =
      Some (Some 0, QRVMC_LOADER_SUCCESS, fresh_loader\<lparr>open_handles := [1], vm_instances := one_vm (ExampleVM_init ''0.0.0'')\<rparr>)"
    by (simp add: load_vm_def sample_configure vm_move_assign_def VM_default_def VM_of_def vm_dtor_def one_vm_def)
  let ?argv = "[''qrvmc'', ''--vm'', ''libvm.so'', ''run'', ''5900'', ''--gas'', ''5'']"
  let ?out = "''Config: '' @ ''libvm.so'' @ newline"
  let ?ld = "fresh_loader\<lparr>open_handles := [1], vm_instances := one_vm (ExampleVM_init ''0.0.0'')\<rparr> :: (example_vm, mocked_host) loader"
  let ?st = "set_data (Some 0) \<lparr>verbose = 0\<rparr> (one_vm (ExampleVM_init ''0.0.0'')) :: (example_vm, mocked_host) vm_store"
  let ?text = "?out @ ''Executing on Shanghai with 5 gas limit'' @ newline @ newline @ ''Result:   success'' @ newline @
        ''Gas used: 2'' @ newline @ ''Output:   '' @ newline"
  obtain h1 where r: "run \<lparr>probe_time = 1, loop_time = 1\<rparr> (Some 0) QRVMC_SHANGHAI 5 ?c (Ptr 1 0, 0) False False ?out
      (one_vm (ExampleVM_init ''0.0.0''), h2) = Some (0, ?text, ?st, h1)"
    using sample_run by (rule exE)
  have args: "arg_vm sample_args = Some ''libvm.so''" "arg_code sample_args = ''5900''" "arg_input sample_args = []"
    "arg_rev sample_args = QRVMC_SHANGHAI" "arg_gas sample_args = 5" "\<not> arg_create sample_args" "\<not> arg_bench sample_args"
    "\<not> arg_version sample_args" "arg_run sample_args"
    and env: "env_clock sample_env = \<lparr>probe_time = 1, loop_time = 1\<rparr>" "env_linker sample_env = sample_linker"
    by (simp_all add: sample_args_def sample_env_def)
  have "load_from_hex (env_read_file sample_env) (env_cache sample_env) (arg_code sample_args) = Inr ?c"
    "load_from_hex (env_read_file sample_env) (env_cache sample_env) (arg_input sample_args) = Inr []"
    by (simp_all add: load_from_hex_def args code) (simp add: from_hex_def from_hex_range_def)
  then have rc: "run_command sample_env sample_args (Some 0) ''libvm.so'' (?ld, sample_heap) =
      Some (Returned 0, ?text, ?ld\<lparr>vm_instances := ?st\<rparr>, forget (Some (fresh sample_heap)) h1)"
    using r by (simp add: run_command_def args env p Let_def del: append_assoc append_Cons append.append_Cons)
  obtain st' where "vm_dtor (Some 0) ?st = Some st'"
    by (simp add: vm_dtor_def qrvmc_destroy_def set_data_def one_vm_def ExampleVM_init_def)
  with load rc have "\<exists>ld h. tool_block sample_env argv sample_args (fresh_loader, sample_heap) = Some (Returned 0, ?text, [], ld, h)" for argv
    by (simp add: tool_block_def args env Let_def del: append_assoc append_Cons append.append_Cons)
  from this [of ?argv] obtain ld h where b: "tool_block sample_env ?argv sample_args (fresh_loader, sample_heap) = Some (Returned 0, ?text, [], ld, h)"
    by (elim exE)
  have parse: "cli_parse (env_cli sample_env) ?argv = Inr sample_args" by (simp add: sample_env_def)
  show ?thesis by (intro exI [of _ ld] exI [of _ h]) (simp add: tool_main_def parse b)
qed

theorem tool_destroys_vm_witness:
  "\<exists>out ld h. tool_main sample_env [''qrvmc'', ''--vm'', ''libvm.so'', ''run'', ''5900'', ''--gas'', ''5''] (fresh_loader, sample_heap) =
     Some (0, out, [], ld, h) \<and> vm_held (vm_instances ld) = {}"
proof -
  let ?argv = "[''qrvmc'', ''--vm'', ''libvm.so'', ''run'', ''5900'', ''--gas'', ''5'']"
  have l: "lawful_linker (env_linker sample_env)" by (simp add: sample_env_def sample_linker_lawful)
  have s: "store_sane (vm_instances (fresh_loader :: (example_vm, mocked_host) loader))"
    "vm_held (vm_instances (fresh_loader :: (example_vm, mocked_host) loader)) = {}"
    by (simp_all add: store_sane_def fresh_loader_def vm_held_def deletable_def)
  have "''5900'' = hex [0x59, 0x00]" by (simp add: hex_byte_def hex_digits_def)
  then have "from_hex ''5900'' = Some [0x59, 0x00]" by (simp only: from_hex_eq_spec hex_spec_hex)
  then have "HexOrFile f ''5900'' = []" for f by (simp add: HexOrFile_def validate_hex_iff)
  then have v: "cli_parse (env_cli sample_env) argv = Inr args \<Longrightarrow> HexOrFile f (arg_code args) = [] \<and>
      (arg_input args = [] \<or> HexOrFile f (arg_input args) = [])" for argv args f
    by (auto simp: sample_env_def sample_args_def split: if_split_asm)
  obtain out ld h where t: "tool_main sample_env ?argv (fresh_loader, sample_heap) = Some (0, out, [], ld, h)"
    using sample_tool_run by (elim exE)
  from tool_destroys_vm [OF l s(1) v t] s(2) t show ?thesis by (intro exI [of _ out] exI [of _ ld] exI [of _ h]) simp
qed

end
