(* ===== verification/TesterMain.thy ===== *)
theory TesterMain
  imports VmTester QrvmcTool
begin

text \<open>
  \<^verbatim>\<open>tools/vmtester/vmtester.cpp\<close> and \<^verbatim>\<open>vmtester.hpp\<close>, the program \<^verbatim>\<open>vmtester\<close>: its parser of the command line,
  and loading a module and running the tests on its VM. The test framework is a parameter where it
  looks at the arguments.
\<close>

section \<open>The parser\<close>

text \<open>\<^verbatim>\<open>find_first_not_of\<close>; \<^const>\<open>None\<close> is \<^verbatim>\<open>npos\<close>, which is larger than any position.\<close>

definition find_first_not_of :: "string \<Rightarrow> char \<Rightarrow> nat option" where
  "find_first_not_of s c =
     (let x = length (takeWhile (\<lambda>d. d = c) s) in if x = length s then None else Some x)"

record cli_parser =
  application_name :: string
  application_version :: string
  arguments_names :: "string list"
  arguments :: "string list"

definition make_cli_parser :: "string \<Rightarrow> string \<Rightarrow> string list \<Rightarrow> cli_parser" where
  "make_cli_parser app_name app_version args_names =
     \<lparr>application_name = app_name, application_version = app_version, arguments_names = args_names, arguments = []\<rparr>"

text \<open>The loop over the arguments: an error text and the parser so far, or the flags and the parser.\<close>

fun parse_loop ::
  "string list \<Rightarrow> bool \<Rightarrow> bool \<Rightarrow> nat \<Rightarrow> cli_parser \<Rightarrow> (string \<times> cli_parser) + (bool \<times> bool \<times> nat \<times> cli_parser)" where
  "parse_loop [] help version num_args p = Inr (help, version, num_args, p)"
| "parse_loop (arg # argv) help version num_args p =
     (let x = find_first_not_of arg CHR ''-'';
          unknown = Inl (''Unknown option '' @ [CHR 0x22] @ arg @ [CHR 0x22] @ newline, p) in
      case x of
        Some 0 \<Rightarrow>
          (let num_args = num_args + 1 in
           if num_args > length (arguments_names p)
           then Inl (''Unexpected argument '' @ [CHR 0x22] @ arg @ [CHR 0x22] @ newline, p)
           else parse_loop argv help version num_args (p\<lparr>arguments := arguments p @ [arg]\<rparr>))
      | Some n \<Rightarrow>
          if n \<le> 2 then
            if drop n arg = ''version'' then parse_loop argv help True num_args p
            else if drop n arg = ''help'' then parse_loop argv True version num_args p
            else unknown
          else unknown
      | None \<Rightarrow> unknown)"

text \<open>The return value, the parser, and what went to the two streams. \<open>argv\<close> starts with the name of
  the program.\<close>

definition parse :: "string list \<Rightarrow> cli_parser \<Rightarrow> int \<times> cli_parser \<times> string \<times> string" where
  "parse argv p =
     (case parse_loop (tl argv) False False 0 p of
        Inl (message, p) \<Rightarrow> (-1, p, [], message)
      | Inr (help, version, num_args, p) \<Rightarrow>
          let out = application_name p @ '' '' @ application_version p @ newline in
          if help then
            (0, p, out @ ''Usage: '' @ hd argv @ concat (map (\<lambda>name. '' '' @ name) (arguments_names p)) @ newline, [])
          else if version then (0, p, out, [])
          else if num_args < length (arguments_names p) then
            (-1, p, out,
             concat (map (\<lambda>i. ''The '' @ arguments_names p ! i @ '' argument is required.'' @ newline)
               [num_args..<length (arguments_names p)]) @ ''Run with --help for more information.'' @ newline)
          else (1, p, out, []))"

section \<open>What the parser accepts\<close>

text \<open>A positional argument is not empty and does not start with a dash; a flag is \<^verbatim>\<open>help\<close> or \<^verbatim>\<open>version\<close>
  after one or two dashes.\<close>

definition positional :: "string \<Rightarrow> bool" where
  "positional arg \<longleftrightarrow> arg \<noteq> [] \<and> hd arg \<noteq> CHR ''-''"

definition flag :: "string \<Rightarrow> string \<Rightarrow> bool" where
  "flag name arg \<longleftrightarrow> arg = ''-'' @ name \<or> arg = ''--'' @ name"

lemma find_first_simps [simp]:
  "find_first_not_of [] c = None"
  "find_first_not_of (d # s) c = (if d = c then map_option Suc (find_first_not_of s c) else Some 0)"
  by (simp_all add: find_first_not_of_def Let_def)

lemma parse_loop_cons:
  "parse_loop (arg # argv) help version n p =
     (if positional arg then
        if n < length (arguments_names p) then parse_loop argv help version (Suc n) (p\<lparr>arguments := arguments p @ [arg]\<rparr>)
        else Inl (''Unexpected argument '' @ [CHR 0x22] @ arg @ [CHR 0x22] @ newline, p)
      else if flag ''version'' arg then parse_loop argv help True n p
      else if flag ''help'' arg then parse_loop argv True version n p
      else Inl (''Unknown option '' @ [CHR 0x22] @ arg @ [CHR 0x22] @ newline, p))"
proof -
  consider "positional arg" | "arg = []" | "arg = ''-''" | c s where "arg = CHR ''-'' # c # s" "c \<noteq> CHR ''-''"
    | "arg = ''--''" | c s where "arg = CHR ''-'' # CHR ''-'' # c # s" "c \<noteq> CHR ''-''"
    | s where "arg = CHR ''-'' # CHR ''-'' # CHR ''-'' # s"
    unfolding positional_def by (metis list.exhaust_sel)
  then show ?thesis
  proof cases
    case 1
    then have "find_first_not_of arg CHR ''-'' = Some 0" by (cases arg) (simp_all add: positional_def)
    with 1 show ?thesis by (simp add: Let_def not_less)
  next
    case (4 c s)
    then have "find_first_not_of arg CHR ''-'' = Some (Suc 0)" "\<not> positional arg" "drop (Suc 0) arg = c # s"
      "flag name arg \<longleftrightarrow> c # s = name" for name
      by (auto simp: positional_def flag_def)
    then show ?thesis by (simp add: Let_def)
  next
    case (6 c s)
    then have "find_first_not_of arg CHR ''-'' = Some (Suc (Suc 0))" "\<not> positional arg" "drop (Suc (Suc 0)) arg = c # s"
      by (simp_all add: positional_def)
    moreover have "flag ''version'' arg \<longleftrightarrow> c # s = ''version''" "flag ''help'' arg \<longleftrightarrow> c # s = ''help''"
      using 6 by (simp_all add: flag_def)
    ultimately show ?thesis by (simp add: Let_def)
  next
    case (7 s)
    then have "find_first_not_of arg CHR ''-'' = map_option (Suc \<circ> Suc \<circ> Suc) (find_first_not_of s CHR ''-'')"
      by (simp add: option.map_comp comp_def)
    moreover have "\<not> positional arg" "\<not> flag ''version'' arg" "\<not> flag ''help'' arg"
      using 7 by (simp_all add: positional_def flag_def)
    ultimately show ?thesis by (cases "find_first_not_of s CHR ''-''") (simp_all add: Let_def)
  qed (simp_all add: positional_def flag_def)
qed

declare parse_loop.simps(2) [simp del]

text \<open>The outcome of the loop.\<close>

lemma parse_loop_outcome:
  assumes "n \<le> length (arguments_names p)"
  shows "(\<exists>message p'. parse_loop argv show_help show_version n p = Inl (message, p') \<and> message \<noteq> []) \<and>
      ((\<exists>arg \<in> set argv. \<not> positional arg \<and> \<not> flag ''version'' arg \<and> \<not> flag ''help'' arg) \<or>
       n + length (filter positional argv) > length (arguments_names p)) \<or>
    (\<forall>arg \<in> set argv. positional arg \<or> flag ''version'' arg \<or> flag ''help'' arg) \<and>
      n + length (filter positional argv) \<le> length (arguments_names p) \<and>
    parse_loop argv show_help show_version n p =
      Inr (show_help \<or> (\<exists>arg \<in> set argv. flag ''help'' arg), show_version \<or> (\<exists>arg \<in> set argv. flag ''version'' arg),
        n + length (filter positional argv), p\<lparr>arguments := arguments p @ filter positional argv\<rparr>)"
  using assms
proof (induction argv arbitrary: show_help show_version n p)
  case Nil
  then show ?case by simp
next
  case (Cons arg argv)
  have excl: "positional arg \<Longrightarrow> \<not> flag ''version'' arg \<and> \<not> flag ''help'' arg" "flag ''version'' arg \<Longrightarrow> \<not> flag ''help'' arg"
    by (auto simp: positional_def flag_def)
  consider "positional arg" "n < length (arguments_names p)" | "positional arg" "n = length (arguments_names p)"
    | "flag ''version'' arg" | "flag ''help'' arg"
    | "\<not> positional arg \<and> \<not> flag ''version'' arg \<and> \<not> flag ''help'' arg"
    using Cons.prems by fastforce
  then show ?case
  proof cases
    case 1
    then show ?thesis using Cons.IH [of "Suc n" "p\<lparr>arguments := arguments p @ [arg]\<rparr>" show_help show_version] excl
      by (simp add: parse_loop_cons)
  next
    case 3
    then show ?thesis using Cons.IH [OF Cons.prems, of show_help True] excl by (simp add: parse_loop_cons) blast
  next
    case 4
    then show ?thesis using Cons.IH [OF Cons.prems, of True show_version] excl by (simp add: parse_loop_cons) blast
  qed (simp_all add: parse_loop_cons)
qed

text \<open>C38: what \<^verbatim>\<open>cli_parser::parse\<close> returns. A new parser given a command line rejects it with \<^verbatim>\<open>-1\<close> when an
  argument is neither positional nor one of the two flags, or there are too many positional ones;
  then nothing is printed. Otherwise its arguments are the positional ones in order, the name and
  version are printed, and the value is 0 when there is a flag, \<^verbatim>\<open>-1\<close> when an argument is missing,
  and 1 when all are there. There is an error text exactly when the value is negative.\<close>

theorem parse_outcome:
  assumes "argv \<noteq> []"
  defines "args \<equiv> tl argv"
  shows "case parse argv (make_cli_parser app version names) of (rc, p, out, err) \<Rightarrow>
    (rc < 0 \<longleftrightarrow> err \<noteq> []) \<and>
    (if (\<exists>arg \<in> set args. \<not> positional arg \<and> \<not> flag ''version'' arg \<and> \<not> flag ''help'' arg) \<or>
        length names < length (filter positional args)
     then rc = -1 \<and> out = []
     else arguments p = filter positional args \<and> take (length (app @ '' '' @ version)) out = app @ '' '' @ version \<and>
       rc = (if \<exists>arg \<in> set args. flag ''help'' arg \<or> flag ''version'' arg then 0
             else if length (filter positional args) < length names then -1 else 1))"
proof -
  let ?p = "make_cli_parser app version names"
  have n: "arguments_names ?p = names" "arguments ?p = []" "application_name ?p = app" "application_version ?p = version"
    by (simp_all add: make_cli_parser_def)
  consider message p where "parse_loop args False False 0 ?p = Inl (message, p)" "message \<noteq> []"
      "(\<exists>arg \<in> set args. \<not> positional arg \<and> \<not> flag ''version'' arg \<and> \<not> flag ''help'' arg) \<or>
        length names < length (filter positional args)"
    | "\<forall>arg \<in> set args. positional arg \<or> flag ''version'' arg \<or> flag ''help'' arg"
      "length (filter positional args) \<le> length names"
      "parse_loop args False False 0 ?p =
        Inr (\<exists>arg \<in> set args. flag ''help'' arg, \<exists>arg \<in> set args. flag ''version'' arg,
          length (filter positional args), ?p\<lparr>arguments := filter positional args\<rparr>)"
    using parse_loop_outcome [of 0 ?p args False False] n by auto
  then show ?thesis
  proof cases
    case 1
    then show ?thesis by (simp add: parse_def args_def [symmetric])
  next
    case 2
    then have "\<not> ((\<exists>arg \<in> set args. \<not> positional arg \<and> \<not> flag ''version'' arg \<and> \<not> flag ''help'' arg) \<or>
        length names < length (filter positional args))" by auto
    then show ?thesis
      using 2(3) n by (simp only: if_False) (simp add: parse_def args_def [symmetric] Let_def bex_disj_distrib)
  qed
qed

theorem parse_outcome_witness:
  "case parse [''vmtester'', ''--help'', ''vm.so''] (make_cli_parser ''QRVMC VM Tester'' ''1'' [''MODULE'']) of
     (rc, p, out, err) \<Rightarrow> rc = 0 \<and> arguments p = [''vm.so''] \<and> err = []"
proof -
  have "positional ''vm.so''" "\<not> positional ''--help''" "flag ''help'' ''--help''" by (simp_all add: positional_def flag_def)
  then show ?thesis
    using parse_outcome [of "[''vmtester'', ''--help'', ''vm.so'']", where app = "''QRVMC VM Tester''" and version = "''1''"
        and names = "[''MODULE'']"]
    by (simp split: prod.splits if_split_asm)
qed

section \<open>The program\<close>

text \<open>
  \<^verbatim>\<open>InitGoogleTest\<close> takes its own flags out of the arguments: \<open>init_google_test\<close>. \<^verbatim>\<open>RUN_ALL_TESTS\<close> runs all
  tests, which is so when no filter is given, and returns whether one failed. The tests use the
  instance of the static object \<^verbatim>\<open>owned_vm\<close>, which destroys it when the program exits; a test whose
  \<^verbatim>\<open>SetUp\<close> finds no instance fails.
\<close>

definition set_vm ::
  "vm_object \<Rightarrow> vm_object \<Rightarrow> ('v, 's) vm_store \<Rightarrow> (vm_object \<times> ('v, 's) vm_store) option" where
  "set_vm owned_vm given st = do {
     (owned_vm, given, st) \<leftarrow> vm_move_assign owned_vm given st;
     st \<leftarrow> vm_dtor given st;
     Some (owned_vm, st)
   }"

definition RUN_ALL_TESTS ::
  "mocked_host \<Rightarrow> vm_object \<Rightarrow> ('v, mocked_host) vm_store \<times> heap \<Rightarrow>
   (int \<times> ('v, mocked_host) vm_store \<times> heap) option" where
  "RUN_ALL_TESTS null_context owned_vm = (\<lambda>(st, h).
     (case vm_at owned_vm st of
        None \<Rightarrow> if owned_vm = None then Some (1, st, h) else None
      | Some (vm, v) \<Rightarrow> do {
          (ok, v, h) \<leftarrow> run_all_tests vm null_context v h;
          Some (if ok then 0 else 1, set_data owned_vm v st, h)
        }))"

definition tester_main ::
  "('v, mocked_host) linker \<Rightarrow> mocked_host \<Rightarrow> (string list \<Rightarrow> string list) \<Rightarrow> string \<Rightarrow> string list \<Rightarrow>
   ('v, mocked_host) loader \<times> heap \<Rightarrow> (int \<times> string \<times> string \<times> ('v, mocked_host) loader \<times> heap) option" where
  "tester_main linker null_context init_google_test project_version argv = (\<lambda>(ld, h).
     let argv = init_google_test argv;
         cli = make_cli_parser ''QRVMC VM Tester'' project_version [''MODULE''];
         (error_code, cli, out, err) = parse argv cli in
     if error_code \<le> 0 then Some (error_code, out, err, ld, h)
     else do {
       let qrvmc_module = arguments cli ! 0;
       let out = out @ ''Testing '' @ qrvmc_module @ newline;
       (raw, ec, ld) \<leftarrow> qrvmc_load_and_configure linker qrvmc_module ld;
       let vm = VM_of raw;
       if ec \<noteq> QRVMC_LOADER_SUCCESS then do {
         let (message, ld) = loading_error ec ld;
         st \<leftarrow> vm_dtor vm (vm_instances ld);
         Some (loader_error_value ec, out, err @ message, ld\<lparr>vm_instances := st\<rparr>, h)
       } else do {
         let (given, vm) = vm_move_ctor vm;
         (owned_vm, st) \<leftarrow> set_vm VM_default given (vm_instances ld);
         (rc, st, h) \<leftarrow> RUN_ALL_TESTS null_context owned_vm (st, h);
         st \<leftarrow> vm_dtor vm st;
         st \<leftarrow> vm_dtor owned_vm st;
         Some (rc, out @ newline, err, ld\<lparr>vm_instances := st\<rparr>, h)
       }
     })"

text \<open>C39: the VM tester accepts a module with the example VM. Started on a path that is an argument and a
  configuration without options, where the module's create function is that of the example VM, the
  program loads it, runs all tests, and exits with zero; it prints what it should, nothing on the
  error stream, and the instance it tested has been destroyed.\<close>

theorem tester_accepts_example_vm:
  assumes "positional path" and "length path < 4096" and "CHR '','' \<notin> set path" and "version \<noteq> []"
    and "dll_open linker path = Some handle"
    and "dll_get_create_fn linker handle (prefixed_name path) = Some (qrvmc_create_example_vm version)"
    and "store_sane (vm_instances ld)"
  shows "\<exists>ld' h'. tester_main linker null_context (\<lambda>argv. argv) project_version [program, path] (ld, h) =
      Some (0, ''QRVMC VM Tester '' @ project_version @ newline @ ''Testing '' @ path @ newline @ newline, [], ld', h') \<and>
    vm_held (vm_instances ld') = vm_held (vm_instances ld)"
proof -
  let ?st = "vm_instances ld" and ?iv = "ExampleVM_init version :: (example_vm, mocked_host) qrvmc_vm \<times> example_vm"
  obtain i st where n: "new_instance ?iv ?st = (i, st)" by (cases "new_instance ?iv ?st")
  have st: "st = ?st\<lparr>instances := (instances ?st)(i \<mapsto> ?iv), next_instance := Suc i\<rparr>" and i: "i = next_instance ?st"
    using n by (auto simp: new_instance_def)
  have none: "instances ?st i = None" using assms(7) i unfolding store_sane_def by (metis less_irrefl)
  have "path \<noteq> []" using assms(1) by (simp add: positional_def)
  from load_example_vm [OF this assms(2,3,5,6) n] obtain ld' where
    l: "qrvmc_load_and_configure linker path ld = Some (Some i, QRVMC_LOADER_SUCCESS, ld')" "vm_instances ld' = st" by blast
  obtain v h' where t: "run_all_tests (fst ?iv) null_context \<lparr>verbose = 0\<rparr> h = Some (True, v, h')"
    using example_vm_all_tests [OF assms(4)] by blast
  have iv: "?iv = (fst ?iv, \<lparr>verbose = 0\<rparr>)" by (simp add: ExampleVM_init_def)
  have "vm_at (Some i) st = Some (fst ?iv, \<lparr>verbose = 0\<rparr>)" using st iv by (simp add: vm_at_def)
  then have "RUN_ALL_TESTS null_context (Some i) (st, h) = Some (0, set_data (Some i) v st, h')"
    using t by (simp add: RUN_ALL_TESTS_def)
  moreover have "\<exists>st'. vm_dtor (Some i) (set_data (Some i) v st) = Some st' \<and> vm_held st' = vm_held ?st"
    using st none
    by (auto simp: vm_dtor_def qrvmc_destroy_def set_data_def ExampleVM_init_def vm_held_def deletable_def)
  moreover have "parse [program, path] (make_cli_parser ''QRVMC VM Tester'' project_version [''MODULE'']) =
      (1, \<lparr>application_name = ''QRVMC VM Tester'', application_version = project_version,
           arguments_names = [''MODULE''], arguments = [path]\<rparr>, ''QRVMC VM Tester '' @ project_version @ newline, [])"
    using assms(1) by (simp add: parse_def parse_loop_cons make_cli_parser_def)
  ultimately show ?thesis
    using l by (auto simp: tester_main_def set_vm_def vm_move_assign_def vm_move_ctor_def VM_default_def VM_of_def vm_dtor_def [of None])
qed

theorem tester_accepts_example_vm_witness:
  "\<exists>ld h. tester_main sample_linker mocked_host_init (\<lambda>argv. argv) ''1'' [''vmtester'', ''libvm.so''] (fresh_loader, sample_heap) =
     Some (0, ''QRVMC VM Tester 1'' @ newline @ ''Testing libvm.so'' @ newline @ newline, [], ld, h)"
proof -
  have p: "positional ''libvm.so''" by (simp add: positional_def)
  have l: "length ''libvm.so'' < 4096" "CHR '','' \<notin> set ''libvm.so''" "''0.0.0'' \<noteq> []" by simp_all
  have o: "dll_open sample_linker ''libvm.so'' = Some 1" by (simp add: sample_linker_def)
  have c: "dll_get_create_fn sample_linker 1 (prefixed_name ''libvm.so'') = Some (qrvmc_create_example_vm ''0.0.0'')"
    by (simp add: sample_linker_def sample_name)
  have s: "store_sane (vm_instances (fresh_loader :: (example_vm, mocked_host) loader))"
    by (simp add: store_sane_def fresh_loader_def)
  obtain ld h where "tester_main sample_linker mocked_host_init (\<lambda>argv. argv) ''1'' [''vmtester'', ''libvm.so''] (fresh_loader, sample_heap) =
     Some (0, ''QRVMC VM Tester '' @ ''1'' @ newline @ ''Testing '' @ ''libvm.so'' @ newline @ newline, [], ld, h)"
    using tester_accepts_example_vm [OF p l o c s, where null_context = mocked_host_init and project_version = "''1''"
        and program = "''vmtester''" and h = sample_heap] by blast
  then show ?thesis by (intro exI [of _ ld] exI [of _ h]) simp
qed

end
