(* ===== verification/ExampleProgram.thy ===== *)
theory ExampleProgram
  imports Run Loader
begin

text \<open>
  \<^verbatim>\<open>examples/example.c\<close>: the program that gets the example VM, from a module or linked in, runs its
  bytecode on the ExampleHost and prints the outcome.
\<close>

section \<open>Definitions\<close>

text \<open>The objects of \<^verbatim>\<open>main\<close>.\<close>

definition example_gas :: i64 where
  "example_gas = 200000"

definition example_input :: "u8 list" where
  "example_input = [0x48, 0x65, 0x6c, 0x6c, 0x6f, 0x20, 0x57, 0x6f, 0x72, 0x6c, 0x64, 0x21, 0]"

definition example_value_sent :: uint256be where
  "example_value_sent = barray_init (1 # replicate 31 0)"

definition example_addr :: address where
  "example_addr = barray_init ([0, 1, 2] @ replicate 17 0)"

definition example_tx_context :: qrvmc_tx_context where
  "example_tx_context = zero_tx_context\<lparr>block_number := 42, block_timestamp := 66, block_gas_limit := example_gas * 2\<rparr>"

definition example_message :: "ptr \<Rightarrow> qrvmc_message" where
  "example_message input = zero_message\<lparr>msg_kind := QRVMC_CALL, msg_sender := example_addr, msg_recipient := example_addr,
     msg_value := example_value_sent, msg_input_data := input, msg_input_size := length example_input,
     msg_gas := example_gas, msg_depth := 0\<rparr>"

text \<open>What is printed of a result; the digits come one byte at a time.\<close>

definition print_result ::
  "qrvmc_result \<Rightarrow> example_host \<Rightarrow> heap \<Rightarrow> (int \<times> string \<times> example_host) option" where
  "print_result result ctx h =
     (if res_status_code result \<noteq> QRVMC_SUCCESS then
        Some (status_value (res_status_code result),
              ''  QRVM execution failure: '' @ decimal (status_value (res_status_code result)) @ newline, ctx)
      else do {
        gas_used \<leftarrow> i64_sub example_gas (res_gas_left result);
        output \<leftarrow> mem_read h (res_output_data result) (res_output_size result);
        let (storage_value, ctx) = get_storage example_host_get_interface ctx example_addr 0;
        Some (0, ''  Gas used: '' @ decimal (sint gas_used) @ newline @
          ''  Gas left: '' @ decimal (sint (res_gas_left result)) @ newline @
          ''  Output size: '' @ decimal (int (res_output_size result)) @ newline @
          ''  Output: '' @ hex output @ newline @
          ''  Storage at 0x00..00: '' @ hex (bytes storage_value) @ newline, ctx)
      })"

text \<open>\<^verbatim>\<open>main\<close> from line 38 on, for the VM it has; and with the two ways to get one.\<close>

definition run_example ::
  "nat \<Rightarrow> ('v, example_host) vm_store \<times> heap \<Rightarrow> (int \<times> string \<times> ('v, example_host) vm_store \<times> heap) option" where
  "run_example i = (\<lambda>(st, h). do {
     let (input, h1) = allocate Object example_input h;
     let ctx = example_host_create_context example_tx_context;
     (vm, v) \<leftarrow> instances st i;
     (result, v, ctx, h1) \<leftarrow> qrvmc_execute vm v (Some example_host_get_interface) ctx h1 QRVMC_SHANGHAI
        (example_message input) example_code;
     let st = set_data (Some i) v st;
     (exit_code, report, ctx) \<leftarrow> print_result result ctx h1;
     h1 \<leftarrow> qrvmc_release_result result h1;
     st \<leftarrow> qrvmc_destroy i st;
     Some (exit_code, ''Execution result:'' @ newline @ report, st, forget (Some (fresh h)) h1)
   })"

definition example_main ::
  "('v, example_host) linker \<Rightarrow> string list \<Rightarrow> ('v, example_host) loader \<times> heap \<Rightarrow>
   (int \<times> string \<times> ('v, example_host) loader \<times> heap) option" where
  "example_main linker argv = (\<lambda>(ld, h). do {
     let config_string = (if length argv > 1 then argv ! 1 else ''example-vm.so'');
     (vm, error_code, ld) \<leftarrow> qrvmc_load_and_configure linker config_string ld;
     (case vm of
        None \<Rightarrow> Some (loader_error_value error_code,
                      ''Loading error: '' @ decimal (loader_error_value error_code) @ newline, ld, h)
      | Some i \<Rightarrow> do {
          (exit_code, out, st, h) \<leftarrow> run_example i (vm_instances ld, h);
          Some (exit_code, out, ld\<lparr>vm_instances := st\<rparr>, h)
        })
   })"

definition example_main_static ::
  "('v, example_host) create_fn \<Rightarrow> ('v, example_host) vm_store \<times> heap \<Rightarrow>
   (int \<times> string \<times> ('v, example_host) vm_store \<times> heap) option" where
  "example_main_static create = (\<lambda>(st, h).
     (case create st of
        (None, st) \<Rightarrow> Some (loader_error_value QRVMC_LOADER_VM_CREATION_FAILURE, [], st, h)
      | (Some i, st) \<Rightarrow> do {
          (vm, v) \<leftarrow> instances st i;
          if \<not> qrvmc_is_abi_compatible vm
          then Some (loader_error_value QRVMC_LOADER_ABI_VERSION_MISMATCH, [], st, h)
          else run_example i (st, h)
        }))"

section \<open>What the program prints\<close>

definition example_lines :: string where
  "example_lines = ''  Gas used: 9'' @ newline @ ''  Gas left: 199991'' @ newline @
     ''  Output size: 32'' @ newline @ ''  Output: '' @ concat (replicate 31 ''00'') @ ''2a'' @ newline @
     ''  Storage at 0x00..00: '' @ concat (replicate 31 ''00'') @ ''2a'' @ newline"

definition example_report :: string where
  "example_report = ''Execution result:'' @ newline @ example_lines"

lemma hex_of_42: "hex (bytes (uint256_of_u32 42)) = concat (replicate 31 ''00'') @ ''2a''"
proof -
  have "uint256_of_u32 42 = barray_init (replicate 31 0 @ [42])"
    using uint256_of_u32_byte [of 42] by simp
  then have "bytes (uint256_of_u32 42) = replicate 31 0 @ [42]" by (simp add: bytes_init_full)
  moreover have "hex (replicate n 0) = concat (replicate n ''00'')" for n
    by (induction n) (simp_all add: hex_Nil hex_Cons hex_byte_def hex_digits_def)
  ultimately show ?thesis by (simp add: hex_append hex_byte_def hex_digits_def hex_Nil hex_Cons)
qed

lemma decimal_numbers: "decimal 9 = ''9''" "decimal 199991 = ''199991''" "decimal 32 = ''32''"
  by (simp_all add: decimal_def decimal_nat.simps hex_digits_def)

lemma gas_used_by_example:
  assumes "sint g = 199991"
  obtains u where "i64_sub example_gas g = Some u" and "sint u = 9"
proof -
  have "i64_range (sint example_gas - sint g)" using assms by (simp add: example_gas_def i64_range_def)
  then obtain u where "i64_sub example_gas g = Some u" by (simp add: i64_sub_def)
  with i64_sub_Some [OF this] assms show thesis by (intro that) (simp_all add: example_gas_def)
qed

lemma example_lines_printed:
  assumes "res_status_code r = QRVMC_SUCCESS" and "sint (res_gas_left r) = 199991" and "res_output_size r = 32"
    and "mem_read h (res_output_data r) 32 = Some (bytes (uint256_of_u32 42))"
    and "example_value s example_addr 0 = uint256_of_u32 42"
  shows "print_result r s h = Some (0, example_lines, s)"
proof -
  obtain g where g: "i64_sub example_gas (res_gas_left r) = Some g" "sint g = 9"
    using gas_used_by_example [OF assms(2)] .
  have "get_storage example_host_get_interface s example_addr 0 = (uint256_of_u32 42, s)"
    using example_storage.getter_val [of s example_addr 0] assms(5)
    by (simp add: example_host_storage prod_eq_iff) (simp add: eh_get_storage_def split: option.split)
  then show ?thesis
    using assms g by (simp add: print_result_def example_lines_def decimal_numbers hex_of_42 newline_def)
qed

lemma run_example_report:
  assumes "heap_wf h" and "\<And>k. granted h k 32" and "instances st i = Some (ExampleVM_init version)"
  shows "\<exists>st' h'. run_example i (st, h) = Some (0, example_report, st', h') \<and>
    held_blocks h' = held_blocks h \<and> vm_held st' = vm_held st - {i}"
proof -
  let ?msg = "example_message (Ptr (fresh h) 0)" and ?ctx = "example_host_create_context example_tx_context"
  let ?v = "uint256_of_u32 42"
  define h1 where "h1 = snd (allocate Object example_input h)"
  have fr: "blocks h (fresh h) = None" using assms(1) by (rule heap_wf_fresh)
  have h1: "allocate Object example_input h = (Ptr (fresh h) 0, h1)" "heap_wf h1" "granted h1 = granted h"
      "held_blocks h1 = held_blocks h"
    using heap_wf_allocate [OF assms(1), of Object example_input] fr
    by (auto simp: h1_def allocate_def held_blocks_def)
  have gas: "sint (msg_gas ?msg) = 200000" "msg_recipient ?msg = example_addr"
    by (simp_all add: example_message_def example_gas_def)
  have v: "uint256_of_u32 (ucast (block_number (eh_tx_context ?ctx))) = ?v"
    by (simp add: example_host_create_context_def example_host_with_def example_tx_context_def)
  obtain r s' h2 where e: "example_execute \<lparr>verbose = 0\<rparr> (Some example_host_get_interface) ?ctx h1 QRVMC_SHANGHAI ?msg example_code =
      Some (r, \<lparr>verbose = 0\<rparr>, s', h2)"
    and val: "example_value s' example_addr 0 = ?v"
    and r: "res_status_code r = QRVMC_SUCCESS" "sint (res_gas_left r) = 199991" "res_output_size r = 32"
      "mem_read h2 (res_output_data r) 32 = Some (bytes ?v)"
    using example_program_result [OF h1(2), of ?msg "\<lparr>verbose = 0\<rparr>" ?ctx QRVMC_SHANGHAI] assms(2) h1(3)
    unfolding v gas by auto
  have law: "lawful_result h1 (Some (r, h2))"
    using example_host_vm.execute_contract [OF h1(2) TrueI _ e] gas by simp
  then obtain h3 where d: "qrvmc_release_result r h2 = Some h3" "held_blocks h3 = held_blocks h1"
    using result.dtor_defined [of h2 r]
    by (auto simp: lawful_at_def Result_def result_dtor_release)
  have p: "print_result r s' h2 = Some (0, example_lines, s')" using example_lines_printed [OF r val] .
  have iv: "instances st i = Some (fst (ExampleVM_init version), \<lparr>verbose = 0\<rparr>)"
    using assms(3) by (simp add: ExampleVM_init_def)
  have x: "qrvmc_execute (fst (ExampleVM_init version)) = example_execute"
    by (simp add: qrvmc_execute_def ExampleVM_init_def fun_eq_iff)
  obtain st' where s: "qrvmc_destroy i (set_data (Some i) \<lparr>verbose = 0\<rparr> st) = Some st'" "instances st' = (instances st)(i := None)"
    using assms(3) by (simp add: qrvmc_destroy_def set_data_def ExampleVM_init_def)
  then have held: "vm_held st' = vm_held st - {i}" by (auto simp: vm_held_def deletable_def)
  have "held_blocks (forget (Some (fresh h)) h3) = held_blocks h3 - {fresh h}"
    by (auto simp: held_blocks_def forget_simps split: if_splits)
  moreover have "fresh h \<notin> held_blocks h" using fr by (simp add: held_blocks_def)
  ultimately have f: "held_blocks (forget (Some (fresh h)) h3) = held_blocks h" using d(2) h1(4) by simp
  show ?thesis
    using h1(1,4) iv e p d s(1) held f unfolding run_example_def
    by (simp add: x Let_def example_report_def)
qed

lemma example_name: "prefixed_name ''example-vm.so'' = ''qrvmc_create_example_vm''"
proof -
  have "strrchr ''example-vm.so'' CHR ''/'' = None" "strchr ''qrvmc_create_example-vm.so'' CHR ''.'' = Some ''.so''"
    by (simp_all add: strrchr_def strchr_cases)
  then show ?thesis
    by (simp add: prefixed_name_def strcpy_sx_def PATH_MAX_LENGTH_def replace_dashes_eq undash_def Let_def)
qed

text \<open>C40: the example program, end to end. Linked with the example VM, or started without arguments where
  \<^verbatim>\<open>example-vm.so\<close> holds it, it exits with zero and prints exactly this report: nine units of gas
  used, and the block number 42 as the output and in the storage slot. Afterwards the result's memory
  and the VM instance have been given back.\<close>

theorem example_program_prints:
  assumes "heap_wf h" and "\<And>k. granted h k 32" and "store_sane st" and "store_sane (vm_instances ld)"
    and "dll_open linker ''example-vm.so'' = Some handle"
    and "dll_get_create_fn linker handle ''qrvmc_create_example_vm'' = Some (qrvmc_create_example_vm version)"
  shows "(\<exists>st' h'. example_main_static (qrvmc_create_example_vm version) (st, h) = Some (0, example_report, st', h') \<and>
      held_blocks h' = held_blocks h \<and> vm_held st' = vm_held st) \<and>
    (\<exists>ld' h'. example_main linker [program] (ld, h) = Some (0, example_report, ld', h') \<and>
      held_blocks h' = held_blocks h \<and> vm_held (vm_instances ld') = vm_held (vm_instances ld))"
proof -
  have new: "\<exists>i st1 st' h'. new_instance (ExampleVM_init version) st0 = (i, st1) \<and>
      instances st1 i = Some (ExampleVM_init version) \<and>
      run_example i (st1, h) = Some (0, example_report, st', h') \<and> held_blocks h' = held_blocks h \<and> vm_held st' = vm_held st0"
    if sane: "store_sane st0" for st0
  proof -
    obtain i st1 where n: "new_instance (ExampleVM_init version) st0 = (i, st1)" by (cases "new_instance (ExampleVM_init version) st0")
    then have i: "instances st1 i = Some (ExampleVM_init version)" by (auto simp: new_instance_def)
    have "i \<notin> vm_held st0" "vm_held st1 = insert i (vm_held st0)"
      using n sane by (auto simp: new_instance_def vm_held_def deletable_def store_sane_def ExampleVM_init_def)
    with run_example_report [where st = st1, OF assms(1,2) i] n i show ?thesis by fastforce
  qed
  from new [OF assms(3)] have "\<exists>st' h'. example_main_static (qrvmc_create_example_vm version) (st, h) =
      Some (0, example_report, st', h') \<and> held_blocks h' = held_blocks h \<and> vm_held st' = vm_held st"
    by (auto simp: example_main_static_def qrvmc_create_example_vm_def qrvmc_is_abi_compatible_def ExampleVM_init_def)
  moreover obtain i st1 st' h' where n: "new_instance (ExampleVM_init version) (vm_instances ld) = (i, st1)"
    and r: "run_example i (st1, h) = Some (0, example_report, st', h')" "held_blocks h' = held_blocks h"
      "vm_held st' = vm_held (vm_instances ld)"
    using new [OF assms(4)] by blast
  obtain ld' where "qrvmc_load_and_configure linker ''example-vm.so'' ld = Some (Some i, QRVMC_LOADER_SUCCESS, ld')" "vm_instances ld' = st1"
    using load_example_vm [OF _ _ _ assms(5) _ n] assms(6) by (auto simp: example_name)
  then have "\<exists>ld' h'. example_main linker [program] (ld, h) = Some (0, example_report, ld', h') \<and>
      held_blocks h' = held_blocks h \<and> vm_held (vm_instances ld') = vm_held (vm_instances ld)"
    using r by (simp add: example_main_def)
  ultimately show ?thesis by blast
qed

definition example_linker :: "(example_vm, example_host) linker" where
  "example_linker =
     \<lparr>dll_open = (\<lambda>path. if path = ''example-vm.so'' then Some 7 else None), dll_get_error_msg = (\<lambda>path. None),
      dll_get_create_fn = (\<lambda>handle name. if name = ''qrvmc_create_example_vm'' then Some (qrvmc_create_example_vm ''1'') else None)\<rparr>"

theorem example_program_prints_witness:
  "\<exists>ld' h'. example_main example_linker [''example''] (fresh_loader, sample_heap) = Some (0, example_report, ld', h') \<and>
     held_blocks h' = {}"
proof -
  have l: "dll_open example_linker ''example-vm.so'' = Some 7"
    "dll_get_create_fn example_linker 7 ''qrvmc_create_example_vm'' = Some (qrvmc_create_example_vm ''1'')"
    by (simp_all add: example_linker_def)
  have h: "heap_wf sample_heap" "granted sample_heap k 32" "held_blocks sample_heap = {}" for k
    by (simp_all add: heap_wf_def sample_heap_def held_blocks_def)
  have s: "store_sane (vm_instances (fresh_loader :: (example_vm, example_host) loader))"
    by (simp add: store_sane_def fresh_loader_def)
  from example_program_prints [OF h(1,2) s s l, where program = "''example''"] h(3) show ?thesis by metis
qed

end
