(* ===== verification/Machine.thy ===== *)
theory Machine
  imports VMPrograms
begin

text \<open>
  An abstract machine for the programs of the example VM and the proof that the VM implements it. The
  machine has a stack that is a list of words, the bytes of its memory and an integer of gas; its
  instructions are total on them except where the VM leaves its arrays, and its steps end in a result
  that is a status, the gas left and the bytes of the output. Its Host may be a model of the real one, and
  what a call answers is a function of the machine. The locale \<open>host_model\<close> states when a model is related
  to a Host; in it \<open>represents\<close> relates the machine to a frame of \<^verbatim>\<open>ExampleVM::execute\<close>, whose stack is an
  array with a pointer and whose memory is a block of the heap, and every instruction but \<^verbatim>\<open>CALL\<close> is shown
  to keep the relation. Theory Calls adds \<^verbatim>\<open>CALL\<close>.
\<close>

section \<open>The machine\<close>

text \<open>
  The stack is a list with the top first, the memory its 1024 bytes and how many of them are in use, the
  gas an integer. A value is undefined where the VM leaves its arrays.
\<close>

record 's machine =
  mc_gas :: int
  mc_stack :: "uint256be list"
  mc_memory :: "u8 list"
  mc_size :: nat
  mc_context :: 's

datatype 's progress =
    Next nat "'s machine"
  | Halt qrvmc_status_code int "u8 list" 's

definition word_of :: "nat \<Rightarrow> uint256be" where
  "word_of n = uint256_of_u32 (of_nat n)"

definition low :: "uint256be \<Rightarrow> nat" where
  "low v = uint_of v mod 2 ^ 32"

definition mc_pop :: "'s machine \<Rightarrow> (uint256be \<times> 's machine) option" where
  "mc_pop m = (case mc_stack m of [] \<Rightarrow> None | v # st \<Rightarrow> Some (v, m\<lparr>mc_stack := st\<rparr>))"

definition mc_push :: "uint256be \<Rightarrow> 's machine \<Rightarrow> 's machine option" where
  "mc_push v m = (if length (mc_stack m) < 1024 then Some (m\<lparr>mc_stack := v # mc_stack m\<rparr>) else None)"

text \<open>A region of the memory is refused when its end, modulo \<open>2 ^ 32\<close>, is past the memory; one that is not
  refused and not inside is undefined.\<close>

definition refused :: "nat \<Rightarrow> nat \<Rightarrow> bool" where
  "refused offset n \<longleftrightarrow> (offset + n) mod 2 ^ 32 > 1024"

definition inside :: "nat \<Rightarrow> nat \<Rightarrow> bool" where
  "inside offset n \<longleftrightarrow> offset + n \<le> 1024"

definition halt :: "qrvmc_status_code \<Rightarrow> int \<Rightarrow> u8 list \<Rightarrow> 's machine \<Rightarrow> 's progress option" where
  "halt status gas out m = Some (Halt status gas out (mc_context m))"

definition mc_store :: "nat \<Rightarrow> 's machine \<Rightarrow> 's progress option" where
  "mc_store pc m = do {
     (a, m) \<leftarrow> mc_pop m;
     (v, m) \<leftarrow> mc_pop m;
     if refused (low a) 32 then halt QRVMC_FAILURE 0 [] m
     else if inside (low a) 32
     then Some (Next (Suc pc) (m\<lparr>mc_memory := patch (mc_memory m) (low a) (bytes v),
                                 mc_size := max (mc_size m) (low a + 32)\<rparr>))
     else None
   }"

definition mc_return :: "qrvmc_status_code \<Rightarrow> int \<Rightarrow> 's machine \<Rightarrow> 's progress option" where
  "mc_return status gas m = do {
     (a, m) \<leftarrow> mc_pop m;
     (n, m) \<leftarrow> mc_pop m;
     if refused (low a) (low n) then halt QRVMC_FAILURE 0 [] m
     else if inside (low a) (low n) then halt status gas (take (low n) (drop (low a) (mc_memory m))) m
     else None
   }"

text \<open>The instructions that go on with the next one: what they do to the machine.\<close>

definition mc_add :: "'s machine \<Rightarrow> 's machine option" where
  "mc_add m = do { (a, m) \<leftarrow> mc_pop m; (b, m) \<leftarrow> mc_pop m; mc_push (word_of (uint_of a + uint_of b)) m }"

definition mc_calldataload :: "u8 list \<Rightarrow> 's machine \<Rightarrow> 's machine option" where
  "mc_calldataload input m = do {
     (a, m) \<leftarrow> mc_pop m;
     mc_push (barray_init (take 32 (drop (low a) input @ replicate 32 0))) m
   }"

definition mc_number :: "'s qrvmc_host_interface \<Rightarrow> 's machine \<Rightarrow> 's machine option" where
  "mc_number host m =
     (let (tx, c) = get_tx_context host (mc_context m)
      in mc_push (uint256_of_u32 (ucast (block_number tx))) (m\<lparr>mc_context := c\<rparr>))"

definition mc_sload :: "'s qrvmc_host_interface \<Rightarrow> address \<Rightarrow> 's machine \<Rightarrow> 's machine option" where
  "mc_sload host self m = do {
     (k, m) \<leftarrow> mc_pop m;
     let (v, c) = get_storage host (mc_context m) self k;
     mc_push v (m\<lparr>mc_context := c\<rparr>)
   }"

definition mc_sstore :: "'s qrvmc_host_interface \<Rightarrow> address \<Rightarrow> 's machine \<Rightarrow> 's machine option" where
  "mc_sstore host self m = do {
     (k, m) \<leftarrow> mc_pop m;
     (v, m) \<leftarrow> mc_pop m;
     (_, c) \<leftarrow> set_storage host (mc_context m) self k v;
     Some (m\<lparr>mc_context := c\<rparr>)
   }"

definition mc_dup :: "'s machine \<Rightarrow> 's machine option" where
  "mc_dup m = do { (v, m) \<leftarrow> mc_pop m; m \<leftarrow> mc_push v m; mc_push v m }"

definition mc_push_data :: "u8 list \<Rightarrow> nat \<Rightarrow> 's machine \<Rightarrow> 's progress option" where
  "mc_push_data code pc m =
     (let n = unat (code ! pc) - OP_PUSH1 + 1 in
      if pc + n < length code
      then map_option (Next (Suc (pc + n)))
             (mc_push (barray_init (replicate (32 - n) 0 @ take n (drop (Suc pc) code))) m)
      else None)"

text \<open>What a call answers: from the state of the Host, the message without its pointer and the bytes of the
  input to the status, the bytes of the output and the new state. A machine whose Host does not say what
  a call answers stops being defined there.\<close>

type_synonym 's replies = "'s \<Rightarrow> qrvmc_message \<Rightarrow> u8 list \<Rightarrow> (qrvmc_status_code \<times> u8 list \<times> 's) option"

definition mc_call :: "'s replies \<Rightarrow> nat \<Rightarrow> 's machine \<Rightarrow> 's progress option" where
  "mc_call reply pc m = do {
     (gas, m) \<leftarrow> mc_pop m;
     (recipient, m) \<leftarrow> mc_pop m;
     (v, m) \<leftarrow> mc_pop m;
     (i, m) \<leftarrow> mc_pop m;
     (i_size, m) \<leftarrow> mc_pop m;
     (ofs, m) \<leftarrow> mc_pop m;
     (o_size, m) \<leftarrow> mc_pop m;
     if refused (low i) (low i_size) \<or> refused (low ofs) (low o_size) then halt QRVMC_FAILURE 0 [] m
     else if inside (low i) (low i_size) \<and> inside (low ofs) (low o_size) then do {
       (status, out, c) \<leftarrow> reply (mc_context m)
          (zero_message\<lparr>msg_gas := of_nat (low gas), msg_recipient := to_address recipient, msg_value := v,
                        msg_input_size := low i_size\<rparr>)
          (take (low i_size) (drop (low i) (mc_memory m)));
       m \<leftarrow> mc_push (word_of (if status = QRVMC_SUCCESS then 1 else 0))
          (m\<lparr>mc_context := c, mc_size := max (max (mc_size m) (low i + low i_size)) (low ofs + low o_size)\<rparr>);
       Some (Next (Suc pc) (m\<lparr>mc_memory := patch (mc_memory m) (low ofs) (take (low o_size) out)\<rparr>))
     } else None
   }"

definition mc_instruction ::
  "'s qrvmc_host_interface \<Rightarrow> 's replies \<Rightarrow> address \<Rightarrow> u8 list \<Rightarrow> u8 list \<Rightarrow> nat \<Rightarrow> 's machine \<Rightarrow> 's progress option" where
  "mc_instruction host reply self input code pc m =
     (let opcode = unat (code ! pc); go_on = map_option (Next (Suc pc)) in
      if opcode = OP_STOP then halt QRVMC_SUCCESS (mc_gas m) [] m
      else if opcode = OP_ADD then go_on (mc_add m)
      else if opcode = OP_ADDRESS then go_on (mc_push (uint256_of_address self) m)
      else if opcode = OP_CALLDATALOAD then go_on (mc_calldataload input m)
      else if opcode = OP_NUMBER then go_on (mc_number host m)
      else if opcode = OP_MSTORE then mc_store pc m
      else if opcode = OP_SLOAD then go_on (mc_sload host self m)
      else if opcode = OP_SSTORE then go_on (mc_sstore host self m)
      else if opcode = OP_MSIZE then go_on (mc_push (word_of (mc_size m)) m)
      else if OP_PUSH1 \<le> opcode \<and> opcode \<le> OP_PUSH32 then mc_push_data code pc m
      else if opcode = OP_DUP1 then go_on (mc_dup m)
      else if opcode = OP_CALL then mc_call reply pc m
      else if opcode = OP_RETURN then mc_return QRVMC_SUCCESS (mc_gas m) m
      else if opcode = OP_REVERT then mc_return QRVMC_REVERT (mc_gas m) m
      else halt QRVMC_UNDEFINED_INSTRUCTION 0 [] m)"

definition mc_step ::
  "'s qrvmc_host_interface \<Rightarrow> 's replies \<Rightarrow> address \<Rightarrow> u8 list \<Rightarrow> u8 list \<Rightarrow> nat \<Rightarrow> 's machine \<Rightarrow> 's progress option" where
  "mc_step host reply self input code pc m =
     (let m = m\<lparr>mc_gas := mc_gas m - 1\<rparr> in
      if mc_gas m < 0 then Some (Halt QRVMC_OUT_OF_GAS 0 [] (mc_context m))
      else mc_instruction host reply self input code pc m)"

lemma mc_step_pc: "mc_step host reply self input code pc m = Some (Next pc' m') \<Longrightarrow> pc < pc'"
  by (auto simp: mc_step_def mc_instruction_def mc_store_def mc_return_def mc_call_def mc_push_data_def halt_def
      Let_def bind_eq_Some_conv split: if_split_asm)

function mc_run ::
  "'s qrvmc_host_interface \<Rightarrow> 's replies \<Rightarrow> address \<Rightarrow> u8 list \<Rightarrow> u8 list \<Rightarrow> nat \<Rightarrow> 's machine \<Rightarrow>
   (qrvmc_status_code \<times> int \<times> u8 list \<times> 's) option" where
  "mc_run host reply self input code pc m =
     (if pc < length code then
        (case mc_step host reply self input code pc m of
           None \<Rightarrow> None
         | Some (Halt status gas output c) \<Rightarrow> Some (status, gas, output, c)
         | Some (Next pc' m') \<Rightarrow> mc_run host reply self input code pc' m')
      else Some (QRVMC_SUCCESS, mc_gas m, [], mc_context m))"
  by pat_completeness auto
termination
  by (relation "measure (\<lambda>(host, reply, self, input, code, pc, m). length code - pc)") (auto dest: mc_step_pc)

declare mc_run.simps [simp del]

definition mc_init :: "int \<Rightarrow> 's \<Rightarrow> 's machine" where
  "mc_init gas c = \<lparr>mc_gas = gas, mc_stack = [], mc_memory = replicate 1024 0, mc_size = 0, mc_context = c\<rparr>"

section \<open>The frames that represent a machine\<close>

text \<open>The heap while a program runs that was started in the heap \<open>h\<close>: the blocks of \<open>h\<close> are there unchanged,
  the buffer of the memory is the block allocated first and holds the bytes \<open>bs\<close>, and there may be objects
  of the Host. Every request for memory is granted.\<close>

definition holds :: "heap \<Rightarrow> u8 list \<Rightarrow> heap \<Rightarrow> bool" where
  "holds h bs hp \<longleftrightarrow>
     extends_heap h (fresh h) hp \<and> blocks hp (fresh h) = Some (Object, bs) \<and> (\<forall>k n. granted hp k n)"

lemma holds_length: "holds h bs hp \<Longrightarrow> length bs = 1024"
  by (auto simp: holds_def extends_heap_def memory_capacity_def)

lemma holds_initial:
  assumes "heap_wf h" and "\<And>k n. granted h k n" and "length bs = 1024"
  shows "holds h bs (snd (allocate Object bs h))"
proof -
  have "blocks h (fresh h) = None" using assms(1) by (rule heap_wf_fresh)
  moreover from this have "held_blocks (snd (allocate Object bs h)) = held_blocks h"
    by (auto simp: held_blocks_def allocate_def)
  ultimately show ?thesis
    using assms heap_wf_allocate [OF assms(1), of Object bs]
    by (auto simp: holds_def extends_heap_def allocate_def memory_capacity_def)
qed

lemma holds_input:
  assumes "holds h bs hp" and "mem_read h p n = Some input"
  shows "mem_read hp p n = Some input"
  using assms by (intro mem_read_cong [OF _ assms(2)]) (auto simp: holds_def extends_heap_def)

lemma mem_read_prefix: "mem_read h p n = Some bs \<Longrightarrow> k \<le> n \<Longrightarrow> mem_read h p k = Some (take k bs)"
  by (cases p) (fastforce simp: mem_read_def region_def bind_eq_Some_conv min_def split: if_split_asm)+

lemma holds_read:
  assumes "holds h bs hp"
  shows "mem_read hp (Ptr (fresh h) off) n =
    (if n = 0 then Some [] else if off + n \<le> 1024 then Some (take n (drop off bs)) else None)"
  using assms holds_length [OF assms] by (simp add: mem_read_def region_def holds_def)

lemma holds_write:
  assumes "holds h bs hp"
  shows "if off + length src \<le> 1024
    then \<exists>hp'. mem_write hp (Ptr (fresh h) off) src = Some hp' \<and> holds h (patch bs off src) hp'
    else src \<noteq> [] \<longrightarrow> mem_write hp (Ptr (fresh h) off) src = None"
proof (cases "src = []")
  case True
  then show ?thesis using assms by (simp add: mem_write_def)
next
  case False
  let ?hp = "hp\<lparr>blocks := (blocks hp)(fresh h \<mapsto> (Object, patch bs off src))\<rparr>"
  have l: "length bs = 1024" by (rule holds_length [OF assms])
  have w: "mem_write hp (Ptr (fresh h) off) src = (if off + length src \<le> 1024 then Some ?hp else None)"
    using assms False l by (simp add: mem_write_def holds_def copy_into_def)
  have "holds h (patch bs off src) ?hp" if "off + length src \<le> 1024"
  proof -
    have "writes_buffer (fresh h) hp ?hp"
      unfolding writes_buffer_def
      by (rule exI [of _ "patch bs off src"]) (use that l in \<open>simp add: memory_capacity_def length_patch\<close>)
    with assms show ?thesis using writes_extends by (auto simp: holds_def)
  qed
  then show ?thesis using w by simp
qed

lemma rel_option_bind:
  "rel_option R a b \<Longrightarrow> (\<And>x y. R x y \<Longrightarrow> rel_option S (f x) (g y)) \<Longrightarrow> rel_option S (Option.bind a f) (Option.bind b g)"
  by (cases a; cases b) auto

lemma rel_option_cases:
  assumes "rel_option R a b"
  obtains (none) "a = None" "b = None" | (some) x y where "a = Some x" "b = Some y" "R x y"
  using assms that by (cases a; cases b) auto

text \<open>The implementation may be defined where the machine is not, unless the relation is exact.\<close>

definition sim :: "bool \<Rightarrow> ('a \<Rightarrow> 'b \<Rightarrow> bool) \<Rightarrow> 'a option \<Rightarrow> 'b option \<Rightarrow> bool" where
  "sim exact R a b \<longleftrightarrow> rel_option R a b \<or> \<not> exact \<and> b = None"

lemma sim_cases:
  assumes "sim e R a b"
  obtains (none) "a = None" "b = None" | (undefined) "\<not> e" "b = None" | (some) x y where "a = Some x" "b = Some y" "R x y"
  using assms that unfolding sim_def by (cases a; cases b) auto

lemma sim_simps [simp]:
  "sim e R (Some x) (Some y) \<longleftrightarrow> R x y" "sim e R a None \<longleftrightarrow> \<not> e \<or> a = None" "\<not> sim e R None (Some y)"
  by (cases a; simp add: sim_def)+

lemma step_gas_sign:
  assumes "mc_step host reply self input code pc m = Some (Next pc' m')"
  shows "0 \<le> mc_gas m'"
  using assms
  by (auto simp: mc_step_def mc_instruction_def mc_store_def mc_return_def mc_push_data_def halt_def Let_def mc_add_def
      mc_calldataload_def mc_number_def mc_sload_def mc_sstore_def mc_dup_def mc_call_def mc_pop_def mc_push_def
      bind_eq_Some_conv split: if_split_asm list.split_asm prod.split_asm)

lemma unat_add_u32: "unat (a + b :: u32) = (unat a + unat b) mod 2 ^ 32"
  by (simp add: unat_word_ariths)

text \<open>
  A Host and a model of it that is related to it by \<open>same\<close>: related states report the same block number and
  the same values in storage, writes succeed together, and all three keep the relation. The frame
  represents the machine when the state of its Host is related to the state of the model.
\<close>

locale host_model =
  fixes host :: "'s qrvmc_host_interface" and model :: "'w qrvmc_host_interface" and same :: "'s \<Rightarrow> 'w \<Rightarrow> bool"
  assumes same_tx: "same s w \<Longrightarrow> block_number (fst (get_tx_context host s)) = block_number (fst (get_tx_context model w)) \<and>
      same (snd (get_tx_context host s)) (snd (get_tx_context model w))"
    and same_get: "same s w \<Longrightarrow> fst (get_storage host s a k) = fst (get_storage model w a k) \<and>
      same (snd (get_storage host s a k)) (snd (get_storage model w a k))"
    and same_set: "same s w \<Longrightarrow>
      rel_option (\<lambda>(_, s') (_, w'). same s' w') (set_storage host s a k v) (set_storage model w a k v)"
begin

definition represents :: "heap \<Rightarrow> 's frame \<Rightarrow> 'w machine \<Rightarrow> bool" where
  "represents h f m \<longleftrightarrow> mc_size m \<le> 1024 \<and> same (fr_context f) (mc_context m) \<and>
     (\<exists>hp. holds h (mc_memory m) hp \<and>
        frame_is f (mc_gas m) (mc_stack m) \<lparr>memory_size = of_nat (mc_size m), memory_data = fresh h\<rparr> (fr_context f) hp)"

text \<open>Popping and pushing keep the relation, and are undefined together.\<close>

definition rel_value :: "heap \<Rightarrow> uint256be \<times> 's frame \<Rightarrow> uint256be \<times> 'w machine \<Rightarrow> bool" where
  "rel_value h = (\<lambda>(v, f) (w, m). v = w \<and> represents h f m)"

lemma stack_length: "frame_is f g st mem c h \<Longrightarrow> length st = stack_pointer (fr_stack f) \<and> length st \<le> 1024"
  by (auto simp: frame_is_def stack_of_def height_def stack_wf_def)

lemma rel_pop: "represents h f m \<Longrightarrow> rel_option (rel_value h) (fr_pop f) (mc_pop m)"
proof (cases "mc_stack m")
  case Nil
  assume r: "represents h f m"
  then have "stack_pointer (fr_stack f) = 0" using Nil stack_length by (fastforce simp: represents_def)
  then show ?thesis using Nil by (simp add: fr_pop_def pop_def mc_pop_def)
next
  case (Cons v st)
  assume "represents h f m"
  then obtain hp where h: "mc_size m \<le> 1024" "same (fr_context f) (mc_context m)" "holds h (mc_memory m) hp" and
    "frame_is f (mc_gas m) (v # st) \<lparr>memory_size = of_nat (mc_size m), memory_data = fresh h\<rparr> (fr_context f) hp"
    using Cons by (auto simp: represents_def)
  then obtain f' where "fr_pop f = Some (v, f')"
    "frame_is f' (mc_gas m) st \<lparr>memory_size = of_nat (mc_size m), memory_data = fresh h\<rparr> (fr_context f) hp"
    using pop_frame by metis
  then show ?thesis using Cons h by (auto simp: mc_pop_def rel_value_def represents_def frame_is_def)
qed

lemma rel_push: "represents h f m \<Longrightarrow> rel_option (represents h) (fr_push v f) (mc_push v m)"
proof (cases "length (mc_stack m) < 1024")
  case False
  assume r: "represents h f m"
  then have "stack_pointer (fr_stack f) = 1024" "stack_wf (fr_stack f)"
    using False stack_length by (fastforce simp: represents_def frame_is_def)+
  then show ?thesis using False by (simp add: fr_push_def push_def mc_push_def stack_wf_def)
next
  case True
  assume "represents h f m"
  then obtain hp where h: "mc_size m \<le> 1024" "same (fr_context f) (mc_context m)" "holds h (mc_memory m) hp" and
    "frame_is f (mc_gas m) (mc_stack m) \<lparr>memory_size = of_nat (mc_size m), memory_data = fresh h\<rparr> (fr_context f) hp"
    by (auto simp: represents_def)
  then obtain f' where "fr_push v f = Some f'"
    "frame_is f' (mc_gas m) (v # mc_stack m) \<lparr>memory_size = of_nat (mc_size m), memory_data = fresh h\<rparr> (fr_context f) hp"
    using push_frame True by metis
  then show ?thesis using True h by (auto simp: mc_push_def represents_def frame_is_def)
qed

lemma rel_context: "represents h f m \<Longrightarrow> same c d \<Longrightarrow> represents h (f\<lparr>fr_context := c\<rparr>) (m\<lparr>mc_context := d\<rparr>)"
  by (auto simp: represents_def frame_is_def stack_of_def height_def)

lemma represents_fields:
  assumes "represents h f m"
  shows "same (fr_context f) (mc_context m)" "sint (fr_gas f) = mc_gas m" "holds h (mc_memory m) (fr_heap f)"
    "fr_memory f = \<lparr>memory_size = of_nat (mc_size m), memory_data = fresh h\<rparr>"
  using assms by (auto simp: represents_def frame_is_def)

lemma low_to_uint32: "low v = unat (to_uint32 v)"
  by (simp add: low_def unat_to_uint32)

lemma add_low: "uint256_of_u32 (to_uint32 a + to_uint32 b) = word_of (uint_of a + uint_of b)"
proof -
  have "to_uint32 v = of_nat (uint_of v)" for v
    by (rule word_unat_eq_iff [THEN iffD2]) (simp add: unat_to_uint32 unat_of_nat)
  then show ?thesis by (simp add: word_of_def)
qed

section \<open>Instructions\<close>

lemma rel_pop_bind:
  assumes "represents h f m" and "\<And>v f m. represents h f m \<Longrightarrow> rel_option S (F v f) (G v m)"
  shows "rel_option S (fr_pop f \<bind> (\<lambda>(v, f). F v f)) (mc_pop m \<bind> (\<lambda>(v, m). G v m))"
  by (rule rel_option_bind [OF rel_pop [OF assms(1)]]) (auto simp: rel_value_def assms(2))

lemma rel_push_bind:
  assumes "represents h f m" and "\<And>f m. represents h f m \<Longrightarrow> rel_option S (F f) (G m)"
  shows "rel_option S (fr_push v f \<bind> F) (mc_push v m \<bind> G)"
  by (rule rel_option_bind [OF rel_push [OF assms(1)] assms(2)])

lemma rel_add:
  assumes "represents h f m"
  shows "rel_option (represents h) (op_add f) (mc_add m)"
  unfolding op_add_def mc_add_def Let_def add_low [symmetric]
  by (rule rel_pop_bind [OF assms], rule rel_pop_bind, assumption, rule rel_push)

lemma rel_sload:
  assumes "represents h f m"
  shows "rel_option (represents h) (op_sload (Some host) msg f) (mc_sload model (msg_recipient msg) m)"
  unfolding op_sload_def mc_sload_def Option.bind.simps Let_def split_beta
proof (rule rel_pop_bind [OF assms, unfolded split_beta])
  fix k f m
  assume r: "represents h f (m :: 'w machine)"
  let ?a = "msg_recipient msg"
  have v: "fst (get_storage host (fr_context f) ?a k) = fst (get_storage model (mc_context m) ?a k)"
    and "same (snd (get_storage host (fr_context f) ?a k)) (snd (get_storage model (mc_context m) ?a k))"
    using same_get [OF represents_fields(1) [OF r]] by auto
  from rel_push [OF rel_context [OF r this(2)]] show "rel_option (represents h)
     (fr_push (fst (get_storage host (fr_context f) ?a k)) (f\<lparr>fr_context := snd (get_storage host (fr_context f) ?a k)\<rparr>))
     (mc_push (fst (get_storage model (mc_context m) ?a k)) (m\<lparr>mc_context := snd (get_storage model (mc_context m) ?a k)\<rparr>))"
    unfolding v .
qed

lemma rel_sstore:
  assumes "represents h f m"
  shows "rel_option (represents h) (op_sstore (Some host) msg f) (mc_sstore model (msg_recipient msg) m)"
  unfolding op_sstore_def mc_sstore_def Option.bind.simps
proof (rule rel_pop_bind [OF assms], rule rel_pop_bind, assumption)
  fix k v f m
  assume r: "represents h f (m :: 'w machine)"
  show "rel_option (represents h)
     (set_storage host (fr_context f) (msg_recipient msg) k v \<bind> (\<lambda>(status, c). Some (f\<lparr>fr_context := c\<rparr>)))
     (set_storage model (mc_context m) (msg_recipient msg) k v \<bind> (\<lambda>(_, c). Some (m\<lparr>mc_context := c\<rparr>)))"
    by (rule rel_option_bind [OF same_set [OF represents_fields(1) [OF r]]]) (auto intro: rel_context [OF r])
qed

lemma rel_number:
  assumes r: "represents h f m"
  shows "rel_option (represents h) (op_number (Some host) f) (mc_number model m)"
  using same_tx [OF represents_fields(1) [OF r]] rel_push [OF rel_context [OF r]]
  by (simp add: op_number_def mc_number_def Let_def split_beta)

lemma rel_msize:
  assumes "represents h f m"
  shows "rel_option (represents h) (fr_push (uint256_of_u32 (memory_size (fr_memory f))) f)
    (mc_push (word_of (mc_size m)) m)"
  using rel_push [OF assms] by (simp add: represents_fields(4) [OF assms] word_of_def)

lemma rel_dup1:
  assumes "represents h f m"
  shows "rel_option (represents h) (op_dup1 f) (mc_dup m)"
  unfolding op_dup1_def mc_dup_def by (rule rel_pop_bind [OF assms], rule rel_push_bind, assumption, rule rel_push)

lemma rel_instruction_data:
  assumes "represents h f m" and "OP_PUSH1 \<le> unat (code ! pc)" and "unat (code ! pc) \<le> OP_PUSH32"
    and n: "n = unat (code ! pc) - OP_PUSH1 + 1"
  shows "rel_option (\<lambda>(pc', f) m. pc' = pc + n \<and> represents h f m) (op_push code pc f)
    (if pc + n < length code
     then mc_push (barray_init (replicate (32 - n) 0 @ take n (drop (Suc pc) code))) m else None)"
proof (cases "pc + n < length code")
  case False
  then show ?thesis using n by (simp add: op_push_def region_def)
next
  case True
  have n32: "n \<le> 32" using assms by simp
  define d where "d = take n (drop (Suc pc) code)"
  have d: "region (pc + 1) n code = Some d" "length d = n" using True by (simp_all add: region_def d_def)
  have "copy_into (bytes (0 :: uint256be)) (32 - n) d = Some (replicate (32 - n) 0 @ d)"
    using n32 d(2) by (simp add: copy_into_def patch_def bytes_zero min_def)
  then have "op_push code pc f = fr_push (barray_init (replicate (32 - n) 0 @ d)) f \<bind> (\<lambda>f. Some (pc + n, f))"
    using d(1) n by (simp add: op_push_def Let_def)
  moreover have "rel_option (\<lambda>(pc', f) m. pc' = pc + n \<and> represents h f m)
      (fr_push v f \<bind> (\<lambda>f. Some (pc + n, f))) (mc_push v m)" for v
    using rel_push [OF assms(1), of v] by (cases "fr_push v f"; cases "mc_push v m") auto
  ultimately show ?thesis using True by (simp add: d_def)
qed

text \<open>Instructions that read the input: the heap holds the bytes of the input next to the buffer.\<close>

lemma represents_input:
  assumes "represents h f m" and "mem_read h p n = Some input" and "k \<le> n"
  shows "mem_read (fr_heap f) p k = Some (take k input)"
  by (rule mem_read_prefix [OF holds_input [OF represents_fields(3) [OF assms(1)] assms(2)] assms(3)])

lemma rel_calldataload:
  assumes "represents h f m" and i: "mem_read h (msg_input_data msg) (msg_input_size msg) = Some input"
  shows "rel_option (represents h) (op_calldataload msg f) (mc_calldataload input m)"
  unfolding op_calldataload_def mc_calldataload_def
proof (rule rel_pop_bind [OF assms(1)])
  fix a f m
  assume r: "represents h f (m :: 'w machine)"
  have len: "length input = msg_input_size msg" using i by (rule mem_read_length)
  let ?o = "unat (to_uint32 a)" and ?n = "min (msg_input_size msg - unat (to_uint32 a)) 32"
  let ?v = "barray_init (take 32 (drop (low a) input @ replicate 32 0)) :: uint256be"
  have v: "(if ?o < msg_input_size msg
     then mem_read (fr_heap f) (msg_input_data msg) (?o + ?n) \<bind>
            (\<lambda>inp. copy_into (bytes (0 :: uint256be)) 0 (drop ?o inp) \<bind> (\<lambda>bs. Some (barray_init bs)))
     else Some 0) = Some ?v"
  proof (cases "?o < msg_input_size msg")
    case False
    then show ?thesis using len barray_init_trailing_zeros [of "[]" 32, where 'n = 32]
      by (simp add: low_to_uint32 zero_barray_def)
  next
    case True
    then have "mem_read (fr_heap f) (msg_input_data msg) (?o + ?n) = Some (take (?o + ?n) input)"
      using represents_input [OF r i, of "?o + ?n"] by simp
    moreover have "copy_into (bytes (0 :: uint256be)) 0 (take ?n (drop ?o input)) =
        Some (take 32 (drop ?o input @ replicate 32 0))"
      using True len by (auto simp: copy_into_def patch_def bytes_zero min_def)
    ultimately show ?thesis using True by (simp add: low_to_uint32 drop_take)
  qed
  show "rel_option (represents h)
      (let offset = to_uint32 a; value0 = (0 :: uint256be) in
       (if unat offset < msg_input_size msg then
          let copy_size = min (msg_input_size msg - unat offset) 32 in
          mem_read (fr_heap f) (msg_input_data msg) (unat offset + copy_size) \<bind>
          (\<lambda>inp. copy_into (bytes value0) 0 (drop (unat offset) inp) \<bind>
          (\<lambda>value_bytes. Some (barray_init value_bytes)))
        else Some value0) \<bind> (\<lambda>v. fr_push v f))
      (mc_push ?v m)"
    unfolding Let_def v Option.bind.simps by (rule rel_push [OF r])
qed

text \<open>What a returned result must say, with the buffer given back.\<close>

definition result_says ::
  "heap \<Rightarrow> qrvmc_result \<times> 's \<times> heap \<Rightarrow> qrvmc_status_code \<times> int \<times> u8 list \<times> 'w \<Rightarrow> bool" where
  "result_says h = (\<lambda>(r, c, h') (status, gas, out, c').
     res_status_code r = status \<and> sint (res_gas_left r) = gas \<and> res_gas_refund r = 0 \<and> same c c' \<and>
     res_output_size r = length out \<and>
     mem_read (forget (Some (fresh h)) h') (res_output_data r) (length out) = Some out)"

fun rel_progress :: "heap \<Rightarrow> 's outcome \<Rightarrow> 'w progress \<Rightarrow> bool" where
  "rel_progress h (Continue pc f) (Next pc' m) \<longleftrightarrow> pc' = Suc pc \<and> represents h f m"
| "rel_progress h (Return r c h') (Halt status gas out c') \<longleftrightarrow> result_says h (r, c, h') (status, gas, out, c')"
| "rel_progress h _ _ \<longleftrightarrow> False"

text \<open>Both regions of \<^verbatim>\<open>expand\<close>.\<close>

lemma represents_expand:
  assumes "represents h f m"
  shows "if refused (unat off) (unat n) then expand off n (fr_memory f) = (Null, fr_memory f)
    else \<exists>mem. expand off n (fr_memory f) = (Ptr (fresh h) (unat off), mem) \<and> memory_data mem = fresh h \<and>
           (inside (unat off) (unat n) \<longrightarrow> unat (memory_size mem) = max (mc_size m) (unat off + unat n))"
proof -
  have m: "fr_memory f = \<lparr>memory_size = of_nat (mc_size m), memory_data = fresh h\<rparr>"
    by (rule represents_fields(4) [OF assms])
  have "mc_size m \<le> 1024" using assms by (simp add: represents_def)
  then have s: "unat (of_nat (mc_size m) :: u32) = mc_size m" by (simp add: unat_of_nat)
  show ?thesis
    by (auto simp: expand_def m refused_def inside_def unat_add_u32 memory_capacity_def word_less_nat_alt s
        Let_def max_def)
qed

text \<open>A result without output, and one whose output is read from the buffer.\<close>

lemma rel_return_nothing:
  assumes "represents h f m" and "sint gas = g"
  shows "rel_option (rel_progress h) (return_result status gas Null 0 f) (halt status g [] m)"
  using assms by (simp add: return_result_def halt_def make_result_no_output result_says_def zero_result_def represents_fields(1)
      mem_read_def)

lemma rel_return_bytes:
  assumes r: "represents h f m" and g: "sint gas = g" and off: "off < 2 ^ 32" and n: "\<not> refused off n"
  shows "rel_option (rel_progress h) (return_result status gas (Ptr (fresh h) off) n f)
    (if inside off n then halt status g (take n (drop off (mc_memory m))) m else None)"
proof (cases "n = 0")
  case True
  then have "inside off n" using off n by (simp add: inside_def refused_def)
  then show ?thesis using True rel_return_nothing [OF r g, of status]
    by (simp add: return_result_def make_result_no_output)
next
  case False
  have h: "holds h (mc_memory m) (fr_heap f)" by (rule represents_fields(3) [OF r])
  then have wf: "heap_wf (fr_heap f)" and gr: "\<And>k i. granted (fr_heap f) k i" by (auto simp: holds_def extends_heap_def)
  have b: "fresh (fr_heap f) \<noteq> fresh h" using h heap_wf_fresh [OF wf] by (auto simp: holds_def)
  show ?thesis
  proof (cases "inside off n")
    case True
    define out where "out = take n (drop off (mc_memory m))"
    have l: "length out = n" using True holds_length [OF h] by (simp add: out_def inside_def)
    have rd: "mem_read (fr_heap f) (Ptr (fresh h) off) n = Some out"
      using holds_read [OF h] True False by (simp add: inside_def out_def)
    have "mem_read (forget (Some (fresh h)) (snd (allocate Malloc out (fr_heap f)))) (Ptr (fresh (fr_heap f)) 0) n = Some out"
      using l False b by (simp add: mem_read_def forget_simps allocate_def region_def)
    then show ?thesis
      using True make_result_output [OF wf False gr rd, of status gas 0] l g
      by (simp add: return_result_def halt_def result_says_def zero_result_def represents_fields(1) [OF r] out_def [symmetric])
  next
    case out: False
    have "mem_read (fr_heap f) (Ptr (fresh h) off) n = None"
      using holds_read [OF h] False out by (simp add: inside_def)
    then have "mem_read (snd (malloc n (fr_heap f))) (Ptr (fresh h) off) n = None"
      using gr b False by (simp add: malloc_def allocate_def mem_read_def)
    then have "qrvmc_make_result status gas 0 (Ptr (fresh h) off) n (fr_heap f) = None"
      using False gr by (simp add: qrvmc_make_result_def malloc_def allocate_def Let_def)
    then show ?thesis using out by (simp add: return_result_def)
  qed
qed

text \<open>Storing bytes that are given by a reader.\<close>

lemma store_inside:
  assumes r: "represents h f m" and i: "inside (unat off) (unat n)" and src: "src (unat n) = Some bs" "length bs = unat n"
  obtains f' where "fr_store off src n f = Some (True, f')"
    and "represents h f' (m\<lparr>mc_memory := patch (mc_memory m) (unat off) bs, mc_size := max (mc_size m) (unat off + unat n)\<rparr>)"
    and "fr_context f' = fr_context f"
proof -
  have "\<not> refused (unat off) (unat n)" using i by (simp add: inside_def refused_def)
  then obtain mem where x: "expand off n (fr_memory f) = (Ptr (fresh h) (unat off), mem)" "memory_data mem = fresh h"
    and s: "unat (memory_size mem) = max (mc_size m) (unat off + unat n)"
    using represents_expand [OF r, of off n] i by auto
  have mem: "mem = \<lparr>memory_size = of_nat (max (mc_size m) (unat off + unat n)), memory_data = fresh h\<rparr>"
    using x(2) s [symmetric] by simp
  have sz: "mc_size m \<le> 1024" using r by (simp add: represents_def)
  define d where "d = patch (mc_memory m) (unat off) bs"
  obtain hp where w: "mem_write (fr_heap f) (Ptr (fresh h) (unat off)) bs = Some hp" "holds h d hp"
    using holds_write [OF represents_fields(3) [OF r], of "unat off" bs] i src(2) by (auto simp: inside_def d_def)
  then have "fr_store off src n f = Some (True, f\<lparr>fr_memory := mem, fr_heap := hp\<rparr>)"
    using x src by (simp add: fr_store_def memory_store_def)
  moreover have "represents h (f\<lparr>fr_memory := mem, fr_heap := hp\<rparr>)
      (m\<lparr>mc_memory := d, mc_size := max (mc_size m) (unat off + unat n)\<rparr>)"
    using r sz i w(2) by (auto simp: represents_def frame_is_def stack_of_def height_def mem inside_def)
  ultimately show thesis using that by (simp add: d_def)
qed

lemma store_outside:
  assumes r: "represents h f m" and "\<not> inside (unat off) 32"
  shows "fr_store off (\<lambda>n. region 0 n (bytes (v :: uint256be))) 32 f = (if refused (unat off) 32 then Some (False, f) else None)"
proof (cases "refused (unat off) 32")
  case True
  then show ?thesis
    using represents_expand [OF r, of off 32] by (auto simp: fr_store_def memory_store_def Let_def)
next
  case False
  then obtain mem where x: "expand off 32 (fr_memory f) = (Ptr (fresh h) (unat off), mem)"
    using represents_expand [OF r, of off 32] by auto
  have "length (bytes v) = 32" by simp
  moreover from this have "bytes v \<noteq> []" by (metis list.size(3) zero_neq_numeral)
  ultimately have "mem_write (fr_heap f) (Ptr (fresh h) (unat off)) (bytes v) = None"
    using holds_write [OF represents_fields(3) [OF r], of "unat off" "bytes v"] assms(2) by (simp add: inside_def)
  then show ?thesis using x False by (simp add: fr_store_def memory_store_def region_def)
qed

lemma rel_mstore:
  assumes r: "represents h f m"
  shows "rel_option (rel_progress h) (op_mstore pc f) (mc_store pc m)"
  unfolding op_mstore_def mc_store_def
proof (rule rel_pop_bind [OF r], unfold Let_def, rule rel_pop_bind, assumption)
  fix a v :: uint256be and f and m :: "'w machine"
  assume r: "represents h f m"
  let ?o = "to_uint32 a"
  show "rel_option (rel_progress h)
     (fr_store ?o (\<lambda>n. region 0 n (bytes v)) 32 f \<bind>
        (\<lambda>(ok, f). if \<not> ok then return_result QRVMC_FAILURE 0 Null 0 f else Some (Continue pc f)))
     (if refused (low a) 32 then halt QRVMC_FAILURE 0 [] m
      else if inside (low a) 32
      then Some (Next (Suc pc) (m\<lparr>mc_memory := patch (mc_memory m) (low a) (bytes v), mc_size := max (mc_size m) (low a + 32)\<rparr>))
      else None)"
  proof (cases "inside (unat ?o) 32")
    case False
    then show ?thesis
      using store_outside [OF r False, of v] rel_return_nothing [OF r, of 0 0] by (simp add: low_to_uint32)
  next
    case True
    then have nr: "\<not> refused (unat ?o) 32" by (simp add: inside_def refused_def)
    obtain f' where "fr_store ?o (\<lambda>n. region 0 n (bytes v)) 32 f = Some (True, f')"
      "represents h f' (m\<lparr>mc_memory := patch (mc_memory m) (unat ?o) (bytes v),
         mc_size := max (mc_size m) (unat ?o + 32)\<rparr>)"
      using store_inside [OF r, of ?o 32 "\<lambda>n. region 0 n (bytes v)" "bytes v"] True by (auto simp: region_def)
    then show ?thesis using True nr by (simp add: low_to_uint32)
  qed
qed

lemma rel_return:
  assumes r: "represents h f m" and "sint gas = g"
  shows "rel_option (rel_progress h) (op_return status gas f) (mc_return status g m)"
  unfolding op_return_def mc_return_def
proof (rule rel_pop_bind [OF r], unfold Let_def, rule rel_pop_bind, assumption)
  fix a n f m
  assume r: "represents h f (m :: 'w machine)"
  show "rel_option (rel_progress h)
     (case fr_expand (to_uint32 a) (to_uint32 n) f of
        (p, f) \<Rightarrow> if p = Null then return_result QRVMC_FAILURE 0 Null 0 f
                  else return_result status gas p (unat (to_uint32 n)) f)
     (if refused (low a) (low n) then halt QRVMC_FAILURE 0 [] m
      else if inside (low a) (low n)
      then halt status g (take (low n) (drop (low a) (mc_memory m))) m
      else None)"
  proof (cases "refused (low a) (low n)")
    case True
    then show ?thesis
      using represents_expand [OF r, of "to_uint32 a" "to_uint32 n"] rel_return_nothing [OF r, of 0 0]
      by (simp add: low_to_uint32 fr_expand_def)
  next
    case False
    then obtain mem where "fr_expand (to_uint32 a) (to_uint32 n) f = (Ptr (fresh h) (low a), f\<lparr>fr_memory := mem\<rparr>)"
      using represents_expand [OF r, of "to_uint32 a" "to_uint32 n"] by (auto simp: low_to_uint32 fr_expand_def)
    moreover have "return_result status gas p k (f\<lparr>fr_memory := mem\<rparr>) = return_result status gas p k f" for p k
      by (simp add: return_result_def)
    moreover have "low a < 2 ^ 32" by (simp add: low_def)
    ultimately show ?thesis
      using rel_return_bytes [OF r assms(2) _ False, of status] False by (simp add: low_to_uint32)
  qed
qed

lemma rel_next:
  "rel_option (represents h) a b \<Longrightarrow>
   rel_option (rel_progress h) (map_option (Continue pc) a) (map_option (Next (Suc pc)) b)"
  by (cases a; cases b) auto

lemma rel_if:
  "(c \<Longrightarrow> rel_option R a b) \<Longrightarrow> (\<not> c \<Longrightarrow> rel_option R a' b') \<Longrightarrow>
   rel_option R (if c then a else a') (if c then b else b')"
  by simp

lemma rel_push_data:
  assumes "represents h f m" and "OP_PUSH1 \<le> unat (code ! pc)" and "unat (code ! pc) \<le> OP_PUSH32"
  shows "rel_option (rel_progress h) (map_option (\<lambda>(pc, f). Continue pc f) (op_push code pc f)) (mc_push_data code pc m)"
proof -
  define n where "n = unat (code ! pc) - OP_PUSH1 + 1"
  show ?thesis
    unfolding mc_push_data_def n_def [symmetric] Let_def
    using rel_instruction_data [OF assms n_def]
    by (cases "op_push code pc f"; cases "mc_push (barray_init (replicate (32 - n) 0 @ take n (drop (Suc pc) code))) m")
      (auto split: if_split_asm)
qed

lemma rel_dispatch:
  assumes r: "represents h f m" and g: "sint gas = mc_gas m"
    and i: "mem_read h (msg_input_data msg) (msg_input_size msg) = Some input" and "code ! pc \<noteq> 0xf1"
  shows "rel_option (rel_progress h) (dispatch (Some host) msg code pc gas f)
    (mc_instruction model reply (msg_recipient msg) input code pc m)"
proof -
  have call: "unat (code ! pc) \<noteq> OP_CALL" using assms(4) by (simp add: word_unat_eq_iff)
  note ret = rel_return_nothing [OF r]
  note ops = ret [OF g] rel_add [OF r] rel_push [OF r] rel_calldataload [OF r i] rel_number [OF r] rel_mstore [OF r]
    rel_sload [OF r] rel_sstore [OF r] rel_msize [OF r] rel_dup1 [OF r] rel_return [OF r g] ret [of 0 0]
  show ?thesis
    unfolding dispatch_def mc_instruction_def Let_def if_not_P [OF call]
    by (intro rel_if rel_next ops rel_push_data [OF r]) simp_all
qed

section \<open>Steps and runs\<close>

lemma sim_step:
  assumes r: "represents h f m" and gas: "- (2 ^ 63) < mc_gas m"
    and instr: "\<And>gas f m. represents h f m \<Longrightarrow> sint gas = mc_gas m \<Longrightarrow>
      sim e (rel_progress h) (dispatch (Some host) msg code pc gas f) (mc_instruction model reply self input code pc m)"
  shows "sim e (rel_progress h) (step (Some host) msg code pc f) (mc_step model reply self input code pc m)"
proof -
  have "i64_range (sint (fr_gas f) - 1)"
    using gas sint_i64_range [of "fr_gas f"] by (simp add: i64_range_def represents_fields(2) [OF r])
  then have s: "i64_sub (fr_gas f) 1 = Some (fr_gas f - 1)" by (simp add: i64_sub_def)
  from i64_sub_Some [OF this] have g: "sint (fr_gas f - 1) = mc_gas m - 1"
    by (simp add: represents_fields(2) [OF r])
  then have r': "represents h (f\<lparr>fr_gas := fr_gas f - 1\<rparr>) (m\<lparr>mc_gas := mc_gas m - 1\<rparr>)"
    using r by (simp add: represents_def frame_is_def stack_of_def height_def)
  show ?thesis
  proof (cases "mc_gas m - 1 < 0")
    case True
    then show ?thesis
      using rel_return_nothing [OF r', of 0 0 QRVMC_OUT_OF_GAS] s g by (simp add: step_def mc_step_def halt_def sim_def)
  next
    case False
    then show ?thesis using instr [OF r', of "fr_gas f - 1"] s g by (simp add: step_def mc_step_def)
  qed
qed

lemma sim_run:
  assumes "represents h f m" and "- (2 ^ 63) < mc_gas m"
    and instr: "\<And>pc gas f m. pc < length code \<Longrightarrow> represents h f m \<Longrightarrow> sint gas = mc_gas m \<Longrightarrow>
      sim e (rel_progress h) (dispatch (Some host) msg code pc gas f) (mc_instruction model reply self input code pc m)"
  shows "sim e (result_says h) (run_loop (Some host) msg code pc f) (mc_run model reply self input code pc m)"
  using assms(1,2)
proof (induction "length code - pc" arbitrary: pc f m rule: less_induct)
  case less
  note r = less.prems(1)
  note unf = run_loop.simps [of _ _ _ pc] mc_run.simps [of _ _ _ _ _ pc]
  show ?case
  proof (cases "pc < length code")
    case False
    then show ?thesis
      using represents_fields(1,2) [OF r] by (simp add: unf make_result_no_output result_says_def zero_result_def mem_read_def)
  next
    case True
    have "sim e (rel_progress h) (step (Some host) msg code pc f) (mc_step model reply self input code pc m)"
      by (rule sim_step [OF r less.prems(2)]) (rule instr [OF True])
    then show ?thesis
    proof (cases rule: sim_cases)
      case (some x y)
      show ?thesis
      proof (cases "(h, x, y)" rule: rel_progress.cases)
        case (1 h' pc1 f1 pc2 m1)
        then have pc2: "pc2 = Suc pc1" and r1: "represents h f1 m1" using some(3) by simp_all
        have "- (2 ^ 63) < mc_gas m1" using step_gas_sign some(2) 1 by force
        moreover have "length code - Suc pc1 < length code - pc" using mc_step_pc some(2) 1 pc2 True by fastforce
        ultimately show ?thesis using less.hyps [OF _ r1, of "Suc pc1"] 1 some pc2 True by (simp add: unf)
      qed (use some True in \<open>auto simp: unf\<close>)
    qed (use True in \<open>simp_all add: unf\<close>)
  qed
qed

lemma represents_initial:
  assumes "heap_wf h" and "\<And>k n. granted h k n" and "same s w"
  shows "represents h (initial_frame msg s h) (mc_init (sint (msg_gas msg)) w)"
  using assms holds_initial [OF assms(1,2), of "replicate 1024 0"] initial_frame_is [of msg s h]
  by (auto simp: represents_def mc_init_def memory_capacity_def frame_is_def)

lemma execution_sim:
  assumes "heap_wf h" and "\<And>k n. granted h k n" and "same s w" and "- (2 ^ 63) < sint (msg_gas msg)"
    and instr: "\<And>pc gas f m. pc < length code \<Longrightarrow> represents h f m \<Longrightarrow> sint gas = mc_gas m \<Longrightarrow>
      sim e (rel_progress h) (dispatch (Some host) msg code pc gas f) (mc_instruction model reply self input code pc m)"
  shows "sim e
    (\<lambda>(r, v, c, h') (status, gas, out, c').
       v = vm \<and> res_status_code r = status \<and> sint (res_gas_left r) = gas \<and> res_gas_refund r = 0 \<and> same c c' \<and>
       res_output_size r = length out \<and> mem_read h' (res_output_data r) (length out) = Some out)
    (example_execute vm (Some host) s h revision msg code)
    (mc_run model reply self input code 0 (mc_init (sint (msg_gas msg)) w))"
proof -
  have "sim e (result_says h) (run_loop (Some host) msg code 0 (initial_frame msg s h))
      (mc_run model reply self input code 0 (mc_init (sint (msg_gas msg)) w))"
    by (rule sim_run [OF represents_initial [OF assms(1-3)]]) (use assms(4) instr in \<open>simp_all add: mc_init_def\<close>)
  then show ?thesis
    by (cases rule: sim_cases) (auto simp: execute_initial result_says_def)
qed

lemma execution_refines:
  assumes "heap_wf h" and "\<And>k n. granted h k n" and "same s w" and "- (2 ^ 63) < sint (msg_gas msg)"
    and "mem_read h (msg_input_data msg) (msg_input_size msg) = Some input" and "0xf1 \<notin> set code"
  shows "rel_option
    (\<lambda>(r, v, c, h') (status, gas, out, c').
       v = vm \<and> res_status_code r = status \<and> sint (res_gas_left r) = gas \<and> res_gas_refund r = 0 \<and> same c c' \<and>
       res_output_size r = length out \<and> mem_read h' (res_output_data r) (length out) = Some out)
    (example_execute vm (Some host) s h revision msg code)
    (mc_run model reply (msg_recipient msg) input code 0 (mc_init (sint (msg_gas msg)) w))"
proof -
  have "sim True (rel_progress h) (dispatch (Some host) msg code pc gas f)
      (mc_instruction model reply (msg_recipient msg) input code pc m)"
    if "pc < length code" "represents h f m" "sint gas = mc_gas m" for pc gas f m
  proof -
    have "code ! pc \<noteq> 0xf1" using nth_mem [OF that(1)] assms(6) by metis
    from rel_dispatch [OF that(2,3) assms(5) this, of reply] show ?thesis by (simp add: sim_def)
  qed
  from execution_sim [where e = True, OF assms(1-4) this, of vm revision] show ?thesis by (simp add: sim_def)
qed

end

section \<open>The VM implements the machine\<close>

text \<open>Every Host is a model of itself.\<close>

interpretation same_host: host_model host host "(=)" for host :: "'s qrvmc_host_interface"
  by unfold_locales (simp_all add: option.rel_refl split_beta)

text \<open>C5: refinement of the abstract machine. For every program without \<^verbatim>\<open>CALL\<close>, every Host and every
  message whose input can be read, when allocation succeeds: the execution by the example VM is defined
  exactly when the machine runs to an end, and then the result has the status, the gas left and the output
  bytes of the machine, no refund, and the Host is left in the state the machine leaves it. The output is
  read in the heap after the execution, so it does not point into the memory of the VM.\<close>

theorem vm_refines_machine:
  assumes "heap_wf h" and "\<And>k n. granted h k n"
    and "mem_read h (msg_input_data msg) (msg_input_size msg) = Some input"
    and "0xf1 \<notin> set code" and "- (2 ^ 63) < sint (msg_gas msg)"
  shows "case mc_run host reply (msg_recipient msg) input code 0 (mc_init (sint (msg_gas msg)) s) of
      None \<Rightarrow> example_execute vm (Some host) s h revision msg code = None
    | Some (status, gas, out, s') \<Rightarrow>
        (\<exists>r h'. example_execute vm (Some host) s h revision msg code = Some (r, vm, s', h') \<and>
           res_status_code r = status \<and> sint (res_gas_left r) = gas \<and> res_gas_refund r = 0 \<and>
           res_output_size r = length out \<and> mem_read h' (res_output_data r) (length out) = Some out)"
  using same_host.execution_refines [OF assms(1,2) refl [of s] assms(5,3,4), where host = host and reply = reply and vm = vm and revision = revision]
  by (cases rule: rel_option_cases) auto

text \<open>A program: \<^verbatim>\<open>PUSH1 1; PUSH1 2; ADD; PUSH1 0; MSTORE; PUSH1 32; PUSH1 0; RETURN\<close>\<close>

definition sum_code :: "u8 list" where
  "sum_code = [0x60, 1, 0x60, 2, 0x01, 0x60, 0, 0x52, 0x60, 32, 0x60, 0, 0xf3]"

definition byte_word :: "u8 \<Rightarrow> uint256be" where
  "byte_word b = barray_init (replicate 31 0 @ [b])"

lemma byte_words:
  "uint_of (byte_word b) = unat b" "low (byte_word b) = unat b" "bytes (byte_word b) = replicate 31 0 @ [b]"
  "n < 256 \<Longrightarrow> word_of n = byte_word (of_nat n)"
proof -
  show b: "bytes (byte_word b) = replicate 31 0 @ [b]" by (simp add: byte_word_def bytes_init_full)
  show u: "uint_of (byte_word b) = unat b" unfolding uint_of_def b by (simp add: be_val_append)
  show "low (byte_word b) = unat b" using unat_u8_less [of b] by (simp add: low_def u)
  assume "n < 256"
  then have "of_nat n = (ucast (of_nat n :: u8) :: u32)"
    by (simp add: word_unat_eq_iff unat_ucast_mod unat_of_nat)
  then show "word_of n = byte_word (of_nat n)" by (simp add: word_of_def uint256_of_u32_byte byte_word_def)
qed

lemma sum_run:
  "mc_run host reply self input sum_code 0 (mc_init 9 s) = Some (QRVMC_SUCCESS, 1, replicate 31 0 @ [3], s)"
  by (simp add: mc_run.simps mc_step_def mc_instruction_def sum_code_def mc_push_data_def mc_add_def mc_store_def mc_return_def
      mc_init_def mc_pop_def mc_push_def byte_word_def [symmetric] byte_words halt_def refused_def inside_def patch_def Let_def)

theorem vm_refines_machine_witness:
  "\<exists>r h'. example_execute \<lparr>verbose = 0\<rparr> (Some example_host_get_interface) example_host_init sample_heap QRVMC_SHANGHAI
       (zero_message\<lparr>msg_gas := 9\<rparr>) sum_code = Some (r, \<lparr>verbose = 0\<rparr>, example_host_init, h') \<and>
     res_status_code r = QRVMC_SUCCESS \<and> sint (res_gas_left r) = 1 \<and>
     mem_read h' (res_output_data r) 32 = Some (replicate 31 0 @ [3])"
proof -
  let ?m = "zero_message\<lparr>msg_gas := 9\<rparr>"
  have "heap_wf sample_heap" "\<And>k n. granted sample_heap k n"
    "mem_read sample_heap (msg_input_data ?m) (msg_input_size ?m) = Some []" "0xf1 \<notin> set sum_code"
    "- (2 ^ 63) < sint (msg_gas ?m)"
    by (simp_all add: heap_wf_def sample_heap_def mem_read_def zero_message_def sum_code_def)
  from vm_refines_machine [OF this, where host = example_host_get_interface and reply = "\<lambda>_ _ _. None" and s = example_host_init
      and vm = "\<lparr>verbose = 0\<rparr>" and revision = QRVMC_SHANGHAI]
  show ?thesis by (auto simp: sum_run)
qed

end
