(* ===== verification/Calls.thy ===== *)
theory Calls
  imports Machine
begin

text \<open>
  \<^verbatim>\<open>CALL\<close> of the example VM against \<open>mc_call\<close> of the machine. The locale \<open>calling_host\<close> joins a Host that a VM
  can run on with a model of it and adds what a call promises: when the model has a reply, the result of
  the Host has its status and its output and the Host is related to the new state of the model. In it the
  whole execution is shown to follow the machine wherever the machine runs to an end: the message read
  from the stack, the two regions, the output copied into the memory, the status pushed and the result
  released in a heap where it is the only thing the call left to give back.
\<close>

section \<open>Operands\<close>

text \<open>The operands of a call. Only the stack changes between the two regions, so both can be looked at after
  the seven operands are popped.\<close>

lemma pop_with_memory:
  "fr_pop (f\<lparr>fr_memory := x\<rparr>) \<bind> F = fr_pop f \<bind> (\<lambda>(v, f). F (v, f\<lparr>fr_memory := x\<rparr>))"
  by (cases "pop (fr_stack f)"; cases f) (auto simp: fr_pop_def)

lemma pop_keeps_memory: "fr_pop f = Some (v, f') \<Longrightarrow> fr_memory f' = fr_memory f"
  by (auto simp: fr_pop_def bind_eq_Some_conv)

lemma bind_pop_cong:
  "(\<And>v f'. fr_memory f' = fr_memory f \<Longrightarrow> F v f' = G v f') \<Longrightarrow> fr_pop f \<bind> (\<lambda>(v, f). F v f) = fr_pop f \<bind> (\<lambda>(v, f). G v f)"
  using pop_keeps_memory [of f] by (cases "fr_pop f") auto

definition call_message :: "uint256be \<Rightarrow> uint256be \<Rightarrow> uint256be \<Rightarrow> ptr \<Rightarrow> u32 \<Rightarrow> qrvmc_message" where
  "call_message g to v p n = zero_message\<lparr>msg_gas := ucast (to_uint32 g), msg_recipient := to_address to, msg_value := v,
     msg_input_data := p, msg_input_size := unat n\<rparr>"

lemma call_operands_eq:
  "call_operands f = do {
     (g, f) \<leftarrow> fr_pop f;
     (to, f) \<leftarrow> fr_pop f;
     (v, f) \<leftarrow> fr_pop f;
     (i, f) \<leftarrow> fr_pop f;
     (n, f) \<leftarrow> fr_pop f;
     (ofs, f) \<leftarrow> fr_pop f;
     (k, f) \<leftarrow> fr_pop f;
     let (p, mem) = expand (to_uint32 i) (to_uint32 n) (fr_memory f);
     let (q, mem) = expand (to_uint32 ofs) (to_uint32 k) mem;
     Some (call_message g to v p (to_uint32 n), to_uint32 ofs, to_uint32 k, q, f\<lparr>fr_memory := mem\<rparr>)
   }"
  unfolding call_operands_def Let_def call_message_def [symmetric]
proof (intro bind_pop_cong)
  fix g to v i n f
  show "(case fr_expand (to_uint32 i) (to_uint32 n) f of
      (p, f) \<Rightarrow> fr_pop f \<bind> (\<lambda>(ofs, f). fr_pop f \<bind> (\<lambda>(k, f).
        case fr_expand (to_uint32 ofs) (to_uint32 k) f of
          (q, f) \<Rightarrow> Some (call_message g to v p (to_uint32 n), to_uint32 ofs, to_uint32 k, q, f)))) =
    fr_pop f \<bind> (\<lambda>(ofs, f). fr_pop f \<bind> (\<lambda>(k, f).
      case expand (to_uint32 i) (to_uint32 n) (fr_memory f) of
        (p, mem) \<Rightarrow> case expand (to_uint32 ofs) (to_uint32 k) mem of
          (q, mem) \<Rightarrow> Some (call_message g to v p (to_uint32 n), to_uint32 ofs, to_uint32 k, q, f\<lparr>fr_memory := mem\<rparr>)))"
  proof (cases "expand (to_uint32 i) (to_uint32 n) (fr_memory f)")
    case (Pair p mem)
    then show ?thesis
      by (simp add: fr_expand_def pop_with_memory) (intro bind_pop_cong, simp split: prod.split)
  qed
qed

lemma pop_bind_assoc: "(fr_pop f \<bind> (\<lambda>(v, f). F v f)) \<bind> K = fr_pop f \<bind> (\<lambda>(v, f). F v f \<bind> K)"
  by (cases "fr_pop f") auto

definition perform_call ::
  "'s qrvmc_host_interface \<Rightarrow> nat \<Rightarrow> qrvmc_message \<Rightarrow> u32 \<Rightarrow> u32 \<Rightarrow> ptr \<Rightarrow> 's frame \<Rightarrow> 's outcome option" where
  "perform_call host pc msg ofs k q f =
     (if msg_input_data msg = Null \<or> q = Null then return_result QRVMC_FAILURE 0 Null 0 f
      else do {
        (r, c, hp) \<leftarrow> call host (fr_context f) (fr_heap f) msg;
        f \<leftarrow> finish_call r ofs k (f\<lparr>fr_context := c, fr_heap := hp\<rparr>);
        Some (Continue pc f)
      })"

lemma op_call_eq:
  "op_call (Some host) pc f = do {
     (g, f) \<leftarrow> fr_pop f;
     (to, f) \<leftarrow> fr_pop f;
     (v, f) \<leftarrow> fr_pop f;
     (i, f) \<leftarrow> fr_pop f;
     (n, f) \<leftarrow> fr_pop f;
     (ofs, f) \<leftarrow> fr_pop f;
     (k, f) \<leftarrow> fr_pop f;
     let (p, mem) = expand (to_uint32 i) (to_uint32 n) (fr_memory f);
     let (q, mem) = expand (to_uint32 ofs) (to_uint32 k) mem;
     perform_call host pc (call_message g to v p (to_uint32 n)) (to_uint32 ofs) (to_uint32 k) q (f\<lparr>fr_memory := mem\<rparr>)
   }"
  unfolding op_call_def call_operands_eq pop_bind_assoc
  by (intro bind_pop_cong) (simp add: perform_call_def Let_def split: prod.split)

lemma expand_null: "fst (expand off n mem) = Null \<longleftrightarrow> refused (unat off) (unat n)"
  by (auto simp: expand_def refused_def unat_add_u32 memory_capacity_def word_less_nat_alt Let_def)

lemma return_result_memory: "return_result st g p n (f\<lparr>fr_memory := mem\<rparr>) = return_result st g p n f"
  by (simp add: return_result_def)

locale calling_host = host_model host model same + vm_host host ok
  for host :: "'s qrvmc_host_interface" and model :: "'w qrvmc_host_interface"
    and same :: "'s \<Rightarrow> 'w \<Rightarrow> bool" and ok :: "'s \<Rightarrow> bool" +
  fixes reply :: "'w replies"
  assumes same_ok: "same s w \<Longrightarrow> ok s"
    and same_call: "same s w \<Longrightarrow> heap_wf h \<Longrightarrow> (\<And>k n. granted h k n) \<Longrightarrow>
      mem_read h (msg_input_data m) (msg_input_size m) = Some input \<Longrightarrow>
      reply w (m\<lparr>msg_input_data := Null\<rparr>) input = Some (status, out, w') \<Longrightarrow>
      call host s h m = Some (r, s', h') \<Longrightarrow>
      same s' w' \<and> res_status_code r = status \<and> res_output_size r = length out \<and>
      mem_read h' (res_output_data r) (length out) = Some out \<and> (\<forall>k n. granted h' k n)"
begin

lemma sim_pop_bind:
  assumes "represents h f m" and "\<And>v f m. represents h f m \<Longrightarrow> sim e S (F v f) (G v m)"
  shows "sim e S (fr_pop f \<bind> (\<lambda>(v, f). F v f)) (mc_pop m \<bind> (\<lambda>(v, m). G v m))"
  using rel_pop [OF assms(1)] assms(2) by (cases rule: rel_option_cases) (auto simp: rel_value_def)

text \<open>The two regions of a call: the memory grows to the end of both.\<close>

lemma represents_regions:
  assumes r: "represents h f m" and i: "inside (unat i) (unat n)" and o: "inside (unat ofs) (unat k)"
  obtains mem1 mem2 where "expand i n (fr_memory f) = (Ptr (fresh h) (unat i), mem1)"
    and "expand ofs k mem1 = (Ptr (fresh h) (unat ofs), mem2)"
    and "represents h (f\<lparr>fr_memory := mem2\<rparr>)
      (m\<lparr>mc_size := max (max (mc_size m) (unat i + unat n)) (unat ofs + unat k)\<rparr>)"
proof -
  have grow: "\<exists>mem. expand a b (fr_memory g) = (Ptr (fresh h) (unat a), mem) \<and>
      represents h (g\<lparr>fr_memory := mem\<rparr>) (l\<lparr>mc_size := max (mc_size l) (unat a + unat b)\<rparr>)"
    if g: "represents h g l" and ab: "inside (unat a) (unat b)" for g l and a b :: u32
  proof -
    have "\<not> refused (unat a) (unat b)" using ab by (simp add: inside_def refused_def)
    then obtain mem where x: "expand a b (fr_memory g) = (Ptr (fresh h) (unat a), mem)" "memory_data mem = fresh h"
      and s: "unat (memory_size mem) = max (mc_size l) (unat a + unat b)"
      using represents_expand [OF g, of a b] ab by auto
    then have "mem = \<lparr>memory_size = of_nat (max (mc_size l) (unat a + unat b)), memory_data = fresh h\<rparr>"
      using s [symmetric] by simp
    then show ?thesis
      using x g ab by (auto simp: represents_def frame_is_def stack_of_def height_def inside_def)
  qed
  obtain mem1 where m1: "expand i n (fr_memory f) = (Ptr (fresh h) (unat i), mem1)"
    "represents h (f\<lparr>fr_memory := mem1\<rparr>) (m\<lparr>mc_size := max (mc_size m) (unat i + unat n)\<rparr>)"
    using grow [OF r i] by auto
  from grow [OF m1(2) o] obtain mem2 where "expand ofs k mem1 = (Ptr (fresh h) (unat ofs), mem2)"
    "represents h (f\<lparr>fr_memory := mem2\<rparr>) (m\<lparr>mc_size := max (max (mc_size m) (unat i + unat n)) (unat ofs + unat k)\<rparr>)"
    by auto
  then show thesis using m1(1) that by blast
qed

text \<open>The output of a call goes to the memory while the result still owns its block, which is then released.\<close>

lemma call_output:
  assumes hp: "holds h bs hp" and l: "lawful_result hp (Some (r, h1))"
    and frame: "\<And>c. blocks hp c \<noteq> None \<Longrightarrow> blocks h1 c = blocks hp c" and gr: "\<And>k n. granted h1 k n"
    and rd: "off + length src \<le> 1024"
  obtains h2 where "mem_write h1 (Ptr (fresh h) off) src = Some h2" and "releasable r h2"
    and "holds h (patch bs off src) (forget (owned_block r) h2)"
proof -
  have b: "blocks h1 (fresh h) = Some (Object, bs)" using hp frame [of "fresh h"] by (simp add: holds_def)
  have len: "length bs = 1024" by (rule holds_length [OF hp])
  define h2 where "h2 = h1\<lparr>blocks := (blocks h1)(fresh h \<mapsto> (Object, patch bs off src))\<rparr>"
  have w: "mem_write h1 (Ptr (fresh h) off) src = Some h2"
  proof (cases "src = []")
    case True
    then show ?thesis using b by (simp add: mem_write_def h2_def fun_upd_idem patch_def)
  next
    case False
    then show ?thesis using b len rd by (simp add: mem_write_def copy_into_def h2_def)
  qed
  have "writes_buffer (fresh h) h1 h2"
    unfolding writes_buffer_def
    by (rule exI [of _ "patch bs off src"]) (use rd len in \<open>simp add: memory_capacity_def length_patch h2_def\<close>)
  moreover have "extends_heap h (fresh h) hp" using hp by (simp add: holds_def)
  ultimately have x: "releasable r h2 \<and> extends_heap h (fresh h) (forget (owned_block r) h2)"
    by (metis extends_after_call [OF _ l frame])
  then have "blocks (forget (owned_block r) h2) (fresh h) \<noteq> None" by (auto simp: extends_heap_def)
  then have "blocks (forget (owned_block r) h2) (fresh h) = Some (Object, patch bs off src)"
    by (auto simp: forget_simps h2_def split: if_split_asm)
  moreover have "granted (forget (owned_block r) h2) = granted h1" by (simp add: forget_def h2_def split: option.split)
  ultimately show thesis by (intro that [OF w]) (use x gr in \<open>simp_all add: holds_def\<close>)
qed

lemma output_stored:
  assumes r: "represents h f m" and o: "inside (unat ofs) (unat k)" and sz: "unat ofs + unat k \<le> mc_size m"
    and rd: "mem_read h1 p (length out) = Some out"
  shows "\<exists>n'. n' = (if length out < unat k then of_nat (length out) else k) \<and> unat n' = length (take (unat k) out) \<and>
    expand ofs n' (fr_memory f) = (Ptr (fresh h) (unat ofs), fr_memory f) \<and>
    mem_read h1 p (length (take (unat k) out)) = Some (take (unat k) out)"
proof -
  define n' where "n' = (if length out < unat k then of_nat (length out) else k)"
  have "unat k < 2 ^ 32" by (rule order.strict_trans2 [OF unsigned_less]) simp
  then have n': "unat n' = length (take (unat k) out)" by (simp add: n'_def unat_of_nat)
  then have ins: "inside (unat ofs) (unat n')" and le: "unat n' \<le> unat k" using o by (simp_all add: inside_def)
  then have "\<not> refused (unat ofs) (unat n')" by (simp add: inside_def refused_def)
  then obtain mem where x: "expand ofs n' (fr_memory f) = (Ptr (fresh h) (unat ofs), mem)" "memory_data mem = fresh h"
    and "unat (memory_size mem) = mc_size m"
    using represents_expand [OF r, of ofs n'] ins le sz by auto
  then have "fr_memory f = \<lparr>memory_size = of_nat (unat (memory_size mem)), memory_data = memory_data mem\<rparr>"
    by (simp only: represents_fields(4) [OF r])
  then have "mem = fr_memory f" by simp
  with x(1) have "expand ofs n' (fr_memory f) = (Ptr (fresh h) (unat ofs), fr_memory f)" by simp
  moreover have "mem_read h1 p (length (take (unat k) out)) = Some (take (unat k) out)"
    using mem_read_prefix [OF rd, of "min (length out) (unat k)"] by (simp add: min_def split: if_split_asm)
  ultimately show ?thesis using n' n'_def by blast
qed

text \<open>What follows the call: the status is pushed, the output stored and the result released.\<close>

lemma rel_finish_call:
  assumes r: "represents h f m" and o: "inside (unat ofs) (unat k)" and sz: "unat ofs + unat k \<le> mc_size m"
    and c: "call host (fr_context f) (fr_heap f) msg = Some (r, s', h1)" and w': "same s' w'"
    and st: "res_status_code r = status" and n: "res_output_size r = length out"
    and rd: "mem_read h1 (res_output_data r) (length out) = Some out" and gr: "\<And>k n. granted h1 k n"
    and v: "v = word_of (if status = QRVMC_SUCCESS then 1 else 0)"
  shows "rel_option (represents h) (finish_call r ofs k (f\<lparr>fr_context := s', fr_heap := h1\<rparr>))
    (map_option (\<lambda>m. m\<lparr>mc_memory := patch (mc_memory m) (unat ofs) (take (unat k) out)\<rparr>)
       (mc_push v (m\<lparr>mc_context := w'\<rparr>)))"
proof -
  let ?src = "take (unat k) out" and ?f = "f\<lparr>fr_context := s', fr_heap := h1\<rparr>"
  have hp: "holds h (mc_memory m) (fr_heap f)" and ctx: "same (fr_context f) (mc_context m)"
    using represents_fields [OF r] by auto
  then have wf: "heap_wf (fr_heap f)" by (simp add: holds_def extends_heap_def)
  have keeps: "lawful_result (fr_heap f) (Some (r, h1))" "blocks (fr_heap f) b \<noteq> None \<Longrightarrow> blocks h1 b = blocks (fr_heap f) b" for b
    using call_keeps [OF same_ok [OF ctx] wf c] by auto
  from output_stored [OF r o sz rd] obtain n' where
    n': "n' = (if length out < unat k then of_nat (length out) else k)" "unat n' = length ?src"
    and x: "expand ofs n' (fr_memory f) = (Ptr (fresh h) (unat ofs), fr_memory f)"
    and src: "mem_read h1 (res_output_data r) (length ?src) = Some ?src" by metis
  have "unat ofs + length ?src \<le> 1024" using o by (simp add: inside_def)
  then obtain h2 where h2: "mem_write h1 (Ptr (fresh h) (unat ofs)) ?src = Some h2" "releasable r h2"
    "holds h (patch (mc_memory m) (unat ofs) ?src) (forget (owned_block r) h2)"
    using call_output [OF hp keeps gr] by metis
  have fin: "finish_call r ofs k F = fr_push v F \<bind> (\<lambda>f. fr_store ofs (mem_read (fr_heap f) (res_output_data r)) n' f \<bind>
      (\<lambda>(stored, f). qrvmc_release_result r (fr_heap f) \<bind> (\<lambda>h. Some (f\<lparr>fr_heap := h\<rparr>))))" for F :: "'s frame"
    unfolding finish_call_def Let_def v word_of_def n' n st qrvmc_release_result_def
    by (cases "status = QRVMC_SUCCESS") simp_all
  have push: "fr_push v ?f = map_option (\<lambda>f. f\<lparr>fr_context := s', fr_heap := h1\<rparr>) (fr_push v f)"
    by (cases f; cases "push v (fr_stack f)") (simp_all add: fr_push_def)
  from rel_push [OF r, of v] show ?thesis
  proof (cases rule: rel_option_cases)
    case none
    then show ?thesis by (simp add: fin push mc_push_def split: if_split_asm)
  next
    case (some f1 m1)
    define f2 where "f2 = f1\<lparr>fr_context := s', fr_heap := h1\<rparr>"
    have "fr_memory f1 = fr_memory f" using some(1) by (auto simp: fr_push_Some)
    then have "fr_store ofs (mem_read h1 (res_output_data r)) n' f2 = Some (True, f2\<lparr>fr_heap := h2\<rparr>)"
      using x h2(1) src n'(2) by (simp add: fr_store_def memory_store_def f2_def)
    then have "finish_call r ofs k ?f = Some (f2\<lparr>fr_heap := forget (owned_block r) h2\<rparr>)"
      using release_result_Some [OF h2(2)] some(1) by (simp add: fin push f2_def)
    moreover have "represents h (f2\<lparr>fr_heap := forget (owned_block r) h2\<rparr>)
        (m1\<lparr>mc_context := w', mc_memory := patch (mc_memory m) (unat ofs) ?src\<rparr>)"
      using some(3) h2(3) w' by (auto simp: represents_def frame_is_def stack_of_def height_def f2_def)
    ultimately show ?thesis using some(2) by (cases m) (auto simp: mc_push_def split: if_split_asm)
  qed
qed

lemma rel_answered_call:
  assumes r: "represents h f m" and o: "inside (unat ofs) (unat k)" and sz: "unat ofs + unat k \<le> mc_size m"
    and inp: "msg_input_data msg = Ptr (fresh h) off" "inside off (msg_input_size msg)"
    and rep: "reply (mc_context m) (msg\<lparr>msg_input_data := Null\<rparr>)
      (take (msg_input_size msg) (drop off (mc_memory m))) = Some (status, out, w')"
  shows "rel_option (rel_progress h) (perform_call host pc msg ofs k (Ptr b j) f)
    (mc_push (word_of (if status = QRVMC_SUCCESS then 1 else 0)) (m\<lparr>mc_context := w'\<rparr>) \<bind>
       (\<lambda>m. Some (Next (Suc pc) (m\<lparr>mc_memory := patch (mc_memory m) (unat ofs) (take (unat k) out)\<rparr>))))"
proof -
  let ?input = "take (msg_input_size msg) (drop off (mc_memory m))"
  have hp: "holds h (mc_memory m) (fr_heap f)" and ctx: "same (fr_context f) (mc_context m)"
    using represents_fields [OF r] by auto
  then have wf: "heap_wf (fr_heap f)" and gr: "\<And>k n. granted (fr_heap f) k n" by (auto simp: holds_def extends_heap_def)
  have rd: "mem_read (fr_heap f) (msg_input_data msg) (msg_input_size msg) = Some ?input"
    using holds_read [OF hp] inp by (simp add: inside_def)
  then obtain res s' h1 where c: "call host (fr_context f) (fr_heap f) msg = Some (res, s', h1)"
    using call_defined [OF same_ok [OF ctx] wf, of msg] by auto
  from same_call [OF ctx wf gr rd rep c]
  have "same s' w'" "res_status_code res = status" "res_output_size res = length out"
    "mem_read h1 (res_output_data res) (length out) = Some out" "\<And>k n. granted h1 k n" by auto
  from rel_finish_call [OF r o sz c this refl] show ?thesis
    by (cases rule: rel_option_cases) (auto simp: perform_call_def inp c)
qed

text \<open>The call, after its operands are popped: first with both regions inside the memory.\<close>

lemma sim_call_inside:
  assumes r: "represents h f m" and io: "inside (low i) (low n)" "inside (low ofs) (low k)"
  defines "m2 \<equiv> m\<lparr>mc_size := max (max (mc_size m) (low i + low n)) (low ofs + low k)\<rparr>"
  shows "sim False (rel_progress h)
    (let (p, mem) = expand (to_uint32 i) (to_uint32 n) (fr_memory f);
         (q, mem) = expand (to_uint32 ofs) (to_uint32 k) mem
     in perform_call host pc (call_message g to v p (to_uint32 n)) (to_uint32 ofs) (to_uint32 k) q (f\<lparr>fr_memory := mem\<rparr>))
    (do {
       (status, out, c) \<leftarrow> reply (mc_context m) (call_message g to v Null (to_uint32 n))
          (take (low n) (drop (low i) (mc_memory m)));
       m \<leftarrow> mc_push (word_of (if status = QRVMC_SUCCESS then 1 else 0)) (m2\<lparr>mc_context := c\<rparr>);
       Some (Next (Suc pc) (m\<lparr>mc_memory := patch (mc_memory m) (low ofs) (take (low k) out)\<rparr>))
     })"
proof -
  note lw = low_to_uint32
  obtain mem1 mem2 where x: "expand (to_uint32 i) (to_uint32 n) (fr_memory f) = (Ptr (fresh h) (low i), mem1)"
    "expand (to_uint32 ofs) (to_uint32 k) mem1 = (Ptr (fresh h) (low ofs), mem2)"
    and r2: "represents h (f\<lparr>fr_memory := mem2\<rparr>) m2"
    using represents_regions [OF r] io unfolding m2_def lw by metis
  let ?msg = "call_message g to v (Ptr (fresh h) (low i)) (to_uint32 n)"
  let ?reply = "reply (mc_context m) (call_message g to v Null (to_uint32 n)) (take (low n) (drop (low i) (mc_memory m)))"
  show ?thesis
  proof (cases "?reply")
    case None
    then show ?thesis by simp
  next
    case (Some rep)
    then obtain status out w' where rep: "?reply = Some (status, out, w')" by (cases rep) auto
    have "?msg\<lparr>msg_input_data := Null\<rparr> = call_message g to v Null (to_uint32 n)" "msg_input_size ?msg = low n"
      by (simp_all add: call_message_def zero_message_def lw)
    then have "reply (mc_context m2) (?msg\<lparr>msg_input_data := Null\<rparr>)
        (take (msg_input_size ?msg) (drop (low i) (mc_memory m2))) = Some (status, out, w')"
      using rep by (simp add: m2_def)
    moreover have "inside (unat (to_uint32 ofs)) (unat (to_uint32 k))" "inside (low i) (msg_input_size ?msg)"
      "unat (to_uint32 ofs) + unat (to_uint32 k) \<le> mc_size m2"
      using io by (simp_all add: m2_def call_message_def lw)
    ultimately have "rel_option (rel_progress h)
        (perform_call host pc ?msg (to_uint32 ofs) (to_uint32 k) (Ptr (fresh h) (low ofs)) (f\<lparr>fr_memory := mem2\<rparr>))
        (mc_push (word_of (if status = QRVMC_SUCCESS then 1 else 0)) (m2\<lparr>mc_context := w'\<rparr>) \<bind>
         (\<lambda>m. Some (Next (Suc pc) (m\<lparr>mc_memory := patch (mc_memory m) (low ofs) (take (low k) out)\<rparr>))))"
      unfolding lw using rel_answered_call [OF r2] by (simp add: call_message_def)
    then show ?thesis using rep x by (simp add: sim_def)
  qed
qed

lemma sim_perform_call:
  assumes r: "represents h f m"
  shows "sim False (rel_progress h)
    (let (p, mem) = expand (to_uint32 i) (to_uint32 n) (fr_memory f);
         (q, mem) = expand (to_uint32 ofs) (to_uint32 k) mem
     in perform_call host pc (call_message g to v p (to_uint32 n)) (to_uint32 ofs) (to_uint32 k) q (f\<lparr>fr_memory := mem\<rparr>))
    (if refused (low i) (low n) \<or> refused (low ofs) (low k) then halt QRVMC_FAILURE 0 [] m
     else if inside (low i) (low n) \<and> inside (low ofs) (low k) then do {
       (status, out, c) \<leftarrow> reply (mc_context m)
          (zero_message\<lparr>msg_gas := of_nat (low g), msg_recipient := to_address to, msg_value := v, msg_input_size := low n\<rparr>)
          (take (low n) (drop (low i) (mc_memory m)));
       m \<leftarrow> mc_push (word_of (if status = QRVMC_SUCCESS then 1 else 0))
          (m\<lparr>mc_context := c, mc_size := max (max (mc_size m) (low i + low n)) (low ofs + low k)\<rparr>);
       Some (Next (Suc pc) (m\<lparr>mc_memory := patch (mc_memory m) (low ofs) (take (low k) out)\<rparr>))
     } else None)" (is "sim False _ ?vm ?machine")
proof -
  consider (refused) "refused (low i) (low n) \<or> refused (low ofs) (low k)"
    | (outside) "\<not> (refused (low i) (low n) \<or> refused (low ofs) (low k))" "\<not> (inside (low i) (low n) \<and> inside (low ofs) (low k))"
    | (inside) "inside (low i) (low n)" "inside (low ofs) (low k)"
    by blast
  then show ?thesis
  proof cases
    case refused
    then have "?vm = return_result QRVMC_FAILURE 0 Null 0 f"
      by (auto simp: perform_call_def call_message_def return_result_memory expand_null split_beta low_to_uint32)
    with rel_return_nothing [OF r, of 0 0 QRVMC_FAILURE] refused show ?thesis by (simp add: sim_def)
  next
    case outside
    then show ?thesis unfolding if_not_P [OF outside(1)] by auto
  next
    case inside
    then have nr: "\<not> (refused (low i) (low n) \<or> refused (low ofs) (low k))" by (auto simp: inside_def refused_def)
    have "zero_message\<lparr>msg_gas := of_nat (low g), msg_recipient := to_address to, msg_value := v, msg_input_size := low n\<rparr> =
        call_message g to v Null (to_uint32 n)"
      by (simp add: call_message_def zero_message_def low_to_uint32)
    moreover have "m\<lparr>mc_context := c, mc_size := z\<rparr> = m\<lparr>mc_size := z, mc_context := c\<rparr>" for c z by (cases m) simp
    ultimately show ?thesis
      using sim_call_inside [OF r inside, of pc g to v] inside nr by (simp only: if_not_P if_P simp_thms)
  qed
qed

lemma sim_call:
  assumes "represents h f m"
  shows "sim False (rel_progress h) (op_call (Some host) pc f) (mc_call reply pc m)"
  unfolding op_call_eq mc_call_def
  by (rule sim_pop_bind [OF assms], (rule sim_pop_bind, assumption)+, rule sim_perform_call)

lemma execution_with_calls:
  assumes "heap_wf h" and "\<And>k n. granted h k n" and "same s w" and "- (2 ^ 63) < sint (msg_gas msg)"
    and i: "mem_read h (msg_input_data msg) (msg_input_size msg) = Some input"
    and run: "mc_run model reply (msg_recipient msg) input code 0 (mc_init (sint (msg_gas msg)) w) = Some (status, gas, out, w')"
  shows "\<exists>r s' h'. example_execute vm (Some host) s h revision msg code = Some (r, vm, s', h') \<and>
    res_status_code r = status \<and> sint (res_gas_left r) = gas \<and> res_gas_refund r = 0 \<and> same s' w' \<and>
    res_output_size r = length out \<and> mem_read h' (res_output_data r) (length out) = Some out"
proof -
  have "sim False (rel_progress h) (dispatch (Some host) msg code pc gas f)
      (mc_instruction model reply (msg_recipient msg) input code pc m)"
    if r: "represents h f m" and g: "sint gas = mc_gas m" for pc gas f m
  proof (cases "code ! pc = 0xf1")
    case True
    then show ?thesis using sim_call [OF r, of pc] by (simp add: dispatch_def mc_instruction_def Let_def)
  next
    case False
    from rel_dispatch [OF r g i False, of reply] show ?thesis by (simp add: sim_def)
  qed
  from execution_sim [where e = False, OF assms(1-4) this, of vm revision] show ?thesis
    unfolding run by (cases rule: sim_cases) auto
qed

end

end
