(* ===== verification/HostsAgree.thy ===== *)
theory HostsAgree
  imports Calls
begin

text \<open>
  The abstract machine on the two Hosts of the repository. The ExampleHost is a model of itself and, with
  the storage values and the block number alone, of the MockedHost; it interprets the locales of Machine
  and Calls for both. So programs run alike on the two Hosts, and programs with calls run as on the
  machine, where a call on the ExampleHost reverts with its input as output and a call on the MockedHost
  answers the configured status.
\<close>

section \<open>The MockedHost and the ExampleHost\<close>

definition same_world :: "mocked_host \<Rightarrow> example_host \<Rightarrow> bool" where
  "same_world s t \<longleftrightarrow> mocked_value s = example_value t \<and>
     block_number (mh_tx_context s) = block_number (eh_tx_context t)"

lemma record_access_tx: "mh_tx_context (record_account_access a s) = mh_tx_context s"
  by (simp add: record_account_access_def Let_def)

lemma mocked_tx_kept:
  "mh_tx_context (snd (mocked_get_storage s a k)) = mh_tx_context s"
  "mocked_set_storage s a k v = Some (st, s') \<Longrightarrow> mh_tx_context s' = mh_tx_context s"
  using set_storage_eq [of s a k v] by (auto simp: get_storage_eq put_slot_def Let_def record_access_tx)

lemma example_tx_kept:
  "eh_tx_context (snd (eh_get_storage s a k)) = eh_tx_context s"
  "eh_set_storage s a k v = Some (st, s') \<Longrightarrow> eh_tx_context s' = eh_tx_context s"
  by (auto simp: eh_get_storage_def eh_set_storage_def Let_def split: option.split)

lemma mocked_host_storage:
  "get_storage (get_interface MockedHost) = mocked_get_storage"
  "set_storage (get_interface MockedHost) = mocked_set_storage"
  "get_tx_context (get_interface MockedHost) = mocked_get_tx_context"
  by (simp_all add: mocked_methods fun_eq_iff)

interpretation mocked_model: host_model "get_interface MockedHost" example_host_get_interface same_world
proof
  fix s t a k v
  assume w: "same_world s t"
  show "block_number (fst (get_tx_context (get_interface MockedHost) s)) =
      block_number (fst (get_tx_context example_host_get_interface t)) \<and>
    same_world (snd (get_tx_context (get_interface MockedHost) s)) (snd (get_tx_context example_host_get_interface t))"
    using w by (simp add: mocked_host_storage example_host_storage mocked_get_tx_context_def eh_get_tx_context_def same_world_def)
  show "fst (get_storage (get_interface MockedHost) s a k) = fst (get_storage example_host_get_interface t a k) \<and>
    same_world (snd (get_storage (get_interface MockedHost) s a k)) (snd (get_storage example_host_get_interface t a k))"
    using w by (simp add: mocked_host_storage example_host_storage same_world_def mocked.getter_val mocked.getter_frame
        example_storage.getter_val example_storage.getter_frame mocked_tx_kept example_tx_kept)
  obtain st s' where s: "mocked_set_storage s a k v = Some (st, s')"
      "mocked_value s' = (mocked_value s)(a := (mocked_value s a)(k := v))"
    using mocked.setter_val by blast
  obtain st' t' where t: "eh_set_storage t a k v = Some (st', t')"
      "example_value t' = (example_value t)(a := (example_value t a)(k := v))"
    using example_storage.setter_val by blast
  show "rel_option (\<lambda>(_, s') (_, t'). same_world s' t') (set_storage (get_interface MockedHost) s a k v)
     (set_storage example_host_get_interface t a k v)"
    using w s t by (simp add: mocked_host_storage example_host_storage same_world_def mocked_tx_kept(2) [OF s(1)]
        example_tx_kept(2) [OF t(1)])
qed

lemma rel_option_meet:
  "rel_option A x m \<Longrightarrow> rel_option B y m \<Longrightarrow> (\<And>a b c. A a c \<Longrightarrow> B b c \<Longrightarrow> R a b) \<Longrightarrow> rel_option R x y"
  by (cases m; cases x; cases y) auto

text \<open>C9: a program cannot tell the two Hosts of the repository apart. Started in states with the same
  values in storage and the same block number, every program without \<^verbatim>\<open>CALL\<close> executes on the MockedHost
  exactly when it executes on the ExampleHost, and then with the same status, the same gas left, the same
  output and the same storage afterwards, although the two Hosts report different statuses for the
  writes and keep different records.\<close>

theorem programs_agree_on_hosts:
  assumes "heap_wf h" and "\<And>k n. granted h k n"
    and "mem_read h (msg_input_data msg) (msg_input_size msg) = Some input"
    and "0xf1 \<notin> set code" and "- (2 ^ 63) < sint (msg_gas msg)"
    and "mocked_value s = example_value t" and "block_number (mh_tx_context s) = block_number (eh_tx_context t)"
  shows "rel_option (\<lambda>(r1, v1, s', h1) (r2, v2, t', h2). v1 = vm \<and> v2 = vm \<and>
      res_status_code r1 = res_status_code r2 \<and> res_gas_left r1 = res_gas_left r2 \<and> res_output_size r1 = res_output_size r2 \<and>
      mem_read h1 (res_output_data r1) (res_output_size r1) = mem_read h2 (res_output_data r2) (res_output_size r2) \<and>
      mocked_value s' = example_value t')
    (example_execute vm (Some (get_interface MockedHost)) s h revision msg code)
    (example_execute vm (Some example_host_get_interface) t h revision msg code)"
proof -
  have w: "same_world s t" using assms(6,7) by (simp add: same_world_def)
  from mocked_model.execution_refines [OF assms(1,2) w assms(5,3,4), where reply = "\<lambda>_ _ _. None" and vm = vm and revision = revision]
    same_host.execution_refines [OF assms(1,2) refl [of t] assms(5,3,4), where host = example_host_get_interface and reply = "\<lambda>_ _ _. None" and vm = vm
      and revision = revision]
  show ?thesis by (rule rel_option_meet) (auto simp: same_world_def intro!: signed_word_eqI [where ?'a = int])
qed

theorem programs_agree_on_hosts_witness:
  "\<exists>r s' h'. example_execute \<lparr>verbose = 0\<rparr> (Some (get_interface MockedHost)) mocked_host_init sample_heap QRVMC_SHANGHAI
       (zero_message\<lparr>msg_gas := 100\<rparr>) example_code = Some (r, \<lparr>verbose = 0\<rparr>, s', h') \<and>
     res_status_code r = QRVMC_SUCCESS \<and> sint (res_gas_left r) = 91 \<and>
     mem_read h' (res_output_data r) (res_output_size r) = Some (replicate 32 0)"
proof -
  let ?m = "zero_message\<lparr>msg_gas := 100\<rparr>" and ?vm = "\<lparr>verbose = 0\<rparr>"
  have w: "heap_wf sample_heap" "\<And>k n. granted sample_heap k n"
    "mem_read sample_heap (msg_input_data ?m) (msg_input_size ?m) = Some []" "0xf1 \<notin> set example_code"
    "- (2 ^ 63) < sint (msg_gas ?m)" "mocked_value mocked_host_init = example_value example_host_init"
    "block_number (mh_tx_context mocked_host_init) = block_number (eh_tx_context example_host_init)"
    by (simp_all add: heap_wf_def sample_heap_def mem_read_def zero_message_def example_code_def fun_eq_iff mocked_value_def
        slot_at_def account_at_def mocked_host_init_def mocked_account_default_def storage_value_default_def
        example_value_def example_host_init_def)
  obtain r t' h2 where e: "example_execute ?vm (Some example_host_get_interface) example_host_init sample_heap QRVMC_SHANGHAI
      ?m example_code = Some (r, ?vm, t', h2)"
    and r: "res_status_code r = QRVMC_SUCCESS" "sint (res_gas_left r) = 91" "res_output_size r = 32"
      "mem_read h2 (res_output_data r) 32 = Some (replicate 32 0)"
    using example_program_result [OF w(1), of ?m ?vm example_host_init QRVMC_SHANGHAI] w(2)
    by (auto simp: example_host_init_def zero_tx_context_def zero_as_u32)
  from programs_agree_on_hosts [OF w, of ?vm QRVMC_SHANGHAI] show ?thesis
    unfolding e by (cases rule: rel_option_cases) (use r in auto)
qed

section \<open>Calls on the two Hosts\<close>

text \<open>A call on the ExampleHost reverts, with the input as output; one on the MockedHost has the configured
  status and no output when the configured result is plain. Neither changes what the machine can see.\<close>

definition echo_reply :: "example_host replies" where
  "echo_reply s msg input = Some (QRVMC_REVERT, input, s)"

definition canned_reply :: "qrvmc_status_code \<Rightarrow> example_host replies" where
  "canned_reply status s msg input = Some (status, [], s)"

lemma example_call_echoes:
  assumes "heap_wf h" and "\<And>k n. granted h k n"
    and i: "mem_read h (msg_input_data m) (msg_input_size m) = Some input" and c: "eh_call s h m = Some (r, s', h')"
  shows "s' = s \<and> res_status_code r = QRVMC_REVERT \<and> res_output_size r = length input \<and>
    mem_read h' (res_output_data r) (length input) = Some input \<and> (\<forall>k n. granted h' k n)"
proof (cases "msg_input_size m = 0")
  case True
  then show ?thesis
    using assms by (auto simp: eh_call_def make_result_no_output zero_result_def mem_read_def)
next
  case False
  have "length input = msg_input_size m" using i by (rule mem_read_length)
  then show ?thesis
    using c make_result_output [OF assms(1) False assms(2) i, of QRVMC_REVERT "msg_gas m" 0] False assms(2)
    by (auto simp: eh_call_def allocate_def mem_read_def region_def)
qed

interpretation example_calls: calling_host example_host_get_interface example_host_get_interface "(=)" "\<lambda>_. True" echo_reply
proof
  fix s w h m input status out w' r s' h'
  assume "heap_wf h" "\<And>k n. granted h k n" and "s = w" and "mem_read h (msg_input_data m) (msg_input_size m) = Some input"
    and "echo_reply w (m\<lparr>msg_input_data := Null\<rparr>) input = Some (status, out, w')"
    and "call example_host_get_interface s h m = Some (r, s', h')"
  then show "s' = w' \<and> res_status_code r = status \<and> res_output_size r = length out \<and>
      mem_read h' (res_output_data r) (length out) = Some out \<and> (\<forall>k n. granted h' k n)"
    using example_call_echoes [of h m input s r s' h']
    by (simp add: echo_reply_def example_host_get_interface_def mocked_methods ExampleHost_methods_def)
qed simp

definition canned :: "qrvmc_status_code \<Rightarrow> mocked_host \<Rightarrow> bool" where
  "canned status s \<longleftrightarrow> plain_result s \<and> res_status_code (mh_call_result s) = status"

lemma canned_kept:
  "canned status s \<Longrightarrow> mh_call_result s' = mh_call_result s \<Longrightarrow> canned status s'"
  by (simp add: canned_def plain_result_def)

lemma mocked_call_canned:
  assumes "canned status s" and "\<And>k n. granted h k n" and c: "mocked_call s h m = Some (r, s', h')"
  shows "canned status s' \<and> mocked_value s' = mocked_value s \<and> mh_tx_context s' = mh_tx_context s \<and>
    res_status_code r = status \<and> res_output_size r = 0 \<and> (\<forall>k n. granted h' k n)"
proof -
  have "mocked_value s' = mocked_value s \<and> mh_tx_context s' = mh_tx_context s"
    using c by (auto simp: mocked_call_def bind_eq_Some_conv Let_def split_beta mocked_value_def slot_at_def account_at_def
        record_access_frame record_access_tx fun_eq_iff split: if_split_asm)
  then show ?thesis
    using mocked_call_cases [OF c] assms(1,2) canned_kept by (auto simp: canned_def plain_result_def allocate_def)
qed

interpretation mocked_calls: calling_host "get_interface MockedHost" example_host_get_interface
  "\<lambda>s t. same_world s t \<and> canned status s" plain_result "canned_reply status" for status
proof
  fix s t a k v
  assume w: "same_world s t \<and> canned status s"
  note m = mocked_host_storage
  have kept: "canned status (snd (mocked_get_tx_context s))" "canned status (snd (mocked_get_storage s a k))"
    using w canned_kept by (auto simp: mocked_get_tx_context_def get_storage_eq record_access_frame)
  then show "block_number (fst (get_tx_context (get_interface MockedHost) s)) =
      block_number (fst (get_tx_context example_host_get_interface t)) \<and>
    same_world (snd (get_tx_context (get_interface MockedHost) s)) (snd (get_tx_context example_host_get_interface t)) \<and>
    canned status (snd (get_tx_context (get_interface MockedHost) s))"
    using mocked_model.same_tx w m by simp
  show "fst (get_storage (get_interface MockedHost) s a k) = fst (get_storage example_host_get_interface t a k) \<and>
    same_world (snd (get_storage (get_interface MockedHost) s a k)) (snd (get_storage example_host_get_interface t a k)) \<and>
    canned status (snd (get_storage (get_interface MockedHost) s a k))"
    using mocked_model.same_get w kept m by simp
  obtain st s' where s: "mocked_set_storage s a k v = Some (st, s')" "mh_call_result s' = mh_call_result s"
    using mocked_set_plain by blast
  show "rel_option (\<lambda>(_, s') (_, t'). same_world s' t' \<and> canned status s') (set_storage (get_interface MockedHost) s a k v)
     (set_storage example_host_get_interface t a k v)"
    using mocked_model.same_set [of s t a k v] w s canned_kept [OF _ s(2)]
    by (cases "set_storage example_host_get_interface t a k v") (auto simp: m)
next
  fix s t
  show "same_world s t \<and> canned status s \<Longrightarrow> plain_result s" by (simp add: canned_def)
next
  fix s t h m input st out t' r s' h'
  assume "same_world s t \<and> canned status s" and "\<And>k n. granted h k n"
    and "canned_reply status t (m\<lparr>msg_input_data := Null\<rparr>) input = Some (st, out, t')"
    and "call (get_interface MockedHost) s h m = Some (r, s', h')"
  then show "(same_world s' t' \<and> canned status s') \<and> res_status_code r = st \<and> res_output_size r = length out \<and>
      mem_read h' (res_output_data r) (length out) = Some out \<and> (\<forall>k n. granted h' k n)"
    using mocked_call_canned [of status s h m r s' h']
    by (auto simp: canned_reply_def mocked_methods same_world_def mem_read_def)
qed

text \<open>C6: the example VM with the ExampleHost implements the whole machine, calls included. For every program
  and every message whose input can be read, when allocation succeeds: if the machine runs to an end,
  where a call reverts and hands its input back, then the execution is defined, with the status, the gas
  left and the output bytes of the machine, and the Host is left in the state the machine leaves it. So the
  output of a call is copied into the memory up to the size asked for, its status is pushed, and its result
  is released, whatever the Host allocated for it.\<close>

theorem example_host_runs_calls:
  assumes "heap_wf h" and "\<And>k n. granted h k n"
    and "mem_read h (msg_input_data msg) (msg_input_size msg) = Some input" and "- (2 ^ 63) < sint (msg_gas msg)"
    and "mc_run example_host_get_interface echo_reply (msg_recipient msg) input code 0 (mc_init (sint (msg_gas msg)) s) =
      Some (status, gas, out, s')"
  shows "\<exists>r h'. example_execute vm (Some example_host_get_interface) s h revision msg code = Some (r, vm, s', h') \<and>
    res_status_code r = status \<and> sint (res_gas_left r) = gas \<and> res_gas_refund r = 0 \<and>
    res_output_size r = length out \<and> mem_read h' (res_output_data r) (length out) = Some out"
  using example_calls.execution_with_calls [OF assms(1,2) refl [of s] assms(4,3,5), of vm revision] by auto

text \<open>A program: it stores \<open>3\<close>, calls with that word as input, asks for the output behind it and returns both
  words and then the status of the call:
  \<^verbatim>\<open>PUSH1 3; PUSH1 0; MSTORE; PUSH1 32; PUSH1 32; PUSH1 32; PUSH1 0; PUSH1 0; PUSH1 0; PUSH1 5; CALL;
  PUSH1 64; MSTORE; PUSH1 96; PUSH1 0; RETURN\<close>\<close>

definition call_code :: "u8 list" where
  "call_code = [0x60, 3, 0x60, 0, 0x52, 0x60, 32, 0x60, 32, 0x60, 32, 0x60, 0, 0x60, 0, 0x60, 0, 0x60, 5, 0xf1,
     0x60, 64, 0x52, 0x60, 96, 0x60, 0, 0xf3]"

lemma call_run:
  "reply s (zero_message\<lparr>msg_gas := 5, msg_recipient := to_address (byte_word 0), msg_value := byte_word 0, msg_input_size := 32\<rparr>)
     (replicate 31 0 @ [3]) = Some (status, out, s') \<Longrightarrow>
   mc_run host reply self input call_code 0 (mc_init 16 s) =
     Some (QRVMC_SUCCESS, 0, (replicate 31 0 @ [3]) @ take 32 (take 32 out @ replicate 32 0) @
       replicate 31 0 @ [if status = QRVMC_SUCCESS then 1 else 0], s')"
  by (simp add: mc_run.simps mc_step_def mc_instruction_def call_code_def mc_push_data_def mc_store_def mc_call_def mc_return_def
      mc_init_def mc_pop_def mc_push_def byte_word_def [symmetric] byte_words halt_def refused_def inside_def patch_def Let_def)

theorem example_host_runs_calls_witness:
  "\<exists>r h'. example_execute \<lparr>verbose = 0\<rparr> (Some example_host_get_interface) example_host_init sample_heap QRVMC_SHANGHAI
       (zero_message\<lparr>msg_gas := 16\<rparr>) call_code = Some (r, \<lparr>verbose = 0\<rparr>, example_host_init, h') \<and>
     res_status_code r = QRVMC_SUCCESS \<and> sint (res_gas_left r) = 0 \<and>
     mem_read h' (res_output_data r) 96 =
       Some ((replicate 31 0 @ [3]) @ (replicate 31 0 @ [3]) @ (replicate 31 0 @ [0]))"
proof -
  let ?m = "zero_message\<lparr>msg_gas := 16\<rparr>"
  have w: "heap_wf sample_heap" "\<And>k n. granted sample_heap k n"
    "mem_read sample_heap (msg_input_data ?m) (msg_input_size ?m) = Some []" "- (2 ^ 63) < sint (msg_gas ?m)"
    by (simp_all add: heap_wf_def sample_heap_def mem_read_def zero_message_def)
  have "mc_run example_host_get_interface echo_reply (msg_recipient ?m) [] call_code 0 (mc_init (sint (msg_gas ?m)) example_host_init) =
      Some (QRVMC_SUCCESS, 0, (replicate 31 0 @ [3]) @ (replicate 31 0 @ [3]) @ (replicate 31 0 @ [0]), example_host_init)"
    using call_run [of echo_reply example_host_init] by (simp add: echo_reply_def)
  from example_host_runs_calls [OF w this, of "\<lparr>verbose = 0\<rparr>" QRVMC_SHANGHAI] show ?thesis by auto
qed

text \<open>C7: the example VM with the MockedHost implements the machine too, when the configured result of its
  calls is plain, which it is at first. The machine runs on any state of the ExampleHost with the same
  values in storage and the same block number, and a call on it answers the configured status without
  output: a run to an end is an execution with the same status, gas left and output, the values in storage
  are those of the machine afterwards, and the configured result is still plain, so what the Host records
  of the accesses and the calls cannot be seen by a program.\<close>

theorem mocked_host_runs_calls:
  assumes "heap_wf h" and "\<And>k n. granted h k n"
    and "mem_read h (msg_input_data msg) (msg_input_size msg) = Some input" and "- (2 ^ 63) < sint (msg_gas msg)"
    and "mocked_value s = example_value t" and "block_number (mh_tx_context s) = block_number (eh_tx_context t)"
    and "plain_result s"
    and "mc_run example_host_get_interface (canned_reply (res_status_code (mh_call_result s))) (msg_recipient msg) input code 0
      (mc_init (sint (msg_gas msg)) t) = Some (status, gas, out, t')"
  shows "\<exists>r s' h'. example_execute vm (Some (get_interface MockedHost)) s h revision msg code = Some (r, vm, s', h') \<and>
    res_status_code r = status \<and> sint (res_gas_left r) = gas \<and> res_gas_refund r = 0 \<and>
    res_output_size r = length out \<and> mem_read h' (res_output_data r) (length out) = Some out \<and>
    mocked_value s' = example_value t' \<and> plain_result s'"
proof -
  have "same_world s t \<and> canned (res_status_code (mh_call_result s)) s"
    using assms(5-7) by (simp add: same_world_def canned_def)
  from mocked_calls.execution_with_calls [OF assms(1,2) this assms(4,3,8), of vm revision] show ?thesis
    by (auto simp: same_world_def canned_def)
qed

theorem mocked_host_runs_calls_witness:
  "\<exists>r s' h'. example_execute \<lparr>verbose = 0\<rparr> (Some (get_interface MockedHost)) mocked_host_init sample_heap QRVMC_SHANGHAI
       (zero_message\<lparr>msg_gas := 16\<rparr>) call_code = Some (r, \<lparr>verbose = 0\<rparr>, s', h') \<and>
     res_status_code r = QRVMC_SUCCESS \<and> sint (res_gas_left r) = 0 \<and>
     mem_read h' (res_output_data r) 96 =
       Some ((replicate 31 0 @ [3]) @ replicate 32 0 @ (replicate 31 0 @ [1])) \<and>
     mocked_value s' = mocked_value mocked_host_init"
proof -
  let ?m = "zero_message\<lparr>msg_gas := 16\<rparr>" and ?status = "res_status_code (mh_call_result mocked_host_init)"
  have w: "heap_wf sample_heap" "\<And>k n. granted sample_heap k n"
    "mem_read sample_heap (msg_input_data ?m) (msg_input_size ?m) = Some []" "- (2 ^ 63) < sint (msg_gas ?m)"
    by (simp_all add: heap_wf_def sample_heap_def mem_read_def zero_message_def)
  have s: "mocked_value mocked_host_init = example_value example_host_init"
    "block_number (mh_tx_context mocked_host_init) = block_number (eh_tx_context example_host_init)"
    "plain_result mocked_host_init" "?status = QRVMC_SUCCESS"
    by (simp_all add: fun_eq_iff mocked_value_def slot_at_def account_at_def mocked_host_init_def mocked_account_default_def
        storage_value_default_def example_value_def example_host_init_def plain_result_def zero_result_def)
  have "mc_run example_host_get_interface (canned_reply ?status) (msg_recipient ?m) [] call_code 0
      (mc_init (sint (msg_gas ?m)) example_host_init) =
      Some (QRVMC_SUCCESS, 0, (replicate 31 0 @ [3]) @ replicate 32 0 @ (replicate 31 0 @ [1]), example_host_init)"
    using call_run [of "canned_reply QRVMC_SUCCESS" example_host_init] by (simp add: canned_reply_def s(4))
  from mocked_host_runs_calls [OF w s(1-3) this, of "\<lparr>verbose = 0\<rparr>" QRVMC_SHANGHAI] show ?thesis using s(1) by auto
qed

end
