(* ===== verification/Sessions.thy ===== *)
theory Sessions
  imports VMRuns
begin

text \<open>
  Sessions of a VM with a Host. The VM makes any sequence of requests through a \<^verbatim>\<open>HostContext\<close> over the C
  interface of a Host object, and destroys the \<^verbatim>\<open>Result\<close> of every call when it has read it. Its ownership passes
  from the object of the Host through the raw struct into the object of the VM: a session is compared with
  requests made to the Host itself, and shown to give back everything the Host allocated for it.
\<close>

section \<open>Sessions\<close>

text \<open>What a client sees of an answer; of the result of a call, its fields and the bytes of its output.\<close>

datatype host_reply =
    Reply_exists bool | Reply_word bytes32 | Reply_set qrvmc_storage_status | Reply_size nat
  | Reply_copied nat "u8 list" | Reply_call qrvmc_status_code i64 i64 "u8 list" address
  | Reply_tx qrvmc_tx_context | Reply_access qrvmc_access_status | Reply_none

text \<open>The \<^verbatim>\<open>Result\<close> of a call is read and then destroyed.\<close>

definition use_result :: "qrvmc_result \<Rightarrow> heap \<Rightarrow> (host_reply \<times> heap) option" where
  "use_result r h = do {
     out \<leftarrow> mem_read h (res_output_data r) (res_output_size r);
     h \<leftarrow> result_dtor r h;
     Some (Reply_call (res_status_code r) (res_gas_left r) (res_gas_refund r) out (res_create_address r), h)
   }"

fun context_step :: "host_op \<Rightarrow> 's host_context \<times> heap \<Rightarrow> (host_reply \<times> 's host_context \<times> heap) option" where
  "context_step (Op_account_exists a) (hc, h) = do { (r, hc) \<leftarrow> hc_account_exists hc a; Some (Reply_exists r, hc, h) }"
| "context_step (Op_get_storage a k) (hc, h) = do { (r, hc) \<leftarrow> hc_get_storage hc a k; Some (Reply_word r, hc, h) }"
| "context_step (Op_set_storage a k v) (hc, h) = do { (r, hc) \<leftarrow> hc_set_storage hc a k v; Some (Reply_set r, hc, h) }"
| "context_step (Op_get_balance a) (hc, h) = do { (r, hc) \<leftarrow> hc_get_balance hc a; Some (Reply_word r, hc, h) }"
| "context_step (Op_get_code_size a) (hc, h) = do { (r, hc) \<leftarrow> hc_get_code_size hc a; Some (Reply_size r, hc, h) }"
| "context_step (Op_get_code_hash a) (hc, h) = do { (r, hc) \<leftarrow> hc_get_code_hash hc a; Some (Reply_word r, hc, h) }"
| "context_step (Op_copy_code a off buf n) (hc, h) =
     do { (k, buf, hc) \<leftarrow> hc_copy_code hc a off buf n; Some (Reply_copied k buf, hc, h) }"
| "context_step (Op_call msg) (hc, h) =
     do { (r, hc, h) \<leftarrow> hc_call hc h msg; (reply, h) \<leftarrow> use_result r h; Some (reply, hc, h) }"
| "context_step Op_get_tx_context (hc, h) = do { (r, hc) \<leftarrow> hc_get_tx_context hc; Some (Reply_tx r, hc, h) }"
| "context_step (Op_get_block_hash n) (hc, h) = do { (r, hc) \<leftarrow> hc_get_block_hash hc n; Some (Reply_word r, hc, h) }"
| "context_step (Op_emit_log a d n ts k) (hc, h) = do { hc \<leftarrow> hc_emit_log hc a d n ts k; Some (Reply_none, hc, h) }"
| "context_step (Op_access_account a) (hc, h) = do { (r, hc) \<leftarrow> hc_access_account hc a; Some (Reply_access r, hc, h) }"
| "context_step (Op_access_storage a k) (hc, h) = do { (r, hc) \<leftarrow> hc_access_storage hc a k; Some (Reply_access r, hc, h) }"

text \<open>The same requests to the object itself.\<close>

fun object_step :: "'s host_methods \<Rightarrow> host_op \<Rightarrow> 's \<times> heap \<Rightarrow> (host_reply \<times> 's \<times> heap) option" where
  "object_step m (Op_account_exists a) (s, h) = (case account_exists m s a of (r, s) \<Rightarrow> Some (Reply_exists r, s, h))"
| "object_step m (Op_get_storage a k) (s, h) = (case get_storage m s a k of (r, s) \<Rightarrow> Some (Reply_word r, s, h))"
| "object_step m (Op_set_storage a k v) (s, h) = do { (r, s) \<leftarrow> set_storage m s a k v; Some (Reply_set r, s, h) }"
| "object_step m (Op_get_balance a) (s, h) = (case get_balance m s a of (r, s) \<Rightarrow> Some (Reply_word r, s, h))"
| "object_step m (Op_get_code_size a) (s, h) = (case get_code_size m s a of (r, s) \<Rightarrow> Some (Reply_size r, s, h))"
| "object_step m (Op_get_code_hash a) (s, h) = (case get_code_hash m s a of (r, s) \<Rightarrow> Some (Reply_word r, s, h))"
| "object_step m (Op_copy_code a off buf n) (s, h) =
     do { (k, buf, s) \<leftarrow> copy_code m s a off buf n; Some (Reply_copied k buf, s, h) }"
| "object_step m (Op_call msg) (s, h) =
     do { (r, s, h) \<leftarrow> call m s h msg; (reply, h) \<leftarrow> use_result r h; Some (reply, s, h) }"
| "object_step m Op_get_tx_context (s, h) = (case get_tx_context m s of (r, s) \<Rightarrow> Some (Reply_tx r, s, h))"
| "object_step m (Op_get_block_hash n) (s, h) = (case get_block_hash m s n of (r, s) \<Rightarrow> Some (Reply_word r, s, h))"
| "object_step m (Op_emit_log a d n ts k) (s, h) = do { s \<leftarrow> emit_log m s a d n ts k; Some (Reply_none, s, h) }"
| "object_step m (Op_access_account a) (s, h) = (case access_account m s a of (r, s) \<Rightarrow> Some (Reply_access r, s, h))"
| "object_step m (Op_access_storage a k) (s, h) = (case access_storage m s a k of (r, s) \<Rightarrow> Some (Reply_access r, s, h))"

text \<open>A session is a sequence of requests.\<close>

fun session :: "('op \<Rightarrow> 'c \<Rightarrow> ('r \<times> 'c) option) \<Rightarrow> 'op list \<Rightarrow> 'c \<Rightarrow> ('r list \<times> 'c) option" where
  "session act [] c = Some ([], c)"
| "session act (op # ops) c = do { (r, c) \<leftarrow> act op c; (rs, c) \<leftarrow> session act ops c; Some (r # rs, c) }"

lemma session_simulates:
  assumes "\<And>op c. act2 op (f c) = map_option (\<lambda>(r, c). (r, f c)) (act1 op c)"
  shows "session act2 ops (f c) = map_option (\<lambda>(rs, c). (rs, f c)) (session act1 ops c)"
proof (induction ops arbitrary: c)
  case Nil
  then show ?case by simp
next
  case (Cons op ops)
  show ?case
  proof (cases "act1 op c")
    case (Some rc)
    then obtain r c1 where "act1 op c = Some (r, c1)" by (cases rc) auto
    with Cons.IH [of c1] assms [of op c] show ?thesis by (cases "session act1 ops c1") auto
  qed (simp add: assms)
qed

section \<open>Through the C interface\<close>

lemma context_step_object:
  fixes methods :: "'s host_methods"
  defines "over \<equiv> \<lambda>(s, h). (make_host_context (get_interface methods) s, h)"
  shows "context_step op (over c) = map_option (\<lambda>(r, c). (r, over c)) (object_step methods op c)"
proof (cases c)
  case (Pair s h)
  show ?thesis
  proof (cases op)
    case (Op_call msg)
    show ?thesis
    proof (cases "call methods s h msg")
      case (Some x)
      then obtain r s' h' where c: "call methods s h msg = Some (r, s', h')" by (cases x) auto
      then show ?thesis
        by (cases "use_result r h'")
          (auto simp: Op_call Pair over_def host_wrapper_defs internal_call_forwards result_from_raw_def)
    qed (simp add: Op_call Pair over_def host_wrapper_defs internal_call_forwards)
  next
    case (Op_copy_code a off buf n)
    then show ?thesis
      by (cases "copy_code methods s a off buf n") (auto simp: Pair over_def host_wrapper_defs)
  next
    case (Op_set_storage a k v)
    then show ?thesis
      by (cases "set_storage methods s a k v") (auto simp: Pair over_def host_wrapper_defs)
  next
    case (Op_emit_log a d n ts k)
    then show ?thesis
      by (cases "emit_log methods s a d n ts k") (auto simp: Pair over_def host_wrapper_defs)
  qed (simp_all add: Pair over_def host_wrapper_defs split_beta)
qed

section \<open>What a session keeps\<close>

lemma object_step_kept:
  assumes lawful: "\<And>s h msg r s' h'. heap_wf h \<Longrightarrow> call methods s h msg = Some (r, s', h') \<Longrightarrow> lawful_result h (Some (r, h'))"
    and w: "heap_wf h" and o: "object_step methods op (s, h) = Some (reply, s', h')"
  shows "heap_kept h h'"
proof (cases op)
  case (Op_call msg)
  with o obtain r h1 where c: "call methods s h msg = Some (r, s', h1)" and u: "use_result r h1 = Some (reply, h')"
    by (auto simp: bind_eq_Some_conv)
  then have l: "lawful_result h (Some (r, h1))" using lawful w by blast
  then have "heap_kept h1 h1" by (intro heap_kept_refl) (simp add: lawful_at_def)
  moreover have "result_dtor r h1 = Some h'" using u by (auto simp: use_result_def bind_eq_Some_conv)
  ultimately show ?thesis using destroyed_kept [OF l] by blast
qed (use o heap_kept_refl [OF w] in \<open>auto simp: bind_eq_Some_conv split: prod.split_asm\<close>)

lemma object_session_kept:
  assumes lawful: "\<And>s h msg r s' h'. heap_wf h \<Longrightarrow> call methods s h msg = Some (r, s', h') \<Longrightarrow> lawful_result h (Some (r, h'))"
  shows "heap_wf h \<Longrightarrow> session (object_step methods) ops (s, h) = Some (replies, s', h') \<Longrightarrow> heap_kept h h'"
proof (induction ops arbitrary: s h replies)
  case Nil
  then show ?case by (simp add: heap_kept_refl)
next
  case (Cons op ops)
  then obtain r s1 h1 rs where o: "object_step methods op (s, h) = Some (r, s1, h1)"
    and t: "session (object_step methods) ops (s1, h1) = Some (rs, s', h')"
    by (auto simp: bind_eq_Some_conv)
  have k: "heap_kept h h1" using object_step_kept [OF lawful Cons.prems(1) o] .
  then have "heap_wf h1" by (simp add: heap_kept_def)
  from Cons.IH [OF this t] k show ?case by (rule heap_kept_trans [rotated])
qed

text \<open>C8: a VM that talks to a Host through a \<^verbatim>\<open>HostContext\<close> over its C interface has the session it would have with
  the object. For any sequence of requests, each of them with the sizes of its arrays, the session is defined
  exactly when the object answers all of them, the answers are the same, buffers, bytes of call outputs and
  statuses included, and the object is left in the same state. And no memory is lost or freed twice on the
  way: when the results of the Host are lawful, although each passes from the object of the Host into a raw
  struct and from there into an object of the VM, with a temporary destroyed in between, after the session
  exactly the blocks of before are held and every result that could be released before still can.\<close>

theorem host_context_sessions:
  fixes methods :: "'s host_methods"
  assumes "heap_wf h"
    and "\<And>s h msg r s' h'. heap_wf h \<Longrightarrow> call methods s h msg = Some (r, s', h') \<Longrightarrow> lawful_result h (Some (r, h'))"
  shows "case session context_step ops (make_host_context (get_interface methods) s, h) of
      None \<Rightarrow> session (object_step methods) ops (s, h) = None
    | Some (replies, hc, h') \<Rightarrow>
        (\<exists>s'. hc = make_host_context (get_interface methods) s' \<and>
           session (object_step methods) ops (s, h) = Some (replies, s', h')) \<and>
        heap_wf h' \<and> held_blocks h' = held_blocks h \<and> (\<forall>p. releasable p h \<longrightarrow> releasable p h')"
proof -
  let ?over = "\<lambda>(s, h). (make_host_context (get_interface methods) s, h)"
  have e: "session context_step ops (?over (s, h)) =
      map_option (\<lambda>(rs, c). (rs, ?over c)) (session (object_step methods) ops (s, h))"
    by (rule session_simulates) (rule context_step_object)
  show ?thesis
  proof (cases "session (object_step methods) ops (s, h)")
    case (Some x)
    then obtain rs s' h' where o: "session (object_step methods) ops (s, h) = Some (rs, s', h')" by (cases x) auto
    from object_session_kept [OF assms(2,1) o] e o show ?thesis
      by (simp add: heap_kept_def result_usable_def)
  qed (use e in simp)
qed

definition sample_session :: "host_op list" where
  "sample_session = [Op_copy_code 0 1 [9, 9, 9] 2,
     Op_call (zero_message\<lparr>msg_gas := 7, msg_input_data := Ptr 0 1, msg_input_size := 2\<rparr>), Op_get_storage 0 0]"

definition sample_accounts :: "address \<Rightarrow> account option" where
  "sample_accounts = [0 \<mapsto> account_default\<lparr>eh_code := [1, 2, 3]\<rparr>]"

lemma sample_session_object:
  assumes "eh_accounts s = sample_accounts"
  shows "\<exists>h'. session (object_step ExampleHost_methods) sample_session (s, sample_heap) =
    Some ([Reply_copied 2 [2, 3, 9], Reply_call QRVMC_REVERT 7 0 [8, 9] 0, Reply_word 0], s, h')"
proof -
  let ?m = "zero_message\<lparr>msg_gas := 7, msg_input_data := Ptr 0 1, msg_input_size := 2\<rparr>"
  have rd: "mem_read sample_heap (Ptr 0 1) 2 = Some [8, 9]" by (simp add: sample_heap_def mem_read_def region_def)
  have w: "heap_wf sample_heap" by (simp add: heap_wf_def sample_heap_def)
  have g: "granted sample_heap k n" for k n by (simp add: sample_heap_def)
  define r where "r = zero_result\<lparr>res_output_data := Ptr 1 0, res_output_size := 2, res_release := Free_result_memory,
    res_status_code := QRVMC_REVERT, res_gas_left := 7, res_gas_refund := 0\<rparr>"
  define h1 where "h1 = snd (allocate Malloc [8, 9] sample_heap)"
  have "eh_call s sample_heap ?m = Some (r, s, h1)"
    using make_result_output [OF w _ g rd, of QRVMC_REVERT 7 0] by (simp add: eh_call_def r_def h1_def sample_heap_def)
  moreover have "\<exists>h'. use_result r h1 = Some (Reply_call QRVMC_REVERT 7 0 [8, 9] 0, h')"
    by (simp add: use_result_def r_def h1_def zero_result_def allocate_def mem_read_def region_def sample_heap_def
        result_dtor_def call_release_def qrvmc_free_result_memory_def deallocate_def)
  ultimately show ?thesis
    using assms by (auto simp: sample_session_def ExampleHost_methods_def eh_copy_code_def eh_get_storage_def sample_accounts_def
        account_default_def region_def copy_into_def patch_def Let_def)
qed

theorem host_context_sessions_witness:
  "\<exists>h'. session context_step sample_session
       (make_host_context example_host_get_interface (example_host_with_accounts zero_tx_context sample_accounts), sample_heap) =
     Some ([Reply_copied 2 [2, 3, 9], Reply_call QRVMC_REVERT 7 0 [8, 9] 0, Reply_word 0],
       make_host_context example_host_get_interface (example_host_with_accounts zero_tx_context sample_accounts), h') \<and>
     held_blocks h' = held_blocks sample_heap"
proof -
  let ?s = "example_host_with_accounts zero_tx_context sample_accounts"
  have "lawful_result h (Some (r, h'))"
    if "heap_wf h" "call ExampleHost_methods s h msg = Some (r, s', h')" for s h msg r s' h'
    using make_result_lawful [OF that(1)] that(2) by (auto simp: ExampleHost_methods_def eh_call_def bind_eq_Some_conv)
  moreover have "heap_wf sample_heap" by (simp add: heap_wf_def sample_heap_def)
  moreover obtain h' where "session (object_step ExampleHost_methods) sample_session (?s, sample_heap) =
      Some ([Reply_copied 2 [2, 3, 9], Reply_call QRVMC_REVERT 7 0 [8, 9] 0, Reply_word 0], ?s, h')"
    using sample_session_object [of ?s] by (auto simp: example_host_with_accounts_def)
  ultimately show ?thesis
    using host_context_sessions [of sample_heap ExampleHost_methods sample_session ?s]
    by (auto simp: example_host_get_interface_def split: option.split_asm)
qed

end
