(* ===== verification/Spec2Isabelle.thy ===== *)
theory Spec2Isabelle
  imports TesterMain ExampleProgram MockedRecords HostsAgree Sessions
begin

text \<open>
  A verification library for QRVMC, the C interface between virtual machines and the blockchain clients
  that host them, with the C++ classes around it, the example VMs and Hosts, the loader and the tools.
  Paths below are under \<^verbatim>\<open>src/\<close>.

  \<^bold>\<open>The program.\<close> A Host creates or loads a VM instance (\<^verbatim>\<open>qrvmc_vm\<close>: a struct of function pointers), sets
  its options and executes a message with some code. While it executes, the VM calls back into the Host
  through \<^verbatim>\<open>qrvmc_host_interface\<close> with an opaque context pointer. The execution returns a
  \<^verbatim>\<open>qrvmc_result\<close> whose output belongs to whoever holds the result and is given back through the release
  function in it. \<^verbatim>\<open>qrvmc.hpp\<close> wraps these structs in classes: \<^verbatim>\<open>Result\<close> and \<^verbatim>\<open>VM\<close> own what they
  hold, \<^verbatim>\<open>Host\<close> is the base class of Hosts, \<^verbatim>\<open>HostContext\<close> the view of a Host from a VM.

  \<^bold>\<open>Conventions.\<close>
  \<^item> Undefined behaviour and aborts are \<open>None\<close>, errors of the program are values of its error types. So
    a theorem that some call is \<open>Some\<close> also says the call returns without undefined behaviour.
  \<^item> Integers of a fixed width are words (\<open>u8\<close>, \<open>u32\<close>, \<open>u64\<close>, \<open>i32\<close>, \<open>i64\<close> of Prelude), signed
    arithmetic on \<^verbatim>\<open>int64_t\<close> is partial (\<open>i64_sub\<close>), and \<^verbatim>\<open>size_t\<close> is \<open>nat\<close>.
  \<^item> \<open>'n barray\<close> (Bytes) is the type of arrays of \<open>n\<close> bytes; addresses have 20 and words 32.
  \<^item> Memory is explicit where ownership matters: a \<open>heap\<close> (Qrvmc) maps block numbers to the kind of
    allocation and the bytes. \<^verbatim>\<open>malloc\<close> may fail: whether it grants a request is a field of the heap, and
    so is the byte a fresh block is filled with. A \<open>ptr\<close> is null or a block with an offset.
  \<^item> The context pointer of a Host is the type variable \<open>'s\<close>, its callbacks take a state of this type and
    return it changed. The private data of a VM instance is the type variable \<open>'v\<close>. Instances live in a
    \<open>vm_store\<close> (VMWrapper), so that destroying one twice is undefined.

  \<^bold>\<open>Theories, bottom up.\<close>
  \<^item> Prelude: names for the machine integers, collections of simplification rules, signed 64-bit
    arithmetic, big-endian values, writing into a buffer.
  \<^item> Bytes, Operators: the byte arrays of \<^verbatim>\<open>include/qrvmc/qrvmc.h\<close> and their constructors, loads,
    comparisons, zero tests and FNV hashes in \<^verbatim>\<open>qrvmc.hpp\<close>. The operators, which work on 64-bit parts,
    are shown to be the comparisons of the integers the bytes stand for; the hash separates values that
    differ in one part.
  \<^item> Hex: \<^verbatim>\<open>hex.hpp\<close> and \<^verbatim>\<open>filter_iterator.hpp\<close>. Decoding undoes encoding, with a prefix and with white
    space too; every decoder is the loop's specification \<open>hex_spec\<close>; decoding into a fixed array never
    writes outside it, and a second \<^verbatim>\<open>0x\<close> misaligns it.
  \<^item> Qrvmc, Helpers: the enums, structs and function tables of \<^verbatim>\<open>qrvmc.h\<close>, the memory, and
    \<^verbatim>\<open>helpers.h\<close>. A result that \<^verbatim>\<open>qrvmc_make_result\<close> makes can be released, and releasing it restores
    the memory.
  \<^item> Ownership, Results: the class \<^verbatim>\<open>Result\<close>. The locale \<open>raii\<close> states what the constructors, moves
    and the destructor of an owning class promise, and proves once that a program of such operations never
    frees twice and leaks nothing; Results interprets it for \<^verbatim>\<open>Result\<close>, VMWrapper for \<^verbatim>\<open>VM\<close>.
  \<^item> Hosts: \<^verbatim>\<open>HostInterface\<close>, \<^verbatim>\<open>Host::get_interface\<close>, the \<^verbatim>\<open>internal::\<close> forwarders and
    \<^verbatim>\<open>HostContext\<close>, with the locale \<open>storage_host\<close> of Hosts whose storage is a map.
  \<^item> Sessions: a VM that makes requests through a \<^verbatim>\<open>HostContext\<close> over the C interface gets the answers of the
    object, and the \<^verbatim>\<open>Result\<close>s that pass through the interface are released once.
  \<^item> MockedHost, MockedRecords: \<^verbatim>\<open>mocked_host.hpp\<close>. Its storage refines a map, the storage statuses
    determine the net gas of a sequence of writes, and its records say what was asked for.
  \<^item> ExampleHost: \<^verbatim>\<open>examples/example_host.cpp\<close>, compared with the MockedHost.
  \<^item> Instructions: \<^verbatim>\<open>instructions.h\<close>, \<^verbatim>\<open>instruction_names.c\<close>, \<^verbatim>\<open>instruction_metrics.c\<close>.
  \<^item> ExampleVM: \<^verbatim>\<open>examples/example_vm/example_vm.cpp\<close>. \<open>dispatch\<close> is the \<^verbatim>\<open>switch\<close>, \<open>step\<close> the body of
    the loop, \<open>run_loop\<close> the loop and \<open>example_execute\<close> the function \<^verbatim>\<open>execute\<close>; a \<open>frame\<close> holds its local
    variables.
  \<^item> VMContract, VMSafety, VMRuns: what the example VM promises on every Host of the locale \<open>vm_host\<close>
    (lawful results, no memory lost), which programs it runs without undefined behaviour (those whose
    stack heights the metrics table accepts and whose memory regions do not wrap around), both Hosts of
    the repository as instances of the locale, and the gas and stack an execution uses.
  \<^item> VMPrograms: what two programs compute, from one lemma per instruction.
  \<^item> Machine, Calls: an abstract machine with integers and lists whose Host may be a model of the real one,
    and the proof that the example VM implements it. The locale \<open>host_model\<close> relates a Host to its model;
    without \<^verbatim>\<open>CALL\<close> the VM is defined exactly when the machine is. The locale \<open>calling_host\<close> joins it with
    \<open>vm_host\<close>; with \<^verbatim>\<open>CALL\<close> the VM does what the machine does where the machine runs to an end, and the
    machine is undefined where a region wraps around into the memory or the model has no reply.
  \<^item> HostsAgree: both Hosts of the repository interpret these locales. Programs cannot tell the MockedHost
    and the ExampleHost apart but by their calls, whose answers are \<open>canned_reply\<close> and \<open>echo_reply\<close>.
  \<^item> Precompiles: \<^verbatim>\<open>examples/example_precompiles_vm/example_precompiles_vm.cpp\<close>.
  \<^item> VMWrapper, Options: the class \<^verbatim>\<open>VM\<close> over a store of instances; which texts the option \<^verbatim>\<open>verbose\<close>
    of the example VM takes, by a grammar of the numbers \<^verbatim>\<open>strtol\<close> reads.
  \<^item> Loader: \<^verbatim>\<open>lib/loader/loader.c\<close> on a parameter \<open>linker\<close> for the dynamic linker. Loading and
    configuring either succeeds or leaves no instance behind; a configuration string means the list of
    options it was written from.
  \<^item> Run, QrvmcTool: \<^verbatim>\<open>lib/tooling/run.cpp\<close> and \<^verbatim>\<open>tools/qrvmc/main.cpp\<close>. The locale \<open>tool_vm\<close> states
    what \<^verbatim>\<open>run\<close> needs of a VM; both VMs of the repository interpret it.
  \<^item> VmTester, TesterMain: \<^verbatim>\<open>tools/vmtester/tests.cpp\<close>, \<^verbatim>\<open>vmtester.cpp\<close> and \<^verbatim>\<open>vmtester.hpp\<close>. Both VMs
    pass their tests.
  \<^item> ExampleProgram: \<^verbatim>\<open>examples/example.c\<close>, from the loader to the printed text.

  \<^bold>\<open>Termination.\<close> No definition has fuel. The loops of the sources recurse on the data they consume, with
  a measure where that is not structural: the bytes of code that are left in \<open>run_loop\<close>, the characters
  that are left in \<open>configure_options\<close>.

  \<^bold>\<open>Parameters.\<close> What the repository calls and does not contain is an argument of the definitions: the dynamic
  linker and the modules it finds, the command line parser of \<^verbatim>\<open>qrvmc\<close>, files, the arguments GoogleTest
  removes, the clock of the benchmark, the version string of the build. No theorem assumes more
  of them than its hypotheses say, and each such theorem has an instance with concrete ones.

  \<^bold>\<open>Not modelled.\<close>
  \<^item> Release functions other than those of the repository: \<^verbatim>\<open>qrvmc_result::release\<close> is an enumeration of them.
  \<^item> Overflow of \<^verbatim>\<open>current_block_number - 256\<close> in \<^verbatim>\<open>ExampleHost::get_block_hash\<close>, computed in integers.
  \<^item> The branches for Windows in \<^verbatim>\<open>loader.c\<close>, and the messages of the example VM when \<^verbatim>\<open>verbose\<close> is set.
  \<^item> The reallocation of the vector that keeps the inputs of recorded calls in the MockedHost: the copies
    are blocks of the heap that stay where they are.
  \<^item> \<^verbatim>\<open>example_host_destroy_context\<close>: the state is passed by value, so there is nothing to delete.
  \<^item> The typedefs of function pointers in \<^verbatim>\<open>qrvmc.h\<close>, which are the types of the record fields, and the
    prototypes in the headers.
  \<^item> The CMake scripts, packaging, the unit tests and the text of the documentation, which hold no logic of
    the program.
\<close>

end
